theory Spec2Isabelle
  imports Complex_Main "HOL-Library.Word"
begin

unbundle bit_operations_syntax

section \<open>The cetus command-line frontend (src/mysql-proxy-cli.c)\<close>

text \<open>
  A shallow embedding of \<^verbatim>\<open>src/mysql-proxy-cli.c\<close>: the frontend record, the
  resolution of the numeric parameters (\<^verbatim>\<open>init_parameters\<close>), the crash handler, the plugin
  mode check and the bootstrap sequence of \<^verbatim>\<open>main_cmdline\<close> with its single exit funnel.

  C \<^verbatim>\<open>int\<close> and \<^verbatim>\<open>guint\<close> are 32-bit words (\<open>sint\<close> reads an \<^verbatim>\<open>int\<close>), a \<^verbatim>\<open>gchar *\<close> is a
  \<open>string option\<close> (\<open>None\<close> for \<^verbatim>\<open>NULL\<close>), a NULL-terminated \<^verbatim>\<open>gchar **\<close> is a
  \<open>string list option\<close>. A \<^verbatim>\<open>double\<close> is the real number it denotes: the file only copies,
  compares and halves its two doubles, so NaN and the infinities are left out of the model.
\<close>

subsection \<open>Data\<close>

type_synonym gint = "32 word"
type_synonym guint = "32 word"
type_synonym gchar_p = "string option"
type_synonym GKeyFile = "(string \<times> string) list"

definition EXIT_SUCCESS :: gint where
  "EXIT_SUCCESS = 0"

definition EXIT_FAILURE :: gint where
  "EXIT_FAILURE = 1"

text \<open>
  The build configuration: the preprocessor symbols the file tests, and the constants it
  takes from headers that are not part of this file.
\<close>

record build =
  HAVE_SIGACTION :: bool
  SIMPLE_PARSER :: bool
  DEFAULT_PLUGIN :: "string option"
  CHASSIS_BUILD_TAG :: "string option"
  PACKAGE_STRING :: string
  GLIB_VERSION :: "gint \<times> gint \<times> gint"
  MAX_QUERY_TIME :: gint
  MAX_ALLOWED_PACKET_DEFAULT :: gint
  MAX_ALLOWED_PACKET_FLOOR :: gint
  MAX_ALLOWED_PACKET_CEIL :: gint

text \<open>\<^verbatim>\<open>chassis_frontend_t\<close>, lines 65-124 (the two members the file never reads are left out).\<close>

record chassis_frontend_t =
  print_version :: gint
  verbose_shutdown :: gint
  daemon_mode :: gint
  set_client_found_rows :: gint
  default_pool_size :: gint
  max_pool_size :: gint
  merged_output_size :: gint
  max_header_size :: gint
  max_resp_len :: gint
  master_preferred :: gint
  worker_id :: gint
  config_port :: gint
  disable_threads :: gint
  is_tcp_stream_enabled :: gint
  is_back_compressed :: gint
  is_client_compress_support :: gint
  check_slave_delay :: gint
  is_reduce_conns :: gint
  is_reset_conn_enabled :: gint
  long_query_time :: gint
  xa_log_detailed :: gint
  cetus_max_allowed_packet :: gint
  default_query_cache_timeout :: gint
  query_cache_enabled :: gint
  disable_dns_cache :: gint
  slave_delay_down_threshold_sec :: real
  slave_delay_recover_threshold_sec :: real
  invoke_dbg_on_crash :: guint
  auto_restart :: guint
  max_files_number :: gint
  user :: gchar_p
  base_dir :: gchar_p
  conf_dir :: gchar_p
  default_file :: gchar_p
  keyfile :: "GKeyFile option"
  pid_file :: gchar_p
  plugin_dir :: gchar_p
  plugin_names :: "string list option"
  log_level :: gchar_p
  log_filename :: gchar_p
  log_xa_filename :: gchar_p
  default_username :: gchar_p
  default_charset :: gchar_p
  default_db :: gchar_p
  remote_config_url :: gchar_p

text \<open>
  The members of \<^verbatim>\<open>chassis\<close> that this file assigns. The struct is declared in a header
  that is not part of the file; every member has the C type of the frontend member
  assigned to it, and carries the prefix \<open>srv_\<close> here because the two structs share names.
\<close>

record guid_state_t =
  guid_worker_id :: gint

record chassis =
  srv_base_dir :: gchar_p
  srv_plugin_dir :: gchar_p
  srv_conf_dir :: gchar_p
  srv_user :: gchar_p
  srv_config_manager :: "string option"
  srv_default_username :: gchar_p
  srv_default_charset :: gchar_p
  srv_default_db :: gchar_p
  srv_mid_idle_connections :: gint
  srv_max_idle_connections :: gint
  srv_max_resp_len :: gint
  srv_merged_output_size :: gint
  srv_compressed_merged_output_size :: gint
  srv_max_header_size :: gint
  srv_guid_state :: guid_state_t
  srv_client_found_rows :: gint
  srv_xa_log_detailed :: gint
  srv_is_reset_conn_enabled :: gint
  srv_query_cache_enabled :: gint
  srv_query_cache_table :: "(string \<times> string) list option"
  srv_cache_index :: "string list option"
  srv_is_tcp_stream_enabled :: gint
  srv_disable_threads :: gint
  srv_is_back_compressed :: gint
  srv_compress_support :: gint
  srv_check_slave_delay :: gint
  srv_slave_delay_down_threshold_sec :: real
  srv_slave_delay_recover_threshold_sec :: real
  srv_master_preferred :: gint
  srv_disable_dns_cache :: gint
  srv_default_query_cache_timeout :: gint
  srv_long_query_time :: gint
  srv_cetus_max_allowed_packet :: gint

subsection \<open>Log lines and calls\<close>

datatype GLogLevelFlags =
    G_LOG_LEVEL_ERROR
  | G_LOG_LEVEL_CRITICAL
  | G_LOG_LEVEL_WARNING
  | G_LOG_LEVEL_MESSAGE
  | G_LOG_LEVEL_INFO
  | G_LOG_LEVEL_DEBUG

text \<open>
  A log line is its level, its format string and its arguments; \<open>STRLOC n\<close> is the
  \<^verbatim>\<open>G_STRLOC\<close> of source line \<open>n\<close>, \<open>L\<close> a 64-bit argument and \<open>Errno\<close> the value of
  \<^verbatim>\<open>errno\<close> or its \<^verbatim>\<open>g_strerror\<close>.
\<close>

datatype fmt_arg = I gint | L int | D real | S string | STRLOC nat | Errno

datatype signal = SIGSEGV | SIGPIPE

datatype sighandler = SIG_DFL | SIG_IGN | Sigsegv_handler

datatype callee =
    Chassis_frontend_init_glib
  | Chassis_log_new
  | Chassis_new
  | Chassis_frontend_new
  | Chassis_frontend_init_base_options
  | Chassis_frontend_open_config_file
  | Chassis_frontend_print_version
  | Chassis_options_new
  | Chassis_frontend_set_chassis_options
  | Chassis_options_parse_cmdline
  | Chassis_keyfile_to_options_with_error
  | Chassis_config_from_url
  | Chassis_config_parse_options
  | Chassis_frontend_init_basedir
  | Chassis_frontend_init_plugin_dir
  | Resolve_path
  | Chassis_config_from_local_dir
  | Chassis_log_open
  | Init_slow_query_log
  | Chassis_log_set_level
  | Network_mysqld_init
  | Chassis_frontend_load_plugins
  | Chassis_frontend_init_plugins
  | Chassis_frontend_print_plugin_versions
  | Chassis_unix_daemonize
  | Chassis_unix_proc_keepalive
  | Chassis_frontend_write_pidfile
  | Chassis_frontend_log_plugin_versions
  | Check_plugin_mode_valid
  | Init_parameters
  | Tc_log_init
  | Chassis_fdlimit_set
  | Cetus_monitor_start_thread
  | Chassis_mainloop
  | Cetus_monitor_stop_thread
  | Chassis_set_shutdown_location
  | Release_resouces_when_exit
  | Fclose

datatype event =
    G_log GLogLevelFlags string "fmt_arg list"
  | G_print string
  | Sigaction signal sighandler
  | Call callee

definition g_message :: "string \<Rightarrow> fmt_arg list \<Rightarrow> event" where
  "g_message fmt args = G_log G_LOG_LEVEL_MESSAGE fmt args"

definition g_warning :: "string \<Rightarrow> fmt_arg list \<Rightarrow> event" where
  "g_warning fmt args = G_log G_LOG_LEVEL_WARNING fmt args"

definition g_critical :: "string \<Rightarrow> fmt_arg list \<Rightarrow> event" where
  "g_critical fmt args = G_log G_LOG_LEVEL_CRITICAL fmt args"

definition g_debug :: "string \<Rightarrow> fmt_arg list \<Rightarrow> event" where
  "g_debug fmt args = G_log G_LOG_LEVEL_DEBUG fmt args"

fun is_warning :: "event \<Rightarrow> bool" where
  "is_warning (G_log lvl fmt args) = (lvl = G_LOG_LEVEL_WARNING)"
| "is_warning _ = False"

subsection \<open>\<^verbatim>\<open>chassis_frontend_new\<close>, lines 129-151\<close>

text \<open>\<^verbatim>\<open>g_slice_new0\<close>: every member zero or \<^verbatim>\<open>NULL\<close>.\<close>

definition g_slice_new0_frontend :: chassis_frontend_t where
  "g_slice_new0_frontend =
     \<lparr> print_version = 0, verbose_shutdown = 0, daemon_mode = 0, set_client_found_rows = 0,
       default_pool_size = 0, max_pool_size = 0, merged_output_size = 0, max_header_size = 0,
       max_resp_len = 0, master_preferred = 0, worker_id = 0, config_port = 0,
       disable_threads = 0, is_tcp_stream_enabled = 0, is_back_compressed = 0,
       is_client_compress_support = 0, check_slave_delay = 0, is_reduce_conns = 0,
       is_reset_conn_enabled = 0, long_query_time = 0, xa_log_detailed = 0,
       cetus_max_allowed_packet = 0, default_query_cache_timeout = 0, query_cache_enabled = 0,
       disable_dns_cache = 0, slave_delay_down_threshold_sec = 0,
       slave_delay_recover_threshold_sec = 0, invoke_dbg_on_crash = 0, auto_restart = 0,
       max_files_number = 0, user = None, base_dir = None, conf_dir = None,
       default_file = None, keyfile = None, pid_file = None, plugin_dir = None,
       plugin_names = None, log_level = None, log_filename = None, log_xa_filename = None,
       default_username = None, default_charset = None, default_db = None,
       remote_config_url = None \<rparr>"

definition chassis_frontend_new :: "build \<Rightarrow> chassis_frontend_t" where
  "chassis_frontend_new b =
     g_slice_new0_frontend
       \<lparr> max_files_number := 0,
         disable_threads := 0,
         is_back_compressed := 0,
         is_client_compress_support := 0,
         xa_log_detailed := 0,
         default_pool_size := 100,
         max_resp_len := 10 * 1024 * 1024,
         merged_output_size := 8192,
         max_header_size := 65536,
         config_port := 3306,
         slave_delay_down_threshold_sec := 60,
         default_query_cache_timeout := 100,
         long_query_time := MAX_QUERY_TIME b,
         cetus_max_allowed_packet := MAX_ALLOWED_PACKET_DEFAULT b,
         disable_dns_cache := 0 \<rparr>"

subsection \<open>\<^verbatim>\<open>init_parameters\<close>, lines 454-532\<close>

text \<open>\<^verbatim>\<open>DUP_STRING(STR, DEFAULT)\<close>: a copy of the string, else of the default, else \<^verbatim>\<open>NULL\<close>.\<close>

definition DUP_STRING :: "gchar_p \<Rightarrow> gchar_p \<Rightarrow> gchar_p" where
  "DUP_STRING str dflt =
     (case str of Some s \<Rightarrow> Some s
      | None \<Rightarrow> (case dflt of Some d \<Rightarrow> Some d | None \<Rightarrow> None))"

text \<open>The glib macros \<^verbatim>\<open>MAX\<close>, \<^verbatim>\<open>MIN\<close> and \<^verbatim>\<open>CLAMP\<close> on \<^verbatim>\<open>int\<close>.\<close>

definition MAX_int :: "gint \<Rightarrow> gint \<Rightarrow> gint" where
  "MAX_int a b = (if sint a > sint b then a else b)"

definition MIN_int :: "gint \<Rightarrow> gint \<Rightarrow> gint" where
  "MIN_int a b = (if sint a < sint b then a else b)"

definition CLAMP_int :: "gint \<Rightarrow> gint \<Rightarrow> gint \<Rightarrow> gint" where
  "CLAMP_int x low high =
     (if sint x > sint high then high else if sint x < sint low then low else x)"

text \<open>
  The function assigns the members of \<^verbatim>\<open>srv\<close> in the order of the source and returns the
  service object with the log lines it wrote.
\<close>

definition init_parameters ::
  "build \<Rightarrow> chassis_frontend_t \<Rightarrow> chassis \<Rightarrow> chassis \<times> event list" where
  "init_parameters b frontend srv0 =
    (let srv = srv0 \<lparr> srv_default_username := DUP_STRING (default_username frontend) None,
                      srv_default_charset := DUP_STRING (default_charset frontend) None,
                      srv_default_db := DUP_STRING (default_db frontend) None \<rparr>;
         srv = srv \<lparr> srv_mid_idle_connections := default_pool_size frontend \<rparr>;
         out = [g_message ''set default pool size:%d'' [I (srv_mid_idle_connections srv)]];
         srv = (if sint (max_pool_size frontend) \<ge> sint (srv_mid_idle_connections srv)
                then srv \<lparr> srv_max_idle_connections := max_pool_size frontend \<rparr>
                else srv \<lparr> srv_max_idle_connections :=
                              push_bit 1 (srv_mid_idle_connections srv) \<rparr>);
         out = out @ [g_message ''set max pool size:%d'' [I (srv_max_idle_connections srv)]];
         srv = srv \<lparr> srv_max_resp_len := max_resp_len frontend \<rparr>;
         out = out @ [g_message ''set max resp len:%d'' [I (srv_max_resp_len srv)]];
         srv = srv \<lparr> srv_merged_output_size := merged_output_size frontend \<rparr>;
         srv = srv \<lparr> srv_compressed_merged_output_size :=
                       push_bit 3 (srv_merged_output_size srv) \<rparr>;
         out = out @ [g_message ''%s:set merged output size:%d''
                        [STRLOC 479, I (srv_merged_output_size srv)]];
         srv = srv \<lparr> srv_max_header_size := max_header_size frontend \<rparr>;
         out = out @ [g_message ''%s:set max header size:%d''
                        [STRLOC 482, I (srv_max_header_size srv)]];
         srv = (if sint (worker_id frontend) > 0
                then srv \<lparr> srv_guid_state :=
                       (srv_guid_state srv) \<lparr> guid_worker_id := worker_id frontend AND 0x3f \<rparr> \<rparr>
                else srv);
         srv = srv \<lparr> srv_client_found_rows := set_client_found_rows frontend \<rparr>;
         out = out @ [g_message ''set client_found_rows %s''
                        [S (if srv_client_found_rows srv \<noteq> 0 then ''true'' else ''false'')]];
         srv = srv \<lparr> srv_xa_log_detailed := xa_log_detailed frontend \<rparr>;
         out = out @ (if srv_xa_log_detailed srv \<noteq> 0
                      then [g_message ''%s:xa_log_detailed true'' [STRLOC 495]]
                      else [g_message ''%s:xa_log_detailed false'' [STRLOC 497]]);
         srv = srv \<lparr> srv_is_reset_conn_enabled := is_reset_conn_enabled frontend \<rparr>;
         srv = srv \<lparr> srv_query_cache_enabled := query_cache_enabled frontend \<rparr>;
         srv = (if srv_query_cache_enabled srv \<noteq> 0
                then srv \<lparr> srv_query_cache_table := Some [], srv_cache_index := Some [] \<rparr>
                else srv);
         srv = srv \<lparr> srv_is_tcp_stream_enabled := is_tcp_stream_enabled frontend \<rparr>;
         out = out @ (if srv_is_tcp_stream_enabled srv \<noteq> 0
                      then [g_message ''%s:tcp stream enabled'' [STRLOC 508]]
                      else []);
         srv = srv \<lparr> srv_disable_threads := disable_threads frontend,
                     srv_is_back_compressed := is_back_compressed frontend,
                     srv_compress_support := is_client_compress_support frontend,
                     srv_check_slave_delay := check_slave_delay frontend,
                     srv_slave_delay_down_threshold_sec := slave_delay_down_threshold_sec frontend,
                     srv_master_preferred := master_preferred frontend,
                     srv_disable_dns_cache := disable_dns_cache frontend \<rparr>;
         (srv, out) =
           (if slave_delay_recover_threshold_sec frontend > 0
            then (let srv = srv \<lparr> srv_slave_delay_recover_threshold_sec :=
                                     slave_delay_recover_threshold_sec frontend \<rparr>
                  in if slave_delay_recover_threshold_sec frontend
                          > srv_slave_delay_down_threshold_sec srv
                     then (srv \<lparr> srv_slave_delay_recover_threshold_sec :=
                                   srv_slave_delay_down_threshold_sec srv \<rparr>,
                           out @ [g_warning
                                    ''`slave-delay-recover` should be lower than `slave-delay-down`.'' [],
                                  g_warning ''Set slave-delay-recover=%.3f''
                                    [D (srv_slave_delay_down_threshold_sec srv)]])
                     else (srv, out))
            else (srv \<lparr> srv_slave_delay_recover_threshold_sec :=
                          srv_slave_delay_down_threshold_sec srv / 2 \<rparr>, out));
         srv = srv \<lparr> srv_default_query_cache_timeout :=
                       MAX_int (default_query_cache_timeout frontend) 1 \<rparr>;
         srv = srv \<lparr> srv_long_query_time :=
                       MIN_int (long_query_time frontend) (MAX_QUERY_TIME b) \<rparr>;
         srv = srv \<lparr> srv_cetus_max_allowed_packet :=
                       CLAMP_int (cetus_max_allowed_packet frontend)
                         (MAX_ALLOWED_PACKET_FLOOR b) (MAX_ALLOWED_PACKET_CEIL b) \<rparr>
     in (srv, out))"

subsection \<open>The crash handler, lines 399-423\<close>

text \<open>
  The stack is the list of its frames, innermost first, each frame given by the string
  \<^verbatim>\<open>backtrace_symbols\<close> prints for it. libc's \<^verbatim>\<open>backtrace(array, n)\<close> stores the first
  \<open>n\<close> frames at most and returns how many it stored.
\<close>

definition backtrace :: "string list \<Rightarrow> nat \<Rightarrow> string list" where
  "backtrace stack n = take n stack"

definition log_backtrace :: "string list \<Rightarrow> event list" where
  "log_backtrace stack =
     (let array = backtrace stack 16;
          size = length array;
          strings = array
      in g_warning ''Obtained %d stack frames.'' [I (of_nat size)]
         # map (\<lambda>i. g_warning ''%s'' [S (strings ! i)]) [0..<size])"

text \<open>How a signal handler ends: it returns to the interrupted code, or \<^verbatim>\<open>abort()\<close> raises SIGABRT.\<close>

datatype handler_end = Handler_returns | Raises_SIGABRT

definition sigsegv_handler :: "gint \<Rightarrow> string list \<Rightarrow> event list \<times> handler_end" where
  "sigsegv_handler signum stack = (log_backtrace stack, Raises_SIGABRT)"

subsection \<open>\<^verbatim>\<open>check_plugin_mode_valid\<close>, lines 425-446\<close>

text \<open>The loop over the NULL-terminated array, with the two mode flags and the lines logged.\<close>

fun plugin_mode_loop ::
  "string list \<Rightarrow> gint \<Rightarrow> gint \<Rightarrow> event list \<Rightarrow> gint \<times> gint \<times> event list" where
  "plugin_mode_loop [] proxy_mode sharding_mode out = (proxy_mode, sharding_mode, out)"
| "plugin_mode_loop (name # names) proxy_mode sharding_mode out =
     plugin_mode_loop names
       (if name = ''proxy'' then 1 else proxy_mode)
       (if name = ''shard'' then 1 else sharding_mode)
       (if name = ''shard'' then out @ [g_message ''set sharding mode true'' []] else out)"

definition check_plugin_mode_valid :: "string list \<Rightarrow> bool \<times> event list" where
  "check_plugin_mode_valid names =
     (case plugin_mode_loop names 0 0 [] of
        (proxy_mode, sharding_mode, out) \<Rightarrow>
          if sharding_mode \<noteq> 0 \<and> proxy_mode \<noteq> 0
          then (False, out @ [g_critical ''shard & proxy is mutual exclusive'' []])
          else (True, out))"

subsection \<open>\<^verbatim>\<open>chassis_frontend_set_chassis_options\<close>, lines 187-396\<close>

datatype chassis_options_arg =
    OPTION_ARG_NONE
  | OPTION_ARG_STRING
  | OPTION_ARG_STRING_ARRAY
  | OPTION_ARG_INT
  | OPTION_ARG_DOUBLE

text \<open>
  The address of a frontend member, as the function that stores through it. A member of
  type \<^verbatim>\<open>int\<close> or \<^verbatim>\<open>guint\<close> is an \<open>Int_member\<close>.
\<close>

datatype arg_data =
    Int_member "(gint \<Rightarrow> gint) \<Rightarrow> chassis_frontend_t \<Rightarrow> chassis_frontend_t"
  | String_member "(gchar_p \<Rightarrow> gchar_p) \<Rightarrow> chassis_frontend_t \<Rightarrow> chassis_frontend_t"
  | Strv_member
      "(string list option \<Rightarrow> string list option) \<Rightarrow> chassis_frontend_t \<Rightarrow> chassis_frontend_t"
  | Double_member "(real \<Rightarrow> real) \<Rightarrow> chassis_frontend_t \<Rightarrow> chassis_frontend_t"

type_synonym chassis_option_t = "string \<times> chassis_options_arg \<times> arg_data"

definition chassis_frontend_set_chassis_options :: "chassis_option_t list" where
  "chassis_frontend_set_chassis_options =
   [(''verbose-shutdown'', OPTION_ARG_NONE, Int_member verbose_shutdown_update),
    (''daemon'', OPTION_ARG_NONE, Int_member daemon_mode_update),
    (''user'', OPTION_ARG_STRING, String_member user_update),
    (''basedir'', OPTION_ARG_STRING, String_member base_dir_update),
    (''conf-dir'', OPTION_ARG_STRING, String_member conf_dir_update),
    (''pid-file'', OPTION_ARG_STRING, String_member pid_file_update),
    (''plugin-dir'', OPTION_ARG_STRING, String_member plugin_dir_update),
    (''plugins'', OPTION_ARG_STRING_ARRAY, Strv_member plugin_names_update),
    (''log-level'', OPTION_ARG_STRING, String_member log_level_update),
    (''log-file'', OPTION_ARG_STRING, String_member log_filename_update),
    (''log-xa-file'', OPTION_ARG_STRING, String_member log_xa_filename_update),
    (''log-backtrace-on-crash'', OPTION_ARG_NONE, Int_member invoke_dbg_on_crash_update),
    (''keepalive'', OPTION_ARG_NONE, Int_member auto_restart_update),
    (''max-open-files'', OPTION_ARG_INT, Int_member max_files_number_update),
    (''default-charset'', OPTION_ARG_STRING, String_member default_charset_update),
    (''default-username'', OPTION_ARG_STRING, String_member default_username_update),
    (''default-db'', OPTION_ARG_STRING, String_member default_db_update),
    (''default-pool-size'', OPTION_ARG_INT, Int_member default_pool_size_update),
    (''max-pool-size'', OPTION_ARG_INT, Int_member max_pool_size_update),
    (''max-resp-size'', OPTION_ARG_INT, Int_member max_resp_len_update),
    (''merged-output-size'', OPTION_ARG_INT, Int_member merged_output_size_update),
    (''max-header-size'', OPTION_ARG_INT, Int_member max_header_size_update),
    (''worker_id'', OPTION_ARG_INT, Int_member worker_id_update),
    (''disable-threads'', OPTION_ARG_NONE, Int_member disable_threads_update),
    (''enable-back-compress'', OPTION_ARG_NONE, Int_member is_back_compressed_update),
    (''enable-client-compress'', OPTION_ARG_NONE, Int_member is_client_compress_support_update),
    (''check-slave-delay'', OPTION_ARG_NONE, Int_member check_slave_delay_update),
    (''slave-delay-down'', OPTION_ARG_DOUBLE, Double_member slave_delay_down_threshold_sec_update),
    (''slave-delay-recover'', OPTION_ARG_DOUBLE,
       Double_member slave_delay_recover_threshold_sec_update),
    (''default-query-cache-timeout'', OPTION_ARG_INT,
       Int_member default_query_cache_timeout_update),
    (''long-query-time'', OPTION_ARG_INT, Int_member long_query_time_update),
    (''enable-client-found-rows'', OPTION_ARG_NONE, Int_member set_client_found_rows_update),
    (''reduce-connections'', OPTION_ARG_NONE, Int_member is_reduce_conns_update),
    (''enable-reset-connection'', OPTION_ARG_NONE, Int_member is_reset_conn_enabled_update),
    (''enable-query-cache'', OPTION_ARG_NONE, Int_member query_cache_enabled_update),
    (''enable-tcp-stream'', OPTION_ARG_NONE, Int_member is_tcp_stream_enabled_update),
    (''log-xa-in-detail'', OPTION_ARG_NONE, Int_member xa_log_detailed_update),
    (''disable-dns-cache'', OPTION_ARG_NONE, Int_member disable_dns_cache_update),
    (''master-preferred'', OPTION_ARG_NONE, Int_member master_preferred_update),
    (''max-allowed-packet'', OPTION_ARG_INT, Int_member cetus_max_allowed_packet_update),
    (''remote-conf-url'', OPTION_ARG_STRING, String_member remote_config_url_update)]"

text \<open>
  The option parser, the keyfile reader and the remote configuration live in other files
  and reach the frontend only through the addresses registered above. What such a call
  did to the frontend is therefore a list of stores: an option name with the value
  written through its address. A value of the wrong type for the address, or a name that is
  not registered (a plugin's option), leaves the frontend alone.
\<close>

datatype opt_value =
    Int_value gint
  | String_value string
  | Strv_value "string list"
  | Double_value real

fun store :: "arg_data \<Rightarrow> opt_value \<Rightarrow> chassis_frontend_t \<Rightarrow> chassis_frontend_t" where
  "store (Int_member upd) (Int_value v) f = upd (\<lambda>_. v) f"
| "store (String_member upd) (String_value s) f = upd (\<lambda>_. Some s) f"
| "store (Strv_member upd) (Strv_value ss) f = upd (\<lambda>_. Some ss) f"
| "store (Double_member upd) (Double_value d) f = upd (\<lambda>_. d) f"
| "store _ _ f = f"

fun find_option :: "chassis_option_t list \<Rightarrow> string \<Rightarrow> arg_data option" where
  "find_option [] name = None"
| "find_option ((long_name, arg, data) # entries) name =
     (if long_name = name then Some data else find_option entries name)"

fun apply_stores ::
  "chassis_option_t list \<Rightarrow> (string \<times> opt_value) list \<Rightarrow> chassis_frontend_t \<Rightarrow> chassis_frontend_t"
  where
  "apply_stores entries [] f = f"
| "apply_stores entries ((name, v) # rest) f =
     apply_stores entries rest
       (case find_option entries name of None \<Rightarrow> f | Some data \<Rightarrow> store data v f)"

subsection \<open>The state of \<^verbatim>\<open>main_cmdline\<close> and the calls it makes into other files\<close>

record chassis_options_t =
  ignore_unknown :: bool
  help_enabled :: bool
  options :: "chassis_option_t list"

record chassis_log =
  min_lvl :: GLogLevelFlags
  log_file :: gchar_p

record GError =
  err_domain :: string
  err_code :: gint
  err_message :: string

definition G_OPTION_ERROR :: string where
  "G_OPTION_ERROR = ''g-option-context-error-quark''"

definition G_OPTION_ERROR_UNKNOWN_OPTION :: gint where
  "G_OPTION_ERROR_UNKNOWN_OPTION = 0"

text \<open>
  The local \<^verbatim>\<open>slow_query_log_fp\<close> is declared with its initializer at line 787, in the
  middle of the function. A \<^verbatim>\<open>goto exit_nicely\<close> from an earlier line jumps over the
  initializer, and the variable is then read at line 1015 with an indeterminate value.
\<close>

datatype FILE_p = Indeterminate | NULL_FILE | Open_FILE

text \<open>
  The local variables of \<^verbatim>\<open>main_cmdline\<close> once \<^verbatim>\<open>log\<close>, \<^verbatim>\<open>srv\<close> and \<^verbatim>\<open>frontend\<close> exist,
  with the calls and log lines made so far in \<open>trace\<close>.
\<close>

record state =
  srv :: chassis
  frontend :: chassis_frontend_t
  opts :: "chassis_options_t option"
  gerr :: "GError option"
  the_log :: chassis_log
  slow_query_log_fp :: FILE_p
  argv :: "string list"
  exit_code :: gint
  exit_location :: nat
  trace :: "event list"

text \<open>
  What the functions of other files return is given by an environment. The first record
  holds the results a process sees after the fork of \<^verbatim>\<open>chassis_unix_proc_keepalive\<close>.
\<close>

record late_env =
  chassis_frontend_write_pidfile_r :: "string \<Rightarrow> GError option"
  tc_log_init_r :: "gchar_p \<Rightarrow> gint"
  chassis_fdlimit_set_r :: "gint \<Rightarrow> gint"
  chassis_fdlimit_get_r :: int
  chassis_mainloop_r :: gint
  mallinfo_r :: "gint \<times> gint \<times> gint"

text \<open>
  Modelled from the spec: \<^verbatim>\<open>chassis_unix_proc_keepalive\<close> (chassis-unix-daemon.c, not part
  of this file). Section 4.6: the supervisor forks a child that runs the rest of the
  bootstrap and waits for it; a child that dies abnormally is replaced; when a child exits
  deliberately the supervisor forwards that exact status. The call returns 0 in the child
  (\<open>Is_child\<close>), a negative value when fork or wait fails (\<open>Fork_failed\<close>) and a positive
  value in the supervisor, with the status of the child that exited (\<open>Child_exited\<close>, which
  carries the results that child saw from its own calls).
\<close>

datatype keepalive_result = Is_child | Fork_failed | Child_exited late_env

record env =
  RUNNING_ON_VALGRIND :: bool
  chassis_frontend_init_glib_r :: gint
  chassis_new_r :: "chassis option"
  chassis_frontend_init_base_options_r ::
    "string list \<Rightarrow> GError + (gint \<times> gchar_p \<times> string list)"
  chassis_frontend_open_config_file_r :: "string \<Rightarrow> GError + GKeyFile"
  chassis_options_parse_cmdline_r ::
    "bool \<Rightarrow> string list \<Rightarrow> GError + ((string \<times> opt_value) list \<times> string list)"
  chassis_keyfile_to_options_with_error_r :: "GKeyFile \<Rightarrow> GError + (string \<times> opt_value) list"
  chassis_config_from_url_r :: "string \<Rightarrow> string option"
  chassis_config_parse_options_r :: "string \<Rightarrow> (string \<times> opt_value) list option"
  chassis_frontend_init_basedir_r :: "string list \<Rightarrow> gchar_p \<Rightarrow> gchar_p option"
  chassis_frontend_init_plugin_dir_r :: "gchar_p \<Rightarrow> gchar_p \<Rightarrow> gchar_p"
  chassis_resolve_path_r :: "gchar_p \<Rightarrow> gchar_p \<Rightarrow> gchar_p"
  chassis_config_from_local_dir_r :: "gchar_p \<Rightarrow> gchar_p \<Rightarrow> string option"
  chassis_log_open_r :: "string \<Rightarrow> bool"
  fopen_r :: "string \<Rightarrow> bool"
  chassis_log_set_level_r :: "string \<Rightarrow> GLogLevelFlags option"
  event_get_version_r :: string
  network_mysqld_init_r :: gint
  chassis_frontend_load_plugins_r :: "gchar_p \<Rightarrow> string list option \<Rightarrow> gint"
  chassis_frontend_init_plugins_r :: "string list \<Rightarrow> GError + string list"
  chassis_unix_proc_keepalive_r :: keepalive_result
  late :: late_env

text \<open>
  A stage of the function falls through to the next statement, jumps to \<^verbatim>\<open>exit_nicely\<close>
  (the macro \<^verbatim>\<open>GOTO_EXIT\<close>), or leaves the function abnormally: a dereference of a
  \<^verbatim>\<open>NULL\<close> plugin array, or a supervisor whose child never gets to exit.
\<close>

datatype step = Next state | Goto_exit state | Abnormal state

definition emit :: "event \<Rightarrow> state \<Rightarrow> state" where
  "emit e st = st \<lparr> trace := trace st @ [e] \<rparr>"

definition GOTO_EXIT :: "gint \<Rightarrow> nat \<Rightarrow> state \<Rightarrow> step" where
  "GOTO_EXIT status line st = Goto_exit (st \<lparr> exit_code := status, exit_location := line \<rparr>)"

fun run_stages :: "(state \<Rightarrow> step) list \<Rightarrow> state \<Rightarrow> step" where
  "run_stages [] st = Next st"
| "run_stages (stage # stages) st =
     (case stage st of
        Next st' \<Rightarrow> run_stages stages st'
      | Goto_exit st' \<Rightarrow> Goto_exit st'
      | Abnormal st' \<Rightarrow> Abnormal st')"

subsection \<open>The exit funnel, lines 983-1017\<close>

text \<open>\<^verbatim>\<open>release_resouces_when_exit\<close>, lines 535-549: the lines it logs while it frees.\<close>

definition release_resouces_when_exit :: "event list" where
  "release_resouces_when_exit =
     [g_debug ''%s: call chassis_options_free'' [STRLOC 541],
      g_debug ''%s: call g_hash_table_destroy'' [STRLOC 543],
      g_debug ''%s: call chassis_log_free'' [STRLOC 544]]"

text \<open>
  What the funnel has done when it gets to line 1015: the value of \<^verbatim>\<open>exit_code\<close>, the
  location handed to \<^verbatim>\<open>chassis_set_shutdown_location\<close>, the frontend as the funnel found it
  (\<open>None\<close> when the pointer was still \<^verbatim>\<open>NULL\<close>), and the calls and log lines of the whole
  run.
\<close>

record outcome =
  final_code :: gint
  shutdown_location :: nat
  resolved :: "chassis_frontend_t option"
  events :: "event list"

text \<open>Lines 983-1014: from the label to the release of the resources.\<close>

definition shutdown_funnel ::
  "build \<Rightarrow> env \<Rightarrow> late_env \<Rightarrow> chassis_frontend_t option \<Rightarrow> gint \<Rightarrow> nat \<Rightarrow> event list \<Rightarrow> outcome"
  where
  "shutdown_funnel b env lenv frontend_p exit_code0 exit_location0 trace0 =
    (let exit_location1 = (if exit_code0 = 0 then 988 else exit_location0);
         m = mallinfo_r lenv;
         tr = trace0 @ [g_message ''Total allocated space (bytes): %d'' [I (fst m)],
                        g_message ''Total free space (bytes): %d'' [I (fst (snd m))],
                        g_message ''Top-most, releasable space (bytes): %d'' [I (snd (snd m))],
                        Call Chassis_set_shutdown_location];
         tr = (case frontend_p of
                 None \<Rightarrow> tr
               | Some f \<Rightarrow>
                   if print_version f = 0
                   then tr @ [G_log (if verbose_shutdown f \<noteq> 0 then G_LOG_LEVEL_CRITICAL
                                     else G_LOG_LEVEL_MESSAGE)
                                ''shutting down normally, exit code is: %d'' [I exit_code0]]
                   else tr);
         tr = (if HAVE_SIGACTION b
               then (case frontend_p of
                       None \<Rightarrow> tr
                     | Some f \<Rightarrow>
                         if invoke_dbg_on_crash f \<noteq> 0 \<and> \<not> RUNNING_ON_VALGRIND env
                         then tr @ [Sigaction SIGSEGV SIG_DFL]
                         else tr)
               else tr);
         tr = tr @ [Call Release_resouces_when_exit] @ release_resouces_when_exit
     in \<lparr> final_code = exit_code0, shutdown_location = exit_location1,
          resolved = frontend_p, events = tr \<rparr>)"

text \<open>
  How a run ends. It returns \<open>final_code\<close> (\<open>Exited\<close>); or it gets to line 1015 with
  \<^verbatim>\<open>slow_query_log_fp\<close> indeterminate, where the C standard gives the test and the
  \<^verbatim>\<open>fclose\<close> no defined behaviour, so that no returned value can be stated
  (\<open>Undefined_at_fclose\<close>, with what the funnel had done until then); or it never gets to
  the funnel (\<open>Not_returned\<close>).
\<close>

datatype result = Exited outcome | Undefined_at_fclose outcome | Not_returned "event list"

text \<open>
  The label \<^verbatim>\<open>exit_nicely\<close>, lines 983-1017: the funnel, then line 1015,
  \<^verbatim>\<open>if (slow_query_log_fp) fclose(slow_query_log_fp);\<close>, then \<^verbatim>\<open>return exit_code;\<close>.
\<close>

definition exit_nicely ::
  "build \<Rightarrow> env \<Rightarrow> late_env \<Rightarrow> chassis_frontend_t option \<Rightarrow> FILE_p \<Rightarrow> gint \<Rightarrow> nat
   \<Rightarrow> event list \<Rightarrow> result" where
  "exit_nicely b env lenv frontend_p fp exit_code0 exit_location0 trace0 =
    (let out = shutdown_funnel b env lenv frontend_p exit_code0 exit_location0 trace0
     in case fp of
          Indeterminate \<Rightarrow> Undefined_at_fclose out
        | NULL_FILE \<Rightarrow> Exited out
        | Open_FILE \<Rightarrow> Exited (out \<lparr> events := events out @ [Call Fclose] \<rparr>))"

definition finish :: "build \<Rightarrow> env \<Rightarrow> late_env \<Rightarrow> step \<Rightarrow> result" where
  "finish b env lenv s =
     (case s of
        Next st \<Rightarrow>
          exit_nicely b env lenv (Some (frontend st)) (slow_query_log_fp st) (exit_code st)
            (exit_location st) (trace st)
      | Goto_exit st \<Rightarrow>
          exit_nicely b env lenv (Some (frontend st)) (slow_query_log_fp st) (exit_code st)
            (exit_location st) (trace st)
      | Abnormal st \<Rightarrow> Not_returned (trace st))"

subsection \<open>The stages after the fork, lines 911-981\<close>

definition write_pidfile :: "late_env \<Rightarrow> state \<Rightarrow> step" where
  "write_pidfile lenv st =
     (case pid_file (frontend st) of
        None \<Rightarrow> Next st
      | Some file \<Rightarrow>
          (let st = emit (Call Chassis_frontend_write_pidfile) st
           in case chassis_frontend_write_pidfile_r lenv file of
                Some e \<Rightarrow>
                  GOTO_EXIT EXIT_FAILURE 916 (emit (g_critical ''%s'' [S (err_message e)]) st)
              | None \<Rightarrow> Next st))"

definition log_plugin_versions :: "state \<Rightarrow> step" where
  "log_plugin_versions st =
     (let st = emit (Call Chassis_frontend_log_plugin_versions) st
      in Next (st \<lparr> srv := (srv st) \<lparr> srv_user := user (frontend st) \<rparr> \<rparr>))"

definition check_plugin_mode :: "state \<Rightarrow> step" where
  "check_plugin_mode st =
     (let st = emit (Call Check_plugin_mode_valid) st
      in case plugin_names (frontend st) of
           None \<Rightarrow> Abnormal st
         | Some names \<Rightarrow>
             (case check_plugin_mode_valid names of
                (valid, out) \<Rightarrow>
                  (let st = st \<lparr> trace := trace st @ out \<rparr>
                   in if valid then Next st else GOTO_EXIT EXIT_FAILURE 932 st)))"

definition check_default_username :: "state \<Rightarrow> step" where
  "check_default_username st =
     (if default_username (frontend st) = None
      then GOTO_EXIT EXIT_FAILURE 937 (emit (g_critical ''proxy needs default username'' []) st)
      else Next st)"

definition run_init_parameters :: "build \<Rightarrow> state \<Rightarrow> step" where
  "run_init_parameters b st =
     (let st = emit (Call Init_parameters) st
      in case init_parameters b (frontend st) (srv st) of
           (srv', out) \<Rightarrow> Next (st \<lparr> srv := srv', trace := trace st @ out \<rparr>))"

definition open_xa_log :: "build \<Rightarrow> env \<Rightarrow> late_env \<Rightarrow> state \<Rightarrow> step" where
  "open_xa_log b env lenv st =
     (if SIMPLE_PARSER b then Next st
      else
        (let st = (if log_xa_filename (frontend st) = None
                   then st \<lparr> frontend := (frontend st) \<lparr> log_xa_filename := Some ''logs/xa.log'' \<rparr> \<rparr>
                   else st);
             st = (case chassis_resolve_path_r env (srv_base_dir (srv st))
                          (log_xa_filename (frontend st)) of
                     None \<Rightarrow> st
                   | Some new_path \<Rightarrow>
                       st \<lparr> frontend := (frontend st) \<lparr> log_xa_filename := Some new_path \<rparr> \<rparr>);
             st = emit (g_message ''XA log file: %s''
                          [S (case log_xa_filename (frontend st) of Some n \<Rightarrow> n | None \<Rightarrow> [])]) st;
             st = emit (Call Tc_log_init) st
         in if tc_log_init_r lenv (log_xa_filename (frontend st)) = - 1
            then GOTO_EXIT EXIT_FAILURE 955 st
            else Next st))"

text \<open>Lines 958-970; \<^verbatim>\<open>G_GINT64_FORMAT\<close> is \<^verbatim>\<open>li\<close> where \<^verbatim>\<open>long\<close> has 64 bits.\<close>

definition set_fdlimit :: "late_env \<Rightarrow> state \<Rightarrow> step" where
  "set_fdlimit lenv st =
     (if max_files_number (frontend st) \<noteq> 0
      then
        (let st = emit (Call Chassis_fdlimit_set) st
         in if chassis_fdlimit_set_r lenv (max_files_number (frontend st)) \<noteq> 0
            then GOTO_EXIT EXIT_FAILURE 966
                   (emit (g_critical ''%s: setting fdlimit = %d failed: %s (%d)''
                            [STRLOC 962, I (max_files_number (frontend st)), Errno, Errno]) st)
            else Next (emit (g_debug ''max open file-descriptors = %li''
                               [L (chassis_fdlimit_get_r lenv)]) st))
      else Next (emit (g_debug ''max open file-descriptors = %li''
                         [L (chassis_fdlimit_get_r lenv)]) st))"

definition run_mainloop :: "late_env \<Rightarrow> state \<Rightarrow> step" where
  "run_mainloop lenv st =
     (let st = emit (Call Cetus_monitor_start_thread) st;
          st = emit (Call Chassis_mainloop) st
      in if chassis_mainloop_r lenv \<noteq> 0
         then GOTO_EXIT EXIT_FAILURE 978
                (emit (g_critical ''%s: Failure from chassis_mainloop. Shutting down.''
                         [STRLOC 977]) st)
         else Next (emit (Call Cetus_monitor_stop_thread) st))"

definition late_stages :: "build \<Rightarrow> env \<Rightarrow> late_env \<Rightarrow> (state \<Rightarrow> step) list" where
  "late_stages b env lenv =
     [write_pidfile lenv,
      log_plugin_versions,
      check_plugin_mode,
      check_default_username,
      run_init_parameters b,
      open_xa_log b env lenv,
      set_fdlimit lenv,
      run_mainloop lenv]"

subsection \<open>The stages before the fork, lines 668-910\<close>

definition init_base_options :: "env \<Rightarrow> state \<Rightarrow> step" where
  "init_base_options env st =
     (let st = emit (Call Chassis_frontend_init_base_options) st
      in case chassis_frontend_init_base_options_r env (argv st) of
           Inl e \<Rightarrow>
             GOTO_EXIT EXIT_FAILURE 681
               (emit (g_critical ''%s: %s'' [STRLOC 678, S (err_message e)]) st)
         | Inr (version, file, rest) \<Rightarrow>
             Next (st \<lparr> frontend := (frontend st) \<lparr> print_version := version,
                                                    default_file := file \<rparr>,
                       argv := rest \<rparr>))"

definition open_config_file :: "env \<Rightarrow> state \<Rightarrow> step" where
  "open_config_file env st =
     (case default_file (frontend st) of
        None \<Rightarrow> Next st
      | Some file \<Rightarrow>
          (let st = emit (Call Chassis_frontend_open_config_file) st
           in case chassis_frontend_open_config_file_r env file of
                Inl e \<Rightarrow>
                  GOTO_EXIT EXIT_FAILURE 693
                    (emit (g_critical ''%s: loading config from '%s' failed: %s''
                             [STRLOC 689, S file, S (err_message e)])
                       (st \<lparr> frontend := (frontend st) \<lparr> keyfile := None \<rparr> \<rparr>))
              | Inr kf \<Rightarrow> Next (st \<lparr> frontend := (frontend st) \<lparr> keyfile := Some kf \<rparr> \<rparr>)))"

definition print_main_version :: "state \<Rightarrow> step" where
  "print_main_version st =
     (if print_version (frontend st) \<noteq> 0
      then Next (emit (Call Chassis_frontend_print_version) st)
      else Next st)"

definition new_options :: "state \<Rightarrow> step" where
  "new_options st =
     (let st = emit (Call Chassis_options_new) st;
          st = st \<lparr> opts := Some \<lparr> ignore_unknown = True, help_enabled = False,
                                   options = [] \<rparr> \<rparr>;
          st = emit (Call Chassis_frontend_set_chassis_options) st
      in Next (st \<lparr> opts := map_option (options_update (\<lambda>_. chassis_frontend_set_chassis_options))
                              (opts st) \<rparr>))"

definition parse_cmdline_lenient :: "env \<Rightarrow> state \<Rightarrow> step" where
  "parse_cmdline_lenient env st =
     (let st = emit (Call Chassis_options_parse_cmdline) st
      in case chassis_options_parse_cmdline_r env True (argv st) of
           Inl e \<Rightarrow>
             GOTO_EXIT EXIT_FAILURE 714
               (emit (g_critical ''%s'' [S (err_message e)]) (st \<lparr> gerr := Some e \<rparr>))
         | Inr (stores, rest) \<Rightarrow>
             Next (st \<lparr> frontend := apply_stores chassis_frontend_set_chassis_options stores
                                      (frontend st),
                       argv := rest \<rparr>))"

definition keyfile_to_options :: "env \<Rightarrow> state \<Rightarrow> step" where
  "keyfile_to_options env st =
     (case keyfile (frontend st) of
        None \<Rightarrow> Next st
      | Some kf \<Rightarrow>
          (let st = emit (Call Chassis_keyfile_to_options_with_error) st
           in case chassis_keyfile_to_options_with_error_r env kf of
                Inl e \<Rightarrow>
                  GOTO_EXIT EXIT_FAILURE 722
                    (emit (g_critical ''%s'' [S (err_message e)]) (st \<lparr> gerr := Some e \<rparr>))
              | Inr stores \<Rightarrow>
                  Next (st \<lparr> frontend := apply_stores chassis_frontend_set_chassis_options stores
                                           (frontend st) \<rparr>)))"

definition remote_config :: "env \<Rightarrow> state \<Rightarrow> step" where
  "remote_config env st =
     (case remote_config_url (frontend st) of
        None \<Rightarrow> Next st
      | Some url \<Rightarrow>
          (let st = emit (Call Chassis_config_from_url) st;
               st = st \<lparr> srv := (srv st) \<lparr> srv_config_manager :=
                                              chassis_config_from_url_r env url \<rparr> \<rparr>
           in case srv_config_manager (srv st) of
                None \<Rightarrow>
                  GOTO_EXIT EXIT_FAILURE 730 (emit (g_critical ''remote config init error'' []) st)
              | Some manager \<Rightarrow>
                  (let st = emit (Call Chassis_config_parse_options) st
                   in case chassis_config_parse_options_r env manager of
                        None \<Rightarrow>
                          GOTO_EXIT EXIT_FAILURE 734
                            (emit (g_critical ''remote_config parse error'' []) st)
                      | Some stores \<Rightarrow>
                          Next (st \<lparr> frontend :=
                                      apply_stores chassis_frontend_set_chassis_options stores
                                        (frontend st) \<rparr>))))"

definition init_basedir :: "env \<Rightarrow> state \<Rightarrow> step" where
  "init_basedir env st =
     (let st = emit (Call Chassis_frontend_init_basedir) st
      in case chassis_frontend_init_basedir_r env (argv st) (base_dir (frontend st)) of
           None \<Rightarrow> GOTO_EXIT EXIT_FAILURE 739 st
         | Some dir \<Rightarrow> Next (st \<lparr> frontend := (frontend st) \<lparr> base_dir := dir \<rparr> \<rparr>))"

text \<open>Lines 742-753: only in a build with \<^verbatim>\<open>HAVE_SIGACTION\<close>.\<close>

definition install_sigsegv_handler :: "build \<Rightarrow> env \<Rightarrow> state \<Rightarrow> step" where
  "install_sigsegv_handler b env st =
     (if HAVE_SIGACTION b
      then
        (let st = st \<lparr> frontend := (frontend st) \<lparr> invoke_dbg_on_crash := 1 \<rparr> \<rparr>
         in if invoke_dbg_on_crash (frontend st) \<noteq> 0 \<and> \<not> RUNNING_ON_VALGRIND env
            then Next (emit (Sigaction SIGSEGV Sigsegv_handler) st)
            else Next st)
      else Next st)"

text \<open>\<^verbatim>\<open>resolve_path\<close>, lines 551-583: a path is replaced when the resolver returns one.\<close>

definition resolve_path :: "env \<Rightarrow> chassis \<Rightarrow> chassis_frontend_t \<Rightarrow> chassis_frontend_t" where
  "resolve_path env srv0 frontend0 =
     (let f = (case chassis_resolve_path_r env (srv_base_dir srv0) (log_filename frontend0) of
                 None \<Rightarrow> frontend0
               | Some new_path \<Rightarrow> frontend0 \<lparr> log_filename := Some new_path \<rparr>);
          f = (case chassis_resolve_path_r env (srv_base_dir srv0) (pid_file f) of
                 None \<Rightarrow> f
               | Some new_path \<Rightarrow> f \<lparr> pid_file := Some new_path \<rparr>);
          f = (case chassis_resolve_path_r env (srv_base_dir srv0) (plugin_dir f) of
                 None \<Rightarrow> f
               | Some new_path \<Rightarrow> f \<lparr> plugin_dir := Some new_path \<rparr>);
          f = (case chassis_resolve_path_r env (srv_base_dir srv0) (conf_dir f) of
                 None \<Rightarrow> f
               | Some new_path \<Rightarrow> f \<lparr> conf_dir := Some new_path \<rparr>)
      in f)"

definition resolve_directories :: "env \<Rightarrow> state \<Rightarrow> step" where
  "resolve_directories env st =
     (let st = st \<lparr> srv := (srv st) \<lparr> srv_base_dir := base_dir (frontend st),
                                      srv_plugin_dir := plugin_dir (frontend st) \<rparr> \<rparr>;
          st = emit (Call Chassis_frontend_init_plugin_dir) st;
          st = st \<lparr> frontend := (frontend st) \<lparr> plugin_dir :=
                      chassis_frontend_init_plugin_dir_r env (plugin_dir (frontend st))
                        (srv_base_dir (srv st)) \<rparr> \<rparr>;
          st = (if conf_dir (frontend st) = None
                then st \<lparr> frontend := (frontend st) \<lparr> conf_dir := Some ''conf'' \<rparr> \<rparr>
                else st);
          st = emit (Call Resolve_path) st;
          st = st \<lparr> frontend := resolve_path env (srv st) (frontend st) \<rparr>;
          st = st \<lparr> srv := (srv st) \<lparr> srv_conf_dir := conf_dir (frontend st) \<rparr> \<rparr>
      in if srv_config_manager (srv st) = None
         then Next ((emit (Call Chassis_config_from_local_dir) st)
                      \<lparr> srv := (srv st) \<lparr> srv_config_manager :=
                                chassis_config_from_local_dir_r env (srv_conf_dir (srv st))
                                  (default_file (frontend st)) \<rparr> \<rparr>)
         else Next st)"

text \<open>\<^verbatim>\<open>init_slow_query_log\<close>, lines 599-614: whether it returns a file.\<close>

definition init_slow_query_log :: "env \<Rightarrow> gchar_p \<Rightarrow> bool" where
  "init_slow_query_log env main_log =
     (case main_log of
        None \<Rightarrow> False
      | Some name \<Rightarrow> fopen_r env (name @ ''.slowquery.log''))"

definition open_log_file :: "env \<Rightarrow> state \<Rightarrow> step" where
  "open_log_file env st =
     (let st = (case log_filename (frontend st) of
                  None \<Rightarrow> st
                | Some name \<Rightarrow> st \<lparr> the_log := (the_log st) \<lparr> log_file := Some name \<rparr> \<rparr>);
          slow = (\<lambda>st. let st = emit (Call Init_slow_query_log) st
                       in if init_slow_query_log env (log_file (the_log st))
                          then Next (st \<lparr> slow_query_log_fp := Open_FILE \<rparr>)
                          else Next (emit (g_warning ''cannot open slow-query log'' [])
                                       (st \<lparr> slow_query_log_fp := NULL_FILE \<rparr>)))
      in case log_file (the_log st) of
           None \<Rightarrow> slow st
         | Some name \<Rightarrow>
             (let st = emit (Call Chassis_log_open) st
              in if chassis_log_open_r env name
                 then slow st
                 else GOTO_EXIT EXIT_FAILURE 785
                        (emit (g_critical ''can't open log-file '%s': %s'' [S name, Errno]) st)))"

definition set_log_level :: "build \<Rightarrow> env \<Rightarrow> state \<Rightarrow> step" where
  "set_log_level b env st =
     (let greet = (\<lambda>st.
            let st = emit (g_message (''starting '' @ PACKAGE_STRING b) []) st;
                st = (case CHASSIS_BUILD_TAG b of
                        None \<Rightarrow> st
                      | Some tag \<Rightarrow> emit (g_message (''build revision: '' @ tag) []) st);
                st = emit (g_message ''glib version: %d.%d.%d''
                             [I (fst (GLIB_VERSION b)), I (fst (snd (GLIB_VERSION b))),
                              I (snd (snd (GLIB_VERSION b)))]) st;
                st = emit (g_message ''libevent version: %s'' [S (event_get_version_r env)]) st
            in emit (g_message ''config dir: %s''
                       [S (case conf_dir (frontend st) of Some d \<Rightarrow> d | None \<Rightarrow> [])]) st)
      in case log_level (frontend st) of
           Some name \<Rightarrow>
             (let st = emit (Call Chassis_log_set_level) st
              in case chassis_log_set_level_r env name of
                   None \<Rightarrow>
                     GOTO_EXIT EXIT_FAILURE 801
                       (emit (g_critical ''--log-level=... failed, level '%s' is unknown ''
                                [S name]) st)
                 | Some lvl \<Rightarrow> Next (greet (st \<lparr> the_log := (the_log st) \<lparr> min_lvl := lvl \<rparr> \<rparr>)))
         | None \<Rightarrow>
             Next (greet (st \<lparr> the_log := (the_log st) \<lparr> min_lvl := G_LOG_LEVEL_CRITICAL \<rparr> \<rparr>)))"

definition init_network :: "env \<Rightarrow> state \<Rightarrow> step" where
  "init_network env st =
     (let st = emit (Call Network_mysqld_init) st
      in if network_mysqld_init_r env = - 1
         then GOTO_EXIT EXIT_FAILURE 819 (emit (G_print ''network_mysqld_init failed\<newline>'') st)
         else Next st)"

text \<open>Lines 822-830: the plugin list when no source has set one.\<close>

definition default_plugin_names :: "build \<Rightarrow> chassis_frontend_t \<Rightarrow> chassis_frontend_t" where
  "default_plugin_names b frontend0 =
     (if plugin_names frontend0 = None
      then frontend0 \<lparr> plugin_names :=
             Some [case DEFAULT_PLUGIN b of Some name \<Rightarrow> name | None \<Rightarrow> ''proxy''] \<rparr>
      else frontend0)"

definition select_default_plugins :: "build \<Rightarrow> state \<Rightarrow> step" where
  "select_default_plugins b st = Next (st \<lparr> frontend := default_plugin_names b (frontend st) \<rparr>)"

definition load_plugins :: "env \<Rightarrow> state \<Rightarrow> step" where
  "load_plugins env st =
     (let st = emit (Call Chassis_frontend_load_plugins) st
      in if chassis_frontend_load_plugins_r env (plugin_dir (frontend st))
              (plugin_names (frontend st)) \<noteq> 0
         then GOTO_EXIT EXIT_FAILURE 835 st
         else Next st)"

definition init_plugins :: "env \<Rightarrow> state \<Rightarrow> step" where
  "init_plugins env st =
     (let st = emit (Call Chassis_frontend_init_plugins) st
      in case chassis_frontend_init_plugins_r env (argv st) of
           Inl e \<Rightarrow>
             GOTO_EXIT EXIT_FAILURE 850
               (emit (g_critical ''%s: %s'' [STRLOC 846, S (err_message e)]) st)
         | Inr rest \<Rightarrow> Next (st \<lparr> argv := rest \<rparr>))"

definition print_plugin_versions :: "state \<Rightarrow> step" where
  "print_plugin_versions st =
     (if print_version (frontend st) \<noteq> 0
      then GOTO_EXIT EXIT_SUCCESS 857 (emit (Call Chassis_frontend_print_plugin_versions) st)
      else Next st)"

definition parse_cmdline_strict :: "env \<Rightarrow> state \<Rightarrow> step" where
  "parse_cmdline_strict env st =
     (let st = st \<lparr> opts := map_option (\<lambda>p. p \<lparr> ignore_unknown := False, help_enabled := True \<rparr>)
                              (opts st) \<rparr>;
          st = emit (Call Chassis_options_parse_cmdline) st
      in case chassis_options_parse_cmdline_r env False (argv st) of
           Inl e \<Rightarrow>
             GOTO_EXIT EXIT_FAILURE 880
               (emit (if err_domain e = G_OPTION_ERROR
                         \<and> err_code e = G_OPTION_ERROR_UNKNOWN_OPTION
                      then g_critical ''%s: %s (use --help to show all options)''
                             [STRLOC 869, S (err_message e)]
                      else g_critical ''%s: %s (code = %d, domain = %s)''
                             [STRLOC 873, S (err_message e), I (err_code e), S (err_domain e)])
                  (st \<lparr> gerr := Some e \<rparr>))
         | Inr (stores, rest) \<Rightarrow>
             Next (st \<lparr> frontend := apply_stores chassis_frontend_set_chassis_options stores
                                      (frontend st),
                       argv := rest \<rparr>))"

definition check_no_arguments_left :: "state \<Rightarrow> step" where
  "check_no_arguments_left st =
     (case argv st of
        program # arg # rest \<Rightarrow>
          GOTO_EXIT EXIT_FAILURE 887 (emit (g_critical ''unknown option: %s'' [S arg]) st)
      | _ \<Rightarrow> Next st)"

definition daemonize :: "state \<Rightarrow> step" where
  "daemonize st =
     (let st = emit (Sigaction SIGPIPE SIG_IGN) st
      in if daemon_mode (frontend st) \<noteq> 0
         then Next (emit (Call Chassis_unix_daemonize) st)
         else Next st)"

text \<open>
  Lines 896-910. In the supervisor, \<^verbatim>\<open>child_exit_status\<close> is what the child returned from
  the rest of this function, which it ran from the state at the fork; a child that does
  not return a status is not one that exited deliberately, and the supervisor stays in
  the call.
\<close>

definition keepalive :: "build \<Rightarrow> env \<Rightarrow> state \<Rightarrow> step" where
  "keepalive b env st =
     (if auto_restart (frontend st) \<noteq> 0
      then
        (let st = emit (Call Chassis_unix_proc_keepalive) st
         in case chassis_unix_proc_keepalive_r env of
              Child_exited child \<Rightarrow>
                (case finish b env child (run_stages (late_stages b env child) st) of
                   Exited child_outcome \<Rightarrow>
                     Goto_exit (st \<lparr> exit_code := final_code child_outcome \<rparr>)
                 | Undefined_at_fclose child_outcome \<Rightarrow> Abnormal st
                 | Not_returned tr \<Rightarrow> Abnormal st)
            | Fork_failed \<Rightarrow> GOTO_EXIT EXIT_FAILURE 906 st
            | Is_child \<Rightarrow> Next st)
      else Next st)"

text \<open>
  The stages in the order of the source: the configuration sources (lines 668-740), the
  crash handler (742-753), the directories, the log and the plugins (755-851), and the
  steps from the version exit to the fork (854-910).
\<close>

definition config_stages :: "env \<Rightarrow> (state \<Rightarrow> step) list" where
  "config_stages env =
     [init_base_options env,
      open_config_file env,
      print_main_version,
      new_options,
      parse_cmdline_lenient env,
      keyfile_to_options env,
      remote_config env,
      init_basedir env]"

definition plugin_stages :: "build \<Rightarrow> env \<Rightarrow> (state \<Rightarrow> step) list" where
  "plugin_stages b env =
     [resolve_directories env,
      open_log_file env,
      set_log_level b env,
      init_network env,
      select_default_plugins b,
      load_plugins env,
      init_plugins env]"

definition startup_stages :: "build \<Rightarrow> env \<Rightarrow> (state \<Rightarrow> step) list" where
  "startup_stages b env =
     [print_plugin_versions,
      parse_cmdline_strict env,
      check_no_arguments_left,
      daemonize,
      keepalive b env]"

definition early_stages :: "build \<Rightarrow> env \<Rightarrow> (state \<Rightarrow> step) list" where
  "early_stages b env =
     config_stages env @ [install_sigsegv_handler b env] @ plugin_stages b env
       @ startup_stages b env"

subsection \<open>\<^verbatim>\<open>main_cmdline\<close>, lines 619-1018\<close>

definition initial_state :: "build \<Rightarrow> chassis \<Rightarrow> string list \<Rightarrow> state" where
  "initial_state b srv0 args =
     \<lparr> srv = srv0,
       frontend = chassis_frontend_new b,
       opts = None,
       gerr = None,
       the_log = \<lparr> min_lvl = G_LOG_LEVEL_MESSAGE, log_file = None \<rparr>,
       slow_query_log_fp = Indeterminate,
       argv = args,
       exit_code = EXIT_SUCCESS,
       exit_location = 641,
       trace = [Call Chassis_frontend_init_glib, Call Chassis_log_new, Call Chassis_new,
                Call Chassis_frontend_new] \<rparr>"

text \<open>
  Before the frontend exists the function can leave through two failures, with
  \<^verbatim>\<open>frontend\<close> still \<^verbatim>\<open>NULL\<close>. (\<^verbatim>\<open>chassis_frontend_new\<close> never returns \<^verbatim>\<open>NULL\<close>: its
  allocation aborts the process instead, so the test of line 664 never fires.)
\<close>

definition main_cmdline :: "build \<Rightarrow> env \<Rightarrow> string list \<Rightarrow> result" where
  "main_cmdline b env args =
     (if chassis_frontend_init_glib_r env \<noteq> 0
      then exit_nicely b env (late env) None Indeterminate EXIT_FAILURE 645
             [Call Chassis_frontend_init_glib]
      else
        (case chassis_new_r env of
           None \<Rightarrow>
             exit_nicely b env (late env) None Indeterminate EXIT_FAILURE 656
               [Call Chassis_frontend_init_glib, Call Chassis_log_new, Call Chassis_new]
         | Some srv0 \<Rightarrow>
             finish b env (late env)
               (run_stages (early_stages b env @ late_stages b env (late env))
                  (initial_state b srv0 args))))"

subsection \<open>Assertions on stages and runs\<close>

text \<open>
  \<open>stage_spec may_abort P stage Q E\<close>: from a state with \<open>P\<close>, the stage falls through to a
  state with \<open>Q\<close> or jumps to the exit with \<open>E\<close>; it leaves abnormally only if \<open>may_abort\<close>.
\<close>

definition stage_spec ::
  "bool \<Rightarrow> (state \<Rightarrow> bool) \<Rightarrow> (state \<Rightarrow> step) \<Rightarrow> (state \<Rightarrow> bool) \<Rightarrow> (state \<Rightarrow> bool) \<Rightarrow> bool" where
  "stage_spec may_abort P stage Q E =
     (\<forall>st. P st \<longrightarrow>
        (case stage st of Next st' \<Rightarrow> Q st' | Goto_exit st' \<Rightarrow> E st'
         | Abnormal st' \<Rightarrow> may_abort))"

fun early_event :: "event \<Rightarrow> bool" where
  "early_event (Call c) =
     (c \<noteq> Init_parameters \<and> c \<noteq> Chassis_mainloop \<and> c \<noteq> Check_plugin_mode_valid)"
| "early_event (G_log lvl fmt args) = (fmt \<noteq> ''shard & proxy is mutual exclusive'')"
| "early_event _ = True"

definition early_trace :: "state \<Rightarrow> bool" where
  "early_trace st = list_all early_event (trace st)"

definition has_plugins :: "state \<Rightarrow> bool" where
  "has_plugins st = (plugin_names (frontend st) \<noteq> None)"

definition both_modes :: "chassis_frontend_t \<Rightarrow> bool" where
  "both_modes f =
     (case plugin_names f of
        None \<Rightarrow> False
      | Some names \<Rightarrow> ''shard'' \<in> set names \<and> ''proxy'' \<in> set names)"

definition doomed :: "chassis_frontend_t \<Rightarrow> bool" where
  "doomed f = (default_username f = None \<or> both_modes f)"

definition not_started :: "event list \<Rightarrow> bool" where
  "not_started tr = (Call Init_parameters \<notin> set tr \<and> Call Chassis_mainloop \<notin> set tr)"

definition inited :: "state \<Rightarrow> bool" where
  "inited st = (Call Chassis_frontend_init_plugins \<in> set (trace st))"

definition opened :: "state \<Rightarrow> bool" where
  "opened st = (slow_query_log_fp st \<noteq> Indeterminate)"

text \<open>
  The command line has been parsed after the plugins were initialized: that is the strict
  pass of line 865, the lenient pass of line 712 comes before the plugins.
\<close>

definition parsed :: "event list \<Rightarrow> bool" where
  "parsed tr =
     (\<exists>p1 p2 p3. tr = p1 @ Call Chassis_frontend_init_plugins # p2
                        @ Call Chassis_options_parse_cmdline # p3)"

definition failed_early :: "state \<Rightarrow> bool" where
  "failed_early st = (early_trace st \<and> exit_code st = EXIT_FAILURE)"

definition mutual_exclusion_line :: event where
  "mutual_exclusion_line = g_critical ''shard & proxy is mutual exclusive'' []"

fun is_log :: "event \<Rightarrow> bool" where
  "is_log (G_log lvl fmt args) = True"
| "is_log _ = False"

definition ordered :: "event list \<Rightarrow> bool" where
  "ordered tr =
     (\<exists>pre post. tr = pre @ Call Check_plugin_mode_valid # post
        \<and> Call Chassis_frontend_init_plugins \<in> set pre
        \<and> parsed pre
        \<and> mutual_exclusion_line \<in> set post)"

definition loaded :: "state \<Rightarrow> bool" where
  "loaded st = (early_trace st \<and> has_plugins st \<and> opened st)"

definition ready :: "state \<Rightarrow> bool" where
  "ready st = (early_trace st \<and> has_plugins st \<and> inited st \<and> opened st)"

definition parsed_ready :: "state \<Rightarrow> bool" where
  "parsed_ready st = (ready st \<and> parsed (trace st))"

definition decided :: "state \<Rightarrow> gchar_p \<times> string list option" where
  "decided st = (default_username (frontend st), plugin_names (frontend st))"

definition late_exit :: "gchar_p \<times> string list option \<Rightarrow> state \<Rightarrow> bool" where
  "late_exit c st =
     (decided st = c \<and> opened st
      \<and> (doomed (frontend st) \<longrightarrow> exit_code st = EXIT_FAILURE \<and> not_started (trace st))
      \<and> (both_modes (frontend st) \<and> Call Check_plugin_mode_valid \<in> set (trace st)
           \<longrightarrow> ordered (trace st)))"

text \<open>The state in which the version exit of lines 854-858 leaves the function.\<close>

definition version_exit :: "state \<Rightarrow> bool" where
  "version_exit st =
     (early_trace st \<and> opened st \<and> print_version (frontend st) \<noteq> 0
      \<and> exit_code st = EXIT_SUCCESS
      \<and> Call Chassis_frontend_print_plugin_versions \<in> set (trace st))"

definition safe :: "gchar_p \<times> string list option \<Rightarrow> state \<Rightarrow> bool" where
  "safe c st = (decided st = c \<and> opened st \<and> \<not> doomed (frontend st))"

definition supervisor_exit :: "state \<Rightarrow> bool" where
  "supervisor_exit st = (early_trace st \<and> (doomed (frontend st) \<longrightarrow> exit_code st = EXIT_FAILURE))"

definition verdict :: "state \<Rightarrow> bool" where
  "verdict st =
     ((doomed (frontend st) \<longrightarrow>
         not_started (trace st) \<and> (exit_code st = EXIT_FAILURE \<or> version_exit st))
      \<and> (Call Check_plugin_mode_valid \<in> set (trace st) \<longrightarrow> opened st)
      \<and> (both_modes (frontend st) \<and> Call Check_plugin_mode_valid \<in> set (trace st) \<longrightarrow>
           exit_code st = EXIT_FAILURE \<and> ordered (trace st)))"

text \<open>
  The exit status of a run that returns, and what the funnel did, the events and the
  frontend of a run.
\<close>

fun status_of :: "result \<Rightarrow> gint option" where
  "status_of (Exited out) = Some (final_code out)"
| "status_of (Undefined_at_fclose out) = None"
| "status_of (Not_returned tr) = None"

fun funnel_of :: "result \<Rightarrow> outcome option" where
  "funnel_of (Exited out) = Some out"
| "funnel_of (Undefined_at_fclose out) = Some out"
| "funnel_of (Not_returned tr) = None"

fun events_of :: "result \<Rightarrow> event list" where
  "events_of (Exited out) = events out"
| "events_of (Undefined_at_fclose out) = events out"
| "events_of (Not_returned tr) = tr"

fun frontend_of :: "result \<Rightarrow> chassis_frontend_t option" where
  "frontend_of (Exited out) = resolved out"
| "frontend_of (Undefined_at_fclose out) = resolved out"
| "frontend_of (Not_returned tr) = None"

text \<open>
  The run left through the version exit: it returned \<^verbatim>\<open>EXIT_SUCCESS\<close> after printing the
  plugin versions, and neither ran the mode check nor logged its line.
\<close>

definition took_version_exit :: "result \<Rightarrow> bool" where
  "took_version_exit r =
     (case r of
        Exited out \<Rightarrow>
          final_code out = EXIT_SUCCESS
          \<and> Call Chassis_frontend_print_plugin_versions \<in> set (events out)
          \<and> Call Check_plugin_mode_valid \<notin> set (events out)
          \<and> mutual_exclusion_line \<notin> set (events out)
          \<and> (case resolved out of None \<Rightarrow> False | Some f \<Rightarrow> print_version f \<noteq> 0)
      | Undefined_at_fclose out \<Rightarrow> False
      | Not_returned tr \<Rightarrow> False)"

definition judged :: "result \<Rightarrow> bool" where
  "judged r =
     (case funnel_of r of
        None \<Rightarrow> False
      | Some out \<Rightarrow>
          (case resolved out of
             None \<Rightarrow> final_code out = EXIT_FAILURE \<and> not_started (events out)
           | Some f \<Rightarrow>
               (doomed f \<longrightarrow>
                  not_started (events out)
                  \<and> (final_code out = EXIT_FAILURE \<or> took_version_exit r))
               \<and> (Call Check_plugin_mode_valid \<in> set (events out) \<longrightarrow> r = Exited out)
               \<and> (both_modes f \<and> Call Check_plugin_mode_valid \<in> set (events out) \<longrightarrow>
                    final_code out = EXIT_FAILURE \<and> ordered (events out))))"

definition linked :: "state \<Rightarrow> bool" where
  "linked st = (opened st \<longleftrightarrow> Call Init_slow_query_log \<in> set (trace st))"

definition unversioned :: "state \<Rightarrow> bool" where
  "unversioned st = (Call Chassis_frontend_print_plugin_versions \<notin> set (trace st))"

definition versioned_exit :: "state \<Rightarrow> bool" where
  "versioned_exit st =
     (Call Chassis_frontend_print_plugin_versions \<in> set (trace st) \<longrightarrow>
        exit_code st = EXIT_SUCCESS)"

fun is_shutdown_line :: "event \<Rightarrow> bool" where
  "is_shutdown_line (G_log lvl fmt args) = (fmt = ''shutting down normally, exit code is: %d'')"
| "is_shutdown_line _ = False"

definition silent :: "state \<Rightarrow> bool" where
  "silent st = (filter is_shutdown_line (trace st) = [])"

definition armed :: "state \<Rightarrow> bool" where
  "armed st = (Sigaction SIGSEGV Sigsegv_handler \<in> set (trace st))"

definition reaches_crash_handler :: "build \<Rightarrow> env \<Rightarrow> string list \<Rightarrow> bool" where
  "reaches_crash_handler b env args =
     (chassis_frontend_init_glib_r env = 0
      \<and> (case chassis_new_r env of
            None \<Rightarrow> False
          | Some srv0 \<Rightarrow>
              (case run_stages (config_stages env) (initial_state b srv0 args) of
                 Next st \<Rightarrow> True
               | Goto_exit st \<Rightarrow> False
               | Abnormal st \<Rightarrow> False)))"

definition built_in_plugin :: "build \<Rightarrow> string" where
  "built_in_plugin b = (case DEFAULT_PLUGIN b of Some name \<Rightarrow> name | None \<Rightarrow> ''proxy'')"

definition no_plugins_configured :: "env \<Rightarrow> bool" where
  "no_plugins_configured env =
     ((\<forall>lenient args stores rest.
          chassis_options_parse_cmdline_r env lenient args = Inr (stores, rest) \<longrightarrow>
          ''plugins'' \<notin> fst ` set stores)
      \<and> (\<forall>kf stores.
            chassis_keyfile_to_options_with_error_r env kf = Inr stores \<longrightarrow>
            ''plugins'' \<notin> fst ` set stores)
      \<and> (\<forall>manager stores.
            chassis_config_parse_options_r env manager = Some stores \<longrightarrow>
            ''plugins'' \<notin> fst ` set stores))"

definition unselected :: "state \<Rightarrow> bool" where
  "unselected st =
     (plugin_names (frontend st) = None \<and> Call Chassis_frontend_load_plugins \<notin> set (trace st))"

definition selected :: "build \<Rightarrow> state \<Rightarrow> bool" where
  "selected b st = (plugin_names (frontend st) = Some [built_in_plugin b])"

text \<open>A stage that keeps the plugin list and does not load plugins keeps both assertions.\<close>

definition keeps_plugin_list :: "(state \<Rightarrow> step) \<Rightarrow> bool" where
  "keeps_plugin_list stage =
     (\<forall>st. case stage st of
        Next st' \<Rightarrow> plugin_names (frontend st') = plugin_names (frontend st)
          \<and> (Call Chassis_frontend_load_plugins \<in> set (trace st')
               \<longrightarrow> Call Chassis_frontend_load_plugins \<in> set (trace st))
      | Goto_exit st' \<Rightarrow> plugin_names (frontend st') = plugin_names (frontend st)
          \<and> (Call Chassis_frontend_load_plugins \<in> set (trace st')
               \<longrightarrow> Call Chassis_frontend_load_plugins \<in> set (trace st))
      | Abnormal st' \<Rightarrow> True)"

definition loaded_default :: "build \<Rightarrow> state \<Rightarrow> bool" where
  "loaded_default b st =
     (Call Chassis_frontend_load_plugins \<in> set (trace st) \<longrightarrow> selected b st)"

subsection \<open>The resolution of the options: parser and keyfile reader\<close>

text \<open>
  The option parser (chassis-options.c) and the keyfile reader (chassis-keyfile.c) are not
  part of mysql-proxy-cli.c. Their definitions below follow the specification, sections 3,
  4.2 and 6; the order in which they are applied is the order of the calls in
  \<^verbatim>\<open>main_cmdline\<close>.

  An option slot is empty while it holds its compiled-in default; a populated slot holds
  the string written into it and the source that wrote it. The command line after the
  program name is a list of long-form flags \<^verbatim>\<open>--name=value\<close> and positional arguments.
\<close>

datatype option_source = From_keyfile | From_cmdline

type_synonym option_slots = "string \<Rightarrow> (string \<times> option_source) option"

datatype cmd_arg = Flag string string | Positional string

datatype option_error = Unknown_option string | Unknown_argument string

text \<open>
  Modelled from the spec: \<^verbatim>\<open>chassis_options_parse_cmdline\<close> (chassis-options.c). One parser
  with a mode flag, applied to a registry: a flag whose name is registered populates its
  slot and is taken off the argument list; an unrecognized flag is ignored and left in
  the list in lenient mode and fails with an unknown-option error in strict mode;
  positional arguments stay in the list.
\<close>

fun chassis_options_parse_cmdline ::
  "bool \<Rightarrow> string list \<Rightarrow> cmd_arg list \<Rightarrow> option_slots
   \<Rightarrow> option_error + (cmd_arg list \<times> option_slots)" where
  "chassis_options_parse_cmdline lenient registry [] slots = Inr ([], slots)"
| "chassis_options_parse_cmdline lenient registry (Flag name v # args) slots =
     (if name \<in> set registry
      then chassis_options_parse_cmdline lenient registry args
             (slots (name \<mapsto> (v, From_cmdline)))
      else if lenient
      then (case chassis_options_parse_cmdline lenient registry args slots of
              Inl e \<Rightarrow> Inl e
            | Inr (left, slots') \<Rightarrow> Inr (Flag name v # left, slots'))
      else Inl (Unknown_option name))"
| "chassis_options_parse_cmdline lenient registry (Positional p # args) slots =
     (case chassis_options_parse_cmdline lenient registry args slots of
        Inl e \<Rightarrow> Inl e
      | Inr (left, slots') \<Rightarrow> Inr (Positional p # left, slots'))"

text \<open>
  Modelled from the spec: \<^verbatim>\<open>chassis_keyfile_to_options_with_error\<close> (chassis-keyfile.c), and
  \<^verbatim>\<open>chassis_config_parse_options\<close> for the remote source, which has the same semantics. For
  every registered option whose name is a key of the section, the value is applied to the
  slot; absent keys leave the slot untouched, keys that are not registered are no error.
  Command-line values always win over keyfile values: a slot populated from the command
  line is left as it is.
\<close>

fun chassis_keyfile_to_options ::
  "(string \<times> string) list \<Rightarrow> string list \<Rightarrow> option_slots \<Rightarrow> option_slots" where
  "chassis_keyfile_to_options section [] slots = slots"
| "chassis_keyfile_to_options section (name # registry) slots =
     chassis_keyfile_to_options section registry
       (case map_of section name of
          None \<Rightarrow> slots
        | Some v \<Rightarrow>
            (case slots name of
               Some (w, From_cmdline) \<Rightarrow> slots
             | _ \<Rightarrow> slots (name \<mapsto> (v, From_keyfile))))"

text \<open>
  The configuration calls of \<^verbatim>\<open>main_cmdline\<close> in their order, on the slots of the options
  instead of the fields behind them: the lenient pass over the
  registry of the core options (line 712), the keyfile (717) and the remote source (726)
  when there is one, the options the plugins declare, with the keyfile applied to them
  (838), the strict pass over the full registry (865), and the test that no argument is
  left (884).
\<close>

definition resolve_options ::
  "string list \<Rightarrow> string list \<Rightarrow> cmd_arg list \<Rightarrow> (string \<times> string) list option
   \<Rightarrow> (string \<times> string) list option \<Rightarrow> option_error + option_slots" where
  "resolve_options core plugins args kf remote =
     (case chassis_options_parse_cmdline True core args Map.empty of
        Inl e \<Rightarrow> Inl e
      | Inr (args1, slots1) \<Rightarrow>
          (let slots2 = (case kf of None \<Rightarrow> slots1
                         | Some section \<Rightarrow> chassis_keyfile_to_options section core slots1);
               slots3 = (case remote of None \<Rightarrow> slots2
                         | Some section \<Rightarrow> chassis_keyfile_to_options section core slots2);
               slots4 = (case kf of None \<Rightarrow> slots3
                         | Some section \<Rightarrow> chassis_keyfile_to_options section plugins slots3)
           in case chassis_options_parse_cmdline False (core @ plugins) args1 slots4 of
                Inl e \<Rightarrow> Inl e
              | Inr (args2, slots5) \<Rightarrow>
                  (case args2 of
                     [] \<Rightarrow> Inr slots5
                   | Flag name v # left \<Rightarrow> Inl (Unknown_argument name)
                   | Positional p # left \<Rightarrow> Inl (Unknown_argument p))))"

text \<open>The value the command line gives an option: that of its last flag.\<close>

fun cmdline_value :: "cmd_arg list \<Rightarrow> string \<Rightarrow> string option" where
  "cmdline_value [] name = None"
| "cmdline_value (Flag n v # args) name =
     (case cmdline_value args name of
        Some w \<Rightarrow> Some w
      | None \<Rightarrow> if n = name then Some v else None)"
| "cmdline_value (Positional p # args) name = cmdline_value args name"

text \<open>The value a keyfile, or the remote source, gives an option, if there is one.\<close>

definition keyfile_value :: "(string \<times> string) list option \<Rightarrow> string \<Rightarrow> string option" where
  "keyfile_value kf name = (case kf of None \<Rightarrow> None | Some section \<Rightarrow> map_of section name)"

definition core_option_names :: "string list" where
  "core_option_names = map fst chassis_frontend_set_chassis_options"

section \<open>Example inputs\<close>

definition example_build :: build where
  "example_build =
     \<lparr> HAVE_SIGACTION = True, SIMPLE_PARSER = False, DEFAULT_PLUGIN = None,
       CHASSIS_BUILD_TAG = None, PACKAGE_STRING = ''cetus'', GLIB_VERSION = (2, 42, 0),
       MAX_QUERY_TIME = 65536,
       MAX_ALLOWED_PACKET_DEFAULT = 33554432, MAX_ALLOWED_PACKET_FLOOR = 1024,
       MAX_ALLOWED_PACKET_CEIL = 1073741824 \<rparr>"

text \<open>A service object with every member zero or \<^verbatim>\<open>NULL\<close>.\<close>

definition blank_chassis :: chassis where
  "blank_chassis =
     \<lparr> srv_base_dir = None, srv_plugin_dir = None, srv_conf_dir = None, srv_user = None,
       srv_config_manager = None, srv_default_username = None, srv_default_charset = None,
       srv_default_db = None, srv_mid_idle_connections = 0, srv_max_idle_connections = 0,
       srv_max_resp_len = 0, srv_merged_output_size = 0, srv_compressed_merged_output_size = 0,
       srv_max_header_size = 0, srv_guid_state = \<lparr> guid_worker_id = 0 \<rparr>,
       srv_client_found_rows = 0, srv_xa_log_detailed = 0, srv_is_reset_conn_enabled = 0,
       srv_query_cache_enabled = 0, srv_query_cache_table = None, srv_cache_index = None,
       srv_is_tcp_stream_enabled = 0, srv_disable_threads = 0, srv_is_back_compressed = 0,
       srv_compress_support = 0, srv_check_slave_delay = 0,
       srv_slave_delay_down_threshold_sec = 0, srv_slave_delay_recover_threshold_sec = 0,
       srv_master_preferred = 0, srv_disable_dns_cache = 0, srv_default_query_cache_timeout = 0,
       srv_long_query_time = 0, srv_cetus_max_allowed_packet = 0 \<rparr>"

text \<open>The default frontend with \<^verbatim>\<open>--slave-delay-recover=-5\<close>.\<close>

definition negative_recover_frontend :: chassis_frontend_t where
  "negative_recover_frontend =
     (chassis_frontend_new example_build) \<lparr> slave_delay_recover_threshold_sec := - 5 \<rparr>"

text \<open>A stack of twenty frames.\<close>

definition deep_stack :: "string list" where
  "deep_stack = map (\<lambda>n. ''frame'') [0..<20]"

text \<open>
  An environment in which every call succeeds: the first pass over the command line
  performs the given stores, the process is not a supervisor, the main loop returns 0.
\<close>

definition plain_late :: late_env where
  "plain_late = \<lparr> chassis_frontend_write_pidfile_r = (\<lambda>file. None), tc_log_init_r = (\<lambda>file. 0),
     chassis_fdlimit_set_r = (\<lambda>n. 0), chassis_fdlimit_get_r = 1024, chassis_mainloop_r = 0,
     mallinfo_r = (0, 0, 0) \<rparr>"

definition plain_env :: "gint \<Rightarrow> (string \<times> opt_value) list \<Rightarrow> env" where
  "plain_env version stores = \<lparr> RUNNING_ON_VALGRIND = False, chassis_frontend_init_glib_r = 0,
     chassis_new_r = Some blank_chassis,
     chassis_frontend_init_base_options_r = (\<lambda>args. Inr (version, None, args)),
     chassis_frontend_open_config_file_r = (\<lambda>file. Inr []),
     chassis_options_parse_cmdline_r =
       (\<lambda>lenient args. if lenient then Inr (stores, take 1 args) else Inr ([], args)),
     chassis_keyfile_to_options_with_error_r = (\<lambda>kf. Inr []),
     chassis_config_from_url_r = (\<lambda>url. Some url),
     chassis_config_parse_options_r = (\<lambda>m. Some []),
     chassis_frontend_init_basedir_r = (\<lambda>args dir. Some (Some ''/srv/cetus'')),
     chassis_frontend_init_plugin_dir_r = (\<lambda>dir base. Some ''/srv/cetus/lib''),
     chassis_resolve_path_r = (\<lambda>base path. path),
     chassis_config_from_local_dir_r = (\<lambda>dir file. dir),
     chassis_log_open_r = (\<lambda>name. True),
     fopen_r = (\<lambda>name. True),
     chassis_log_set_level_r = (\<lambda>name. Some G_LOG_LEVEL_MESSAGE),
     event_get_version_r = ''2.0'',
     network_mysqld_init_r = 0,
     chassis_frontend_load_plugins_r = (\<lambda>dir names. 0),
     chassis_frontend_init_plugins_r = (\<lambda>args. Inr args),
     chassis_unix_proc_keepalive_r = Is_child,
     late = plain_late \<rparr>"

definition conflict_stores :: "(string \<times> opt_value) list" where
  "conflict_stores = [(''plugins'', Strv_value [''shard'', ''proxy'']),
                      (''default-username'', String_value ''root'')]"

definition version_env :: env where
  "version_env = plain_env 1 conflict_stores"

definition conflict_env :: env where
  "conflict_env = plain_env 0 conflict_stores"

definition anonymous_env :: env where
  "anonymous_env = plain_env 0 []"

definition failing_glib_env :: env where
  "failing_glib_env = (plain_env 0 []) \<lparr> chassis_frontend_init_glib_r := 1 \<rparr>"

text \<open>No default username, and a configuration file that cannot be opened.\<close>

definition missing_config_env :: env where
  "missing_config_env = (plain_env 0 [])
     \<lparr> chassis_frontend_init_base_options_r :=
         (\<lambda>args. Inr (0, Some ''/etc/cetus.conf'', take 1 args)),
       chassis_frontend_open_config_file_r :=
         (\<lambda>file. Inl \<lparr> err_domain = ''g-file-error-quark'', err_code = 4,
                       err_message = ''No such file or directory'' \<rparr>) \<rparr>"

definition verbose_env :: env where
  "verbose_env = plain_env 0 [(''verbose-shutdown'', Int_value 1)]"

definition valgrind_env :: env where
  "valgrind_env = (plain_env 0 []) \<lparr> RUNNING_ON_VALGRIND := True \<rparr>"

definition pool_size_args :: "cmd_arg list" where
  "pool_size_args = [Flag ''default-pool-size'' ''200'', Flag ''proxy-address'' '':6001'']"

definition pool_size_keyfile :: "(string \<times> string) list" where
  "pool_size_keyfile = [(''default-pool-size'', ''50''), (''max-pool-size'', ''300''),
                        (''proxy-address'', '':3306'')]"

section \<open>Properties\<close>

subsection \<open>Parameter initialization\<close>

lemma sint_double:
  "- (2 ^ 30) \<le> sint (d :: gint) \<Longrightarrow> sint d < 2 ^ 30 \<Longrightarrow> sint (d * 2) = 2 * sint d"
  by (simp add: sint_word_mult signed_take_bit_int_eq_self)

text \<open>
  Claim C3. For every configured pair of pool sizes (default \<open>d\<close>, max \<open>m\<close>), after
  \<^verbatim>\<open>init_parameters\<close> the resolved default pool size is \<open>d\<close>; the resolved max pool size is
  \<open>m\<close> when \<open>m \<ge> d\<close> and \<open>d * 2\<close> when \<open>m < d\<close>, which covers the unset \<open>m = 0\<close> below a
  positive \<open>d\<close>. The comparison is the signed one of C \<^verbatim>\<open>int\<close> and the product is the
  \<^verbatim>\<open>int\<close> product \<^verbatim>\<open>d << 1\<close>; the last conjunct reads it as an integer where it does not
  leave the 32 bits.
\<close>

theorem init_parameters_pool_sizes:
  "srv_mid_idle_connections (fst (init_parameters b f chas)) = default_pool_size f
   \<and> (sint (max_pool_size f) \<ge> sint (default_pool_size f) \<longrightarrow>
        srv_max_idle_connections (fst (init_parameters b f chas)) = max_pool_size f)
   \<and> (sint (max_pool_size f) < sint (default_pool_size f) \<longrightarrow>
        srv_max_idle_connections (fst (init_parameters b f chas)) = default_pool_size f * 2)
   \<and> (sint (max_pool_size f) < sint (default_pool_size f)
        \<and> - (2 ^ 30) \<le> sint (default_pool_size f) \<and> sint (default_pool_size f) < 2 ^ 30 \<longrightarrow>
        sint (srv_max_idle_connections (fst (init_parameters b f chas)))
          = 2 * sint (default_pool_size f))"
  by (simp add: init_parameters_def Let_def split_def push_bit_eq_mult sint_double)

theorem init_parameters_pool_sizes_witness:
  "srv_mid_idle_connections
     (fst (init_parameters example_build (chassis_frontend_new example_build) blank_chassis)) = 100
   \<and> srv_max_idle_connections
       (fst (init_parameters example_build (chassis_frontend_new example_build) blank_chassis)) = 200
   \<and> srv_max_idle_connections
       (fst (init_parameters example_build
          ((chassis_frontend_new example_build) \<lparr> max_pool_size := 300 \<rparr>) blank_chassis)) = 300"
  using init_parameters_pool_sizes
          [where f = "chassis_frontend_new example_build" and b = example_build
             and chas = blank_chassis]
        init_parameters_pool_sizes
          [where f = "(chassis_frontend_new example_build) \<lparr> max_pool_size := 300 \<rparr>"
             and b = example_build and chas = blank_chassis]
  by (simp add: chassis_frontend_new_def g_slice_new0_frontend_def)

text \<open>
  Claim C4, as the code has it. The test that selects the derived value is
  \<^verbatim>\<open>recover > 0\<close>, so a recover threshold that is zero (unset) or negative resolves to
  \<open>down / 2\<close>; a positive recover above \<open>down\<close> is clamped to \<open>down\<close> with two warning
  lines; a positive recover not above \<open>down\<close> is kept, and no warning is written.
\<close>

theorem init_parameters_slave_delay:
  "(\<not> slave_delay_recover_threshold_sec f > 0 \<longrightarrow>
      srv_slave_delay_recover_threshold_sec (fst (init_parameters b f chas))
        = slave_delay_down_threshold_sec f / 2
      \<and> \<not> list_ex is_warning (snd (init_parameters b f chas)))
   \<and> (slave_delay_recover_threshold_sec f > 0
        \<and> slave_delay_recover_threshold_sec f > slave_delay_down_threshold_sec f \<longrightarrow>
      srv_slave_delay_recover_threshold_sec (fst (init_parameters b f chas))
        = slave_delay_down_threshold_sec f
      \<and> filter is_warning (snd (init_parameters b f chas)) =
          [g_warning ''`slave-delay-recover` should be lower than `slave-delay-down`.'' [],
           g_warning ''Set slave-delay-recover=%.3f'' [D (slave_delay_down_threshold_sec f)]])
   \<and> (slave_delay_recover_threshold_sec f > 0
        \<and> \<not> slave_delay_recover_threshold_sec f > slave_delay_down_threshold_sec f \<longrightarrow>
      srv_slave_delay_recover_threshold_sec (fst (init_parameters b f chas))
        = slave_delay_recover_threshold_sec f
      \<and> \<not> list_ex is_warning (snd (init_parameters b f chas)))"
  by (simp add: init_parameters_def Let_def split_def g_warning_def g_message_def)

theorem init_parameters_slave_delay_witness:
  "srv_slave_delay_recover_threshold_sec
     (fst (init_parameters example_build (chassis_frontend_new example_build) blank_chassis)) = 30
   \<and> srv_slave_delay_recover_threshold_sec
       (fst (init_parameters example_build
          ((chassis_frontend_new example_build) \<lparr> slave_delay_recover_threshold_sec := 90 \<rparr>)
          blank_chassis)) = 60
   \<and> srv_slave_delay_recover_threshold_sec
       (fst (init_parameters example_build
          ((chassis_frontend_new example_build) \<lparr> slave_delay_recover_threshold_sec := 10 \<rparr>)
          blank_chassis)) = 10"
  using init_parameters_slave_delay
          [where f = "chassis_frontend_new example_build" and b = example_build
             and chas = blank_chassis]
        init_parameters_slave_delay
          [where f = "(chassis_frontend_new example_build)
                        \<lparr> slave_delay_recover_threshold_sec := 90 \<rparr>"
             and b = example_build and chas = blank_chassis]
        init_parameters_slave_delay
          [where f = "(chassis_frontend_new example_build)
                        \<lparr> slave_delay_recover_threshold_sec := 10 \<rparr>"
             and b = example_build and chas = blank_chassis]
  by (simp add: chassis_frontend_new_def g_slice_new0_frontend_def)

text \<open>
  The claim as the specification words it fails for a recover threshold that is set but
  negative: with down = 60 and recover = -5 the recover threshold is set and is not above
  down, so it should be kept, and the code resolves it to 30.
\<close>

theorem init_parameters_slave_delay_negative_recover:
  "slave_delay_down_threshold_sec negative_recover_frontend = 60
   \<and> slave_delay_recover_threshold_sec negative_recover_frontend = - 5
   \<and> srv_slave_delay_recover_threshold_sec
       (fst (init_parameters example_build negative_recover_frontend blank_chassis)) = 30"
  by (simp add: init_parameters_def Let_def split_def negative_recover_frontend_def
        chassis_frontend_new_def g_slice_new0_frontend_def)

text \<open>
  Claim C5. For every worker-id input greater than 0 the resolved worker id is the input
  masked with \<open>0x3F\<close> (64 gives 0, 65 gives 1); for an input not greater than 0 the
  worker-id member of the service object keeps the value it had.
\<close>

theorem init_parameters_worker_id:
  "(sint (worker_id f) > 0 \<longrightarrow>
      guid_worker_id (srv_guid_state (fst (init_parameters b f chas))) = worker_id f AND 0x3f)
   \<and> (worker_id f = 64 \<longrightarrow>
        guid_worker_id (srv_guid_state (fst (init_parameters b f chas))) = 0)
   \<and> (worker_id f = 65 \<longrightarrow>
        guid_worker_id (srv_guid_state (fst (init_parameters b f chas))) = 1)
   \<and> (\<not> sint (worker_id f) > 0 \<longrightarrow>
        guid_worker_id (srv_guid_state (fst (init_parameters b f chas)))
          = guid_worker_id (srv_guid_state chas))"
  by (simp add: init_parameters_def Let_def split_def)

theorem init_parameters_worker_id_witness:
  "guid_worker_id (srv_guid_state (fst (init_parameters example_build
      ((chassis_frontend_new example_build) \<lparr> worker_id := 65 \<rparr>) blank_chassis))) = 1
   \<and> guid_worker_id (srv_guid_state (fst (init_parameters example_build
        ((chassis_frontend_new example_build) \<lparr> worker_id := 64 \<rparr>) blank_chassis))) = 0
   \<and> guid_worker_id (srv_guid_state (fst (init_parameters example_build
        ((chassis_frontend_new example_build) \<lparr> worker_id := - 3 \<rparr>)
        (blank_chassis \<lparr> srv_guid_state := \<lparr> guid_worker_id = 7 \<rparr> \<rparr>)))) = 7"
  using init_parameters_worker_id
          [where f = "(chassis_frontend_new example_build) \<lparr> worker_id := 65 \<rparr>"
             and b = example_build and chas = blank_chassis]
        init_parameters_worker_id
          [where f = "(chassis_frontend_new example_build) \<lparr> worker_id := 64 \<rparr>"
             and b = example_build and chas = blank_chassis]
        init_parameters_worker_id
          [where f = "(chassis_frontend_new example_build) \<lparr> worker_id := - 3 \<rparr>"
             and b = example_build
             and chas = "blank_chassis \<lparr> srv_guid_state := \<lparr> guid_worker_id = 7 \<rparr> \<rparr>"]
  by (simp add: chassis_frontend_new_def g_slice_new0_frontend_def blank_chassis_def)

subsection \<open>The crash handler\<close>

lemma map_index: "map (\<lambda>i. g (xs ! i)) [0..<length xs] = map g xs"
proof -
  have "map (\<lambda>i. g (xs ! i)) [0..<length xs] = map g (map ((!) xs) [0..<length xs])"
    by (simp only: map_map comp_def)
  then show ?thesis
    by (simp only: map_nth)
qed

lemma backtrace_length: "length (backtrace stack n) \<le> n"
  by (simp add: backtrace_def)

text \<open>
  Claim C8. Whenever the SIGSEGV handler runs it captures at most 16 stack frames, writes
  one warning line for each captured frame (after a warning line with their number), and
  ends by raising SIGABRT through \<^verbatim>\<open>abort\<close>: it never returns.
\<close>

theorem sigsegv_handler_aborts:
  "snd (sigsegv_handler signum stack) = Raises_SIGABRT
   \<and> length (backtrace stack 16) \<le> 16
   \<and> fst (sigsegv_handler signum stack) =
       g_warning ''Obtained %d stack frames.'' [I (of_nat (length (backtrace stack 16)))]
       # map (\<lambda>frame. g_warning ''%s'' [S frame]) (backtrace stack 16)
   \<and> (\<forall>e \<in> set (fst (sigsegv_handler signum stack)). is_warning e)"
proof -
  have frames: "map (\<lambda>i. g_warning ''%s'' [S (backtrace stack 16 ! i)])
                  [0..<length (backtrace stack 16)]
                = map (\<lambda>frame. g_warning ''%s'' [S frame]) (backtrace stack 16)"
    by (rule map_index [of "\<lambda>frame. g_warning ''%s'' [S frame]" "backtrace stack 16"])
  have lines: "fst (sigsegv_handler signum stack) =
       g_warning ''Obtained %d stack frames.'' [I (of_nat (length (backtrace stack 16)))]
       # map (\<lambda>frame. g_warning ''%s'' [S frame]) (backtrace stack 16)"
    by (simp add: sigsegv_handler_def log_backtrace_def Let_def frames)
  have "\<forall>e \<in> set (fst (sigsegv_handler signum stack)). is_warning e"
    unfolding lines by (auto simp add: g_warning_def)
  with lines show ?thesis
    by (simp add: sigsegv_handler_def backtrace_length)
qed

theorem sigsegv_handler_aborts_witness:
  "snd (sigsegv_handler 11 deep_stack) = Raises_SIGABRT
   \<and> length (fst (sigsegv_handler 11 deep_stack)) = 17
   \<and> list_all is_warning (fst (sigsegv_handler 11 deep_stack))"
  using sigsegv_handler_aborts [of 11 deep_stack]
  by (simp add: backtrace_def deep_stack_def list_all_iff)

subsection \<open>Rules for sequences of stages\<close>

lemma stage_specI:
  "(\<And>st. P st \<Longrightarrow> (case stage st of Next st' \<Rightarrow> Q st' | Goto_exit st' \<Rightarrow> E st' | Abnormal st' \<Rightarrow> m))
   \<Longrightarrow> stage_spec m P stage Q E"
  by (simp add: stage_spec_def)

lemma stage_specD:
  "stage_spec m P stage Q E \<Longrightarrow> P st \<Longrightarrow>
   (case stage st of Next st' \<Rightarrow> Q st' | Goto_exit st' \<Rightarrow> E st' | Abnormal st' \<Rightarrow> m)"
  by (simp add: stage_spec_def)

lemma run_stages_Nil_spec: "(\<And>st. P st \<Longrightarrow> Q st) \<Longrightarrow> stage_spec m P (run_stages []) Q E"
  by (simp add: stage_spec_def)

lemma run_stages_Cons_spec:
  assumes "stage_spec m P stage R E" and "stage_spec m R (run_stages stages) Q E"
  shows "stage_spec m P (run_stages (stage # stages)) Q E"
proof (rule stage_specI)
  fix st
  assume "P st"
  with assms(1) have head: "case stage st of Next st' \<Rightarrow> R st' | Goto_exit st' \<Rightarrow> E st' | Abnormal st' \<Rightarrow> m"
    by (rule stage_specD)
  show "case run_stages (stage # stages) st of Next st' \<Rightarrow> Q st' | Goto_exit st' \<Rightarrow> E st' | Abnormal st' \<Rightarrow> m"
  proof (cases "stage st")
    case (Next st1)
    with head have "R st1" by simp
    with assms(2) have "case run_stages stages st1 of Next st' \<Rightarrow> Q st' | Goto_exit st' \<Rightarrow> E st' | Abnormal st' \<Rightarrow> m"
      by (rule stage_specD)
    with Next show ?thesis by simp
  next
    case (Goto_exit st1)
    with head show ?thesis by simp
  next
    case (Abnormal st1)
    with head show ?thesis by simp
  qed
qed

lemma run_stages_append:
  "run_stages (xs @ ys) st =
     (case run_stages xs st of Next st' \<Rightarrow> run_stages ys st' | Goto_exit st' \<Rightarrow> Goto_exit st'
      | Abnormal st' \<Rightarrow> Abnormal st')"
  by (induction xs arbitrary: st) (auto split: step.splits)

lemma run_stages_append_spec:
  assumes "stage_spec m P (run_stages xs) R E" and "stage_spec m R (run_stages ys) Q E"
  shows "stage_spec m P (run_stages (xs @ ys)) Q E"
proof (rule stage_specI)
  fix st
  assume "P st"
  with assms(1) have head: "case run_stages xs st of Next st' \<Rightarrow> R st' | Goto_exit st' \<Rightarrow> E st' | Abnormal st' \<Rightarrow> m"
    by (rule stage_specD)
  show "case run_stages (xs @ ys) st of Next st' \<Rightarrow> Q st' | Goto_exit st' \<Rightarrow> E st' | Abnormal st' \<Rightarrow> m"
  proof (cases "run_stages xs st")
    case (Next st1)
    with head have "R st1" by simp
    with assms(2) have "case run_stages ys st1 of Next st' \<Rightarrow> Q st' | Goto_exit st' \<Rightarrow> E st' | Abnormal st' \<Rightarrow> m"
      by (rule stage_specD)
    with Next show ?thesis by (simp add: run_stages_append)
  next
    case (Goto_exit st1)
    with head show ?thesis by (simp add: run_stages_append)
  next
    case (Abnormal st1)
    with head show ?thesis by (simp add: run_stages_append)
  qed
qed

lemma run_stages_invariant:
  assumes "\<And>stage. stage \<in> set stages \<Longrightarrow> stage_spec m Inv stage Inv E"
  shows "stage_spec m Inv (run_stages stages) Inv E"
  using assms
proof (induction stages)
  case Nil
  show ?case by (simp add: stage_spec_def)
next
  case (Cons stage stages)
  have "stage_spec m Inv stage Inv E" using Cons.prems by simp
  moreover have "stage_spec m Inv (run_stages stages) Inv E" using Cons by simp
  ultimately show ?case by (rule run_stages_Cons_spec)
qed

lemma stage_spec_weaken:
  assumes "stage_spec m P stage Q E"
    and "\<And>st. P' st \<Longrightarrow> P st" and "\<And>st. Q st \<Longrightarrow> Q' st" and "\<And>st. E st \<Longrightarrow> E' st"
  shows "stage_spec m P' stage Q' E'"
proof (rule stage_specI)
  fix st
  assume "P' st"
  then have "P st" by (rule assms(2))
  with assms(1) have "case stage st of Next st' \<Rightarrow> Q st' | Goto_exit st' \<Rightarrow> E st' | Abnormal st' \<Rightarrow> m"
    by (rule stage_specD)
  then show "case stage st of Next st' \<Rightarrow> Q' st' | Goto_exit st' \<Rightarrow> E' st' | Abnormal st' \<Rightarrow> m"
    by (cases "stage st") (simp_all add: assms(3) assms(4))
qed

subsection \<open>Stores through the registered addresses\<close>

lemma find_option_registered:
  "find_option entries name = Some data \<Longrightarrow> \<exists>arg. (name, arg, data) \<in> set entries"
  by (induction entries) (auto split: if_splits)

lemma store_keeps_plugins:
  "(name, arg, data) \<in> set chassis_frontend_set_chassis_options \<Longrightarrow>
   plugin_names f \<noteq> None \<Longrightarrow> plugin_names (store data v f) \<noteq> None"
  by (cases v) (auto simp add: chassis_frontend_set_chassis_options_def)

lemma apply_stores_keeps_plugins:
  "plugin_names f \<noteq> None \<Longrightarrow>
   plugin_names (apply_stores chassis_frontend_set_chassis_options stores f) \<noteq> None"
proof (induction stores arbitrary: f)
  case Nil
  then show ?case by simp
next
  case (Cons s stores)
  obtain name v where s: "s = (name, v)" by (cases s)
  show ?case
  proof (cases "find_option chassis_frontend_set_chassis_options name")
    case None
    with Cons s show ?thesis by simp
  next
    case (Some data)
    then obtain arg where "(name, arg, data) \<in> set chassis_frontend_set_chassis_options"
      using find_option_registered by blast
    then have "plugin_names (store data v f) \<noteq> None"
      using Cons.prems by (rule store_keeps_plugins)
    then have "plugin_names (apply_stores chassis_frontend_set_chassis_options stores
                               (store data v f)) \<noteq> None"
      by (rule Cons.IH)
    with Some s show ?thesis by simp
  qed
qed

subsection \<open>The stages one by one\<close>

lemma early_trace_emit [simp]: "early_trace (emit e st) = (early_trace st \<and> early_event e)"
  by (simp add: early_trace_def emit_def)

lemma early_trace_fields [simp]:
  "early_trace (st \<lparr> frontend := f \<rparr>) = early_trace st"
  "early_trace (st \<lparr> srv := s \<rparr>) = early_trace st"
  "early_trace (st \<lparr> opts := p \<rparr>) = early_trace st"
  "early_trace (st \<lparr> gerr := g \<rparr>) = early_trace st"
  "early_trace (st \<lparr> the_log := l \<rparr>) = early_trace st"
  "early_trace (st \<lparr> argv := a \<rparr>) = early_trace st"
  "early_trace (st \<lparr> exit_code := c \<rparr>) = early_trace st"
  "early_trace (st \<lparr> exit_location := n \<rparr>) = early_trace st"
  "early_trace (st \<lparr> slow_query_log_fp := q \<rparr>) = early_trace st"
  by (simp_all add: early_trace_def)

lemma emit_fields [simp]:
  "frontend (emit e st) = frontend st"
  "srv (emit e st) = srv st"
  "argv (emit e st) = argv st"
  "the_log (emit e st) = the_log st"
  "exit_code (emit e st) = exit_code st"
  "opts (emit e st) = opts st"
  "slow_query_log_fp (emit e st) = slow_query_log_fp st"
  "trace (emit e st) = trace st @ [e]"
  by (simp_all add: emit_def)

lemma opened_simps [simp]:
  "opened (emit e st) = opened st"
  "opened (st \<lparr> frontend := f \<rparr>) = opened st"
  "opened (st \<lparr> srv := s \<rparr>) = opened st"
  "opened (st \<lparr> opts := p \<rparr>) = opened st"
  "opened (st \<lparr> gerr := g \<rparr>) = opened st"
  "opened (st \<lparr> the_log := l \<rparr>) = opened st"
  "opened (st \<lparr> argv := a \<rparr>) = opened st"
  "opened (st \<lparr> exit_code := c \<rparr>) = opened st"
  "opened (st \<lparr> exit_location := n \<rparr>) = opened st"
  "opened (st \<lparr> trace := tr \<rparr>) = opened st"
  "opened (st \<lparr> slow_query_log_fp := fp \<rparr>) = (fp \<noteq> Indeterminate)"
  by (simp_all add: opened_def emit_def)

lemma weaken_exit:
  "stage_spec m P stage Q E \<Longrightarrow> (\<And>st. E st \<Longrightarrow> E' st) \<Longrightarrow> stage_spec m P stage Q E'"
  by (rule stage_spec_weaken)

lemmas log_defs = g_message_def g_warning_def g_critical_def g_debug_def

lemma config_stages_early:
  "stage \<in> set (config_stages env) \<Longrightarrow> stage_spec False early_trace stage early_trace failed_early"
  unfolding config_stages_def
  by (auto simp add: stage_spec_def failed_early_def GOTO_EXIT_def Let_def log_defs
        init_base_options_def open_config_file_def print_main_version_def new_options_def
        parse_cmdline_lenient_def keyfile_to_options_def remote_config_def init_basedir_def
      split: sum.splits option.splits prod.splits)

lemma directory_stages_early:
  "stage \<in> set [install_sigsegv_handler b env, resolve_directories env]
   \<Longrightarrow> stage_spec False early_trace stage early_trace failed_early"
  by (auto simp add: stage_spec_def failed_early_def GOTO_EXIT_def Let_def log_defs
        install_sigsegv_handler_def resolve_directories_def
      split: sum.splits option.splits prod.splits)

lemma open_log_file_spec:
  "stage_spec False early_trace (open_log_file env) (\<lambda>st. early_trace st \<and> opened st)
     failed_early"
  by (auto simp add: stage_spec_def failed_early_def GOTO_EXIT_def Let_def log_defs
        open_log_file_def
      split: option.splits)

lemma network_stages_early:
  "stage \<in> set [set_log_level b env, init_network env]
   \<Longrightarrow> stage_spec False (\<lambda>st. early_trace st \<and> opened st) stage
         (\<lambda>st. early_trace st \<and> opened st) failed_early"
  by (auto simp add: stage_spec_def failed_early_def GOTO_EXIT_def Let_def log_defs
        set_log_level_def init_network_def
      split: sum.splits option.splits prod.splits)

lemma plugin_mode_loop_result:
  "plugin_mode_loop names p s out = (p', s', out') \<Longrightarrow>
     (p' \<noteq> 0 \<longleftrightarrow> p \<noteq> 0 \<or> ''proxy'' \<in> set names)
     \<and> (s' \<noteq> 0 \<longleftrightarrow> s \<noteq> 0 \<or> ''shard'' \<in> set names)
     \<and> (list_all is_log out \<longrightarrow> list_all is_log out')"
proof (induction names arbitrary: p s out)
  case Nil
  then show ?case by simp
next
  case (Cons name names)
  from Cons.prems
  have "plugin_mode_loop names (if name = ''proxy'' then 1 else p)
          (if name = ''shard'' then 1 else s)
          (if name = ''shard'' then out @ [g_message ''set sharding mode true'' []] else out)
        = (p', s', out')"
    by simp
  from Cons.IH [OF this] show ?case
    by (auto simp add: g_message_def split: if_splits)
qed

lemma check_plugin_mode_valid_result:
  assumes "check_plugin_mode_valid names = (valid, out)"
  shows "valid = (\<not> (''shard'' \<in> set names \<and> ''proxy'' \<in> set names))"
    and "list_all is_log out"
    and "\<not> valid \<Longrightarrow> mutual_exclusion_line \<in> set out"
proof -
  obtain p s out0 where loop: "plugin_mode_loop names 0 0 [] = (p, s, out0)"
    by (cases "plugin_mode_loop names 0 0 []") auto
  from plugin_mode_loop_result [OF loop]
  have p: "p \<noteq> 0 \<longleftrightarrow> ''proxy'' \<in> set names" and s: "s \<noteq> 0 \<longleftrightarrow> ''shard'' \<in> set names"
    and l: "list_all is_log out0"
    by simp_all
  from assms loop show "valid = (\<not> (''shard'' \<in> set names \<and> ''proxy'' \<in> set names))"
    using p s by (auto simp add: check_plugin_mode_valid_def split: if_splits)
  from assms loop l show "list_all is_log out"
    by (auto simp add: check_plugin_mode_valid_def g_critical_def split: if_splits)
  from assms loop show "\<not> valid \<Longrightarrow> mutual_exclusion_line \<in> set out"
    by (auto simp add: check_plugin_mode_valid_def mutual_exclusion_line_def split: if_splits)
qed

lemma early_trace_not_started: "early_trace st \<Longrightarrow> not_started (trace st)"
  by (auto simp add: early_trace_def not_started_def list_all_iff)

lemma early_trace_unchecked: "early_trace st \<Longrightarrow> Call Check_plugin_mode_valid \<notin> set (trace st)"
  by (auto simp add: early_trace_def list_all_iff)

lemma not_started_logs: "not_started tr \<Longrightarrow> list_all is_log out \<Longrightarrow> not_started (tr @ out)"
  by (auto simp add: not_started_def list_all_iff)

lemma failed_early_late_exit:
  "failed_early st \<Longrightarrow> opened st \<Longrightarrow> decided st = c \<Longrightarrow> late_exit c st"
  by (simp add: failed_early_def late_exit_def early_trace_not_started early_trace_unchecked)

lemma has_plugins_simps [simp]:
  "has_plugins (emit e st) = has_plugins st"
  "has_plugins (st \<lparr> frontend := f \<rparr>) = (plugin_names f \<noteq> None)"
  "has_plugins (st \<lparr> srv := s \<rparr>) = has_plugins st"
  "has_plugins (st \<lparr> opts := p \<rparr>) = has_plugins st"
  "has_plugins (st \<lparr> gerr := g \<rparr>) = has_plugins st"
  "has_plugins (st \<lparr> argv := a \<rparr>) = has_plugins st"
  "has_plugins (st \<lparr> trace := tr \<rparr>) = has_plugins st"
  "has_plugins (st \<lparr> exit_code := c \<rparr>) = has_plugins st"
  "has_plugins (st \<lparr> exit_location := n \<rparr>) = has_plugins st"
  "has_plugins (st \<lparr> slow_query_log_fp := q \<rparr>) = has_plugins st"
  by (simp_all add: has_plugins_def)

lemma inited_simps [simp]:
  "inited (emit e st) = (inited st \<or> e = Call Chassis_frontend_init_plugins)"
  "inited (st \<lparr> frontend := f \<rparr>) = inited st"
  "inited (st \<lparr> srv := s \<rparr>) = inited st"
  "inited (st \<lparr> opts := p \<rparr>) = inited st"
  "inited (st \<lparr> gerr := g \<rparr>) = inited st"
  "inited (st \<lparr> argv := a \<rparr>) = inited st"
  "inited (st \<lparr> exit_code := c \<rparr>) = inited st"
  "inited (st \<lparr> exit_location := n \<rparr>) = inited st"
  "inited (st \<lparr> slow_query_log_fp := q \<rparr>) = inited st"
  by (auto simp add: inited_def)

lemma has_plugins_stores:
  "has_plugins st \<Longrightarrow>
   plugin_names (apply_stores chassis_frontend_set_chassis_options stores (frontend st)) \<noteq> None"
  by (simp add: has_plugins_def apply_stores_keeps_plugins)

lemma select_default_plugins_spec:
  "stage_spec False (\<lambda>st. early_trace st \<and> opened st) (select_default_plugins b) loaded
     failed_early"
  by (simp add: stage_spec_def select_default_plugins_def default_plugin_names_def loaded_def)

lemma load_plugins_spec:
  "stage_spec False loaded (load_plugins env) loaded failed_early"
  by (simp add: stage_spec_def load_plugins_def failed_early_def GOTO_EXIT_def Let_def
        loaded_def)

lemma init_plugins_spec:
  "stage_spec False loaded (init_plugins env) ready failed_early"
  by (auto simp add: stage_spec_def init_plugins_def failed_early_def
        GOTO_EXIT_def Let_def ready_def loaded_def log_defs split: sum.splits)

lemma print_plugin_versions_spec:
  "stage_spec False ready print_plugin_versions ready version_exit"
  by (auto simp add: stage_spec_def print_plugin_versions_def version_exit_def GOTO_EXIT_def
        ready_def)

lemma parsed_append: "parsed tr \<Longrightarrow> parsed (tr @ rest)"
proof -
  assume "parsed tr"
  then obtain p1 p2 p3 where
    "tr = p1 @ Call Chassis_frontend_init_plugins # p2 @ Call Chassis_options_parse_cmdline # p3"
    unfolding parsed_def by blast
  then have "tr @ rest = p1 @ Call Chassis_frontend_init_plugins # p2
                           @ Call Chassis_options_parse_cmdline # (p3 @ rest)"
    by simp
  then show "parsed (tr @ rest)"
    unfolding parsed_def by blast
qed

lemma parsed_after_init:
  "Call Chassis_frontend_init_plugins \<in> set tr \<Longrightarrow>
   parsed (tr @ [Call Chassis_options_parse_cmdline])"
proof -
  assume "Call Chassis_frontend_init_plugins \<in> set tr"
  then obtain p1 p2 where "tr = p1 @ Call Chassis_frontend_init_plugins # p2"
    by (meson split_list)
  then have "tr @ [Call Chassis_options_parse_cmdline]
               = p1 @ Call Chassis_frontend_init_plugins # p2
                   @ Call Chassis_options_parse_cmdline # []"
    by simp
  then show "parsed (tr @ [Call Chassis_options_parse_cmdline])"
    unfolding parsed_def by blast
qed

lemma parse_cmdline_strict_spec:
  "stage_spec False ready (parse_cmdline_strict env) parsed_ready failed_early"
  by (auto simp add: stage_spec_def parse_cmdline_strict_def failed_early_def GOTO_EXIT_def
        Let_def log_defs ready_def parsed_ready_def inited_def has_plugins_stores
        parsed_after_init split: sum.splits)

lemma check_no_arguments_left_spec:
  "stage_spec False parsed_ready check_no_arguments_left parsed_ready failed_early"
  by (auto simp add: stage_spec_def check_no_arguments_left_def failed_early_def GOTO_EXIT_def
        log_defs ready_def parsed_ready_def split: list.splits)

lemma daemonize_spec:
  "stage_spec False parsed_ready daemonize parsed_ready failed_early"
  by (auto simp add: stage_spec_def daemonize_def Let_def ready_def parsed_ready_def
        parsed_append)

lemma decided_simps [simp]:
  "decided (emit e st) = decided st"
  "decided (st \<lparr> frontend := f \<rparr>) = (default_username f, plugin_names f)"
  "decided (st \<lparr> srv := s \<rparr>) = decided st"
  "decided (st \<lparr> opts := p \<rparr>) = decided st"
  "decided (st \<lparr> gerr := g \<rparr>) = decided st"
  "decided (st \<lparr> argv := a \<rparr>) = decided st"
  "decided (st \<lparr> trace := tr \<rparr>) = decided st"
  "decided (st \<lparr> exit_code := x \<rparr>) = decided st"
  "decided (st \<lparr> exit_location := n \<rparr>) = decided st"
  "decided (st \<lparr> slow_query_log_fp := q \<rparr>) = decided st"
  by (simp_all add: decided_def emit_def)

lemma doomed_decided: "decided st = decided st' \<Longrightarrow> doomed (frontend st) = doomed (frontend st')"
  by (simp add: decided_def doomed_def both_modes_def)

lemma write_pidfile_spec:
  "stage_spec False (\<lambda>st. parsed_ready st \<and> decided st = c) (write_pidfile lenv)
     (\<lambda>st. parsed_ready st \<and> decided st = c) (late_exit c)"
  by (auto simp add: stage_spec_def write_pidfile_def GOTO_EXIT_def Let_def ready_def
        parsed_ready_def parsed_append log_defs
        failed_early_def intro!: failed_early_late_exit split: option.splits)

lemma log_plugin_versions_spec:
  "stage_spec False (\<lambda>st. parsed_ready st \<and> decided st = c) log_plugin_versions
     (\<lambda>st. parsed_ready st \<and> decided st = c) (late_exit c)"
  by (auto simp add: stage_spec_def log_plugin_versions_def Let_def ready_def parsed_ready_def
        parsed_append)

lemma check_plugin_mode_spec:
  "stage_spec False (\<lambda>st. parsed_ready st \<and> decided st = c) check_plugin_mode
     (\<lambda>st. decided st = c \<and> opened st \<and> \<not> both_modes (frontend st) \<and> not_started (trace st))
     (late_exit c)"
proof (rule stage_specI)
  fix st
  assume pre0: "parsed_ready st \<and> decided st = c"
  then have pre: "ready st \<and> decided st = c" and strict: "parsed (trace st)"
    and fp: "opened st"
    by (simp_all add: parsed_ready_def ready_def)
  then obtain names where names: "plugin_names (frontend st) = Some names"
    by (auto simp add: ready_def has_plugins_def)
  obtain valid out where chk: "check_plugin_mode_valid names = (valid, out)"
    by (cases "check_plugin_mode_valid names") auto
  note res = check_plugin_mode_valid_result [OF chk]
  from pre have started: "not_started (trace st)"
    by (simp add: ready_def early_trace_not_started)
  then have "not_started (trace st @ [Call Check_plugin_mode_valid])"
    by (simp add: not_started_def)
  then have started': "not_started ((trace st @ [Call Check_plugin_mode_valid]) @ out)"
    using res(2) by (rule not_started_logs)
  show "case check_plugin_mode st of Next st' \<Rightarrow>
            decided st' = c \<and> opened st' \<and> \<not> both_modes (frontend st')
            \<and> not_started (trace st')
        | Goto_exit st' \<Rightarrow> late_exit c st' | Abnormal st' \<Rightarrow> False"
  proof (cases valid)
    case True
    with names chk res(1) pre fp started' show ?thesis
      by (simp add: check_plugin_mode_def Let_def both_modes_def)
  next
    case False
    with res(3) have line: "mutual_exclusion_line \<in> set out" by simp
    from pre have "Call Chassis_frontend_init_plugins \<in> set (trace st)"
      by (simp add: ready_def inited_def)
    with line strict have "ordered (trace st @ Call Check_plugin_mode_valid # out)"
      unfolding ordered_def by blast
    with False names chk pre fp started' show ?thesis
      by (simp add: check_plugin_mode_def Let_def GOTO_EXIT_def late_exit_def)
  qed
qed

lemma check_default_username_spec:
  "stage_spec False
     (\<lambda>st. decided st = c \<and> opened st \<and> \<not> both_modes (frontend st) \<and> not_started (trace st))
     check_default_username (safe c) (late_exit c)"
  by (auto simp add: stage_spec_def check_default_username_def GOTO_EXIT_def safe_def
        late_exit_def doomed_def not_started_def log_defs)

lemma doomed_xa [simp]: "doomed (f \<lparr> log_xa_filename := x \<rparr>) = doomed f"
  by (simp add: doomed_def both_modes_def)

lemma safe_late_exit: "safe c st \<Longrightarrow> late_exit c st"
  by (auto simp add: safe_def late_exit_def doomed_def)

lemma safe_simps [simp]:
  "safe c (emit e st) = safe c st"
  "safe c (st \<lparr> srv := s \<rparr>) = safe c st"
  "safe c (st \<lparr> trace := tr \<rparr>) = safe c st"
  "safe c (st \<lparr> exit_code := x \<rparr>) = safe c st"
  "safe c (st \<lparr> exit_location := n \<rparr>) = safe c st"
  "safe c (st \<lparr> frontend := (frontend st) \<lparr> log_xa_filename := name \<rparr> \<rparr>) = safe c st"
  by (simp_all add: safe_def emit_def decided_def opened_def)

lemma service_stages_spec:
  "stage \<in> set [run_init_parameters b, open_xa_log b env lenv, set_fdlimit lenv, run_mainloop lenv]
   \<Longrightarrow> stage_spec False (safe c) stage (safe c) (late_exit c)"
  by (auto simp add: stage_spec_def run_init_parameters_def open_xa_log_def set_fdlimit_def
        run_mainloop_def GOTO_EXIT_def Let_def intro!: safe_late_exit
      split: prod.splits option.splits)

lemma late_stages_spec:
  "stage_spec False (\<lambda>st. parsed_ready st \<and> decided st = c) (run_stages (late_stages b env lenv))
     (safe c) (late_exit c)"
proof -
  have tail: "stage_spec False (safe c)
                (run_stages [run_init_parameters b, open_xa_log b env lenv, set_fdlimit lenv,
                             run_mainloop lenv]) (safe c) (late_exit c)"
    by (rule run_stages_invariant) (rule service_stages_spec)
  show ?thesis
    unfolding late_stages_def
    by (rule run_stages_Cons_spec [OF write_pidfile_spec]
             run_stages_Cons_spec [OF log_plugin_versions_spec]
             run_stages_Cons_spec [OF check_plugin_mode_spec]
             run_stages_Cons_spec [OF check_default_username_spec] tail)+
qed

lemma shutdown_funnel_fields [simp]:
  "final_code (shutdown_funnel b env lenv fp code loc tr) = code"
  "resolved (shutdown_funnel b env lenv fp code loc tr) = fp"
  by (simp_all add: shutdown_funnel_def Let_def)

lemma shutdown_funnel_events:
  "\<exists>rest. events (shutdown_funnel b env lenv fp code loc tr) = tr @ rest
     \<and> list_all early_event rest
     \<and> Call Chassis_frontend_print_plugin_versions \<notin> set rest
     \<and> Call Init_slow_query_log \<notin> set rest"
  by (auto simp add: shutdown_funnel_def Let_def release_resouces_when_exit_def log_defs
      split: option.splits)

text \<open>
  The funnel of \<^verbatim>\<open>exit_nicely\<close> is always reached; the function returns exactly when
  \<^verbatim>\<open>slow_query_log_fp\<close> has been initialized.
\<close>

lemma exit_nicely_result:
  "\<exists>out rest. funnel_of (exit_nicely b env lenv p fp code loc tr) = Some out
     \<and> final_code out = code \<and> resolved out = p
     \<and> events out = tr @ rest
     \<and> list_all early_event rest
     \<and> Call Chassis_frontend_print_plugin_versions \<notin> set rest
     \<and> Call Init_slow_query_log \<notin> set rest
     \<and> (exit_nicely b env lenv p fp code loc tr = Exited out \<longleftrightarrow> fp \<noteq> Indeterminate)
     \<and> (exit_nicely b env lenv p fp code loc tr = Undefined_at_fclose out
          \<longleftrightarrow> fp = Indeterminate)"
proof -
  obtain rest where rest:
    "events (shutdown_funnel b env lenv p code loc tr) = tr @ rest"
    "list_all early_event rest"
    "Call Chassis_frontend_print_plugin_versions \<notin> set rest"
    "Call Init_slow_query_log \<notin> set rest"
    using shutdown_funnel_events by blast
  show ?thesis
  proof (cases fp)
    case Indeterminate
    with rest show ?thesis by (simp add: exit_nicely_def)
  next
    case NULL_FILE
    with rest show ?thesis by (simp add: exit_nicely_def)
  next
    case Open_FILE
    have "events ((shutdown_funnel b env lenv p code loc tr)
                    \<lparr> events := events (shutdown_funnel b env lenv p code loc tr)
                                  @ [Call Fclose] \<rparr>) = tr @ (rest @ [Call Fclose])"
      using rest(1) by simp
    moreover have "list_all early_event (rest @ [Call Fclose])"
      using rest(2) by simp
    moreover have "Call Chassis_frontend_print_plugin_versions \<notin> set (rest @ [Call Fclose])"
      "Call Init_slow_query_log \<notin> set (rest @ [Call Fclose])"
      using rest(3,4) by simp_all
    ultimately show ?thesis
      using Open_FILE
      by (intro exI [of _ "(shutdown_funnel b env lenv p code loc tr)
                             \<lparr> events := events (shutdown_funnel b env lenv p code loc tr)
                                           @ [Call Fclose] \<rparr>"]
                exI [of _ "rest @ [Call Fclose]"])
         (simp add: exit_nicely_def Let_def)
  qed
qed

lemma exit_nicely_funnel_of:
  "funnel_of (exit_nicely b env lenv p fp code loc tr) = Some out \<Longrightarrow>
   resolved out = p \<and> final_code out = code
   \<and> events out = events (shutdown_funnel b env lenv p code loc tr)
                     @ (if fp = Open_FILE then [Call Fclose] else [])"
  by (cases fp) (auto simp add: exit_nicely_def Let_def)

lemma exit_nicely_returns:
  "fp \<noteq> Indeterminate \<Longrightarrow>
   \<exists>out. exit_nicely b env lenv p fp code loc tr = Exited out \<and> final_code out = code"
  using exit_nicely_result [of b env lenv p fp code loc tr] by auto

lemma child_returns:
  assumes "parsed_ready st"
  shows "\<exists>out. finish b env lenv (run_stages (late_stages b env lenv) st) = Exited out
           \<and> (doomed (frontend st) \<longrightarrow> final_code out = EXIT_FAILURE)"
proof -
  have run: "case run_stages (late_stages b env lenv) st of
          Next st' \<Rightarrow> safe (decided st) st' | Goto_exit st' \<Rightarrow> late_exit (decided st) st'
        | Abnormal st' \<Rightarrow> False"
    using late_stages_spec [of "decided st" b env lenv] assms by (simp add: stage_spec_def)
  show ?thesis
  proof (cases "run_stages (late_stages b env lenv) st")
    case (Next st')
    with run have safe: "safe (decided st) st'" by simp
    then have calm: "\<not> doomed (frontend st)"
      using doomed_decided [of st' st] by (simp add: safe_def)
    from safe have "slow_query_log_fp st' \<noteq> Indeterminate"
      by (simp add: safe_def opened_def)
    from exit_nicely_returns [OF this, of b env lenv "Some (frontend st')" "exit_code st'"
           "exit_location st'" "trace st'"] calm Next
    show ?thesis
      by (auto simp add: finish_def)
  next
    case (Goto_exit st')
    with run have le: "late_exit (decided st) st'" by simp
    then have code: "doomed (frontend st) \<longrightarrow> exit_code st' = EXIT_FAILURE"
      using doomed_decided [of st' st] by (simp add: late_exit_def)
    from le have "slow_query_log_fp st' \<noteq> Indeterminate"
      by (simp add: late_exit_def opened_def)
    from exit_nicely_returns [OF this, of b env lenv "Some (frontend st')" "exit_code st'"
           "exit_location st'" "trace st'"] code Goto_exit
    show ?thesis
      by (auto simp add: finish_def)
  next
    case (Abnormal st')
    with run show ?thesis by simp
  qed
qed

lemma keepalive_spec:
  "stage_spec False parsed_ready (keepalive b env) parsed_ready supervisor_exit"
proof (rule stage_specI)
  fix st
  assume r: "parsed_ready st"
  then have r': "parsed_ready (emit (Call Chassis_unix_proc_keepalive) st)"
    by (simp add: ready_def parsed_ready_def parsed_append)
  show "case keepalive b env st of Next st' \<Rightarrow> parsed_ready st'
        | Goto_exit st' \<Rightarrow> supervisor_exit st' | Abnormal st' \<Rightarrow> False"
  proof (cases "auto_restart (frontend st) \<noteq> 0")
    case False
    with r show ?thesis by (simp add: keepalive_def)
  next
    case True
    show ?thesis
    proof (cases "chassis_unix_proc_keepalive_r env")
      case Is_child
      with True r' show ?thesis by (simp add: keepalive_def Let_def)
    next
      case Fork_failed
      with True r' show ?thesis
        by (simp add: keepalive_def Let_def GOTO_EXIT_def supervisor_exit_def ready_def
              parsed_ready_def)
    next
      case (Child_exited child)
      from child_returns [OF r', of b env child]
      obtain out where out:
        "finish b env child (run_stages (late_stages b env child)
           (emit (Call Chassis_unix_proc_keepalive) st)) = Exited out"
        "doomed (frontend st) \<longrightarrow> final_code out = EXIT_FAILURE"
        by auto
      with True Child_exited r' show ?thesis
        by (simp add: keepalive_def Let_def supervisor_exit_def ready_def parsed_ready_def)
    qed
  qed
qed

lemma failed_early_verdict: "failed_early st \<Longrightarrow> verdict st"
  by (simp add: failed_early_def verdict_def early_trace_not_started early_trace_unchecked)

lemma version_exit_verdict: "version_exit st \<Longrightarrow> verdict st"
  by (simp add: version_exit_def verdict_def early_trace_not_started early_trace_unchecked)

lemma supervisor_exit_verdict: "supervisor_exit st \<Longrightarrow> verdict st"
  by (simp add: supervisor_exit_def verdict_def early_trace_not_started early_trace_unchecked)

lemma late_exit_verdict: "late_exit c st \<Longrightarrow> verdict st"
  by (auto simp add: late_exit_def verdict_def doomed_def)

lemma safe_verdict: "safe c st \<Longrightarrow> verdict st"
  by (auto simp add: safe_def verdict_def doomed_def)

lemma late_stages_verdict:
  "stage_spec False parsed_ready (run_stages (late_stages b env lenv)) verdict verdict"
proof (rule stage_specI)
  fix st
  assume "parsed_ready st"
  then have "case run_stages (late_stages b env lenv) st of
          Next st' \<Rightarrow> safe (decided st) st' | Goto_exit st' \<Rightarrow> late_exit (decided st) st'
        | Abnormal st' \<Rightarrow> False"
    using late_stages_spec [of "decided st" b env lenv] by (simp add: stage_spec_def)
  then show "case run_stages (late_stages b env lenv) st of
          Next st' \<Rightarrow> verdict st' | Goto_exit st' \<Rightarrow> verdict st' | Abnormal st' \<Rightarrow> False"
    by (cases "run_stages (late_stages b env lenv) st")
       (simp_all add: safe_verdict late_exit_verdict)
qed

lemma config_stages_verdict:
  "stage_spec False early_trace (run_stages (config_stages env)) early_trace verdict"
  by (rule run_stages_invariant)
     (rule stage_spec_weaken [OF config_stages_early _ _ failed_early_verdict], assumption+)

lemma directory_stages_verdict:
  "stage_spec False early_trace
     (run_stages [install_sigsegv_handler b env, resolve_directories env]) early_trace verdict"
  by (rule run_stages_invariant)
     (rule stage_spec_weaken [OF directory_stages_early _ _ failed_early_verdict], assumption+)

lemma log_stages_verdict:
  "stage_spec False early_trace
     (run_stages [open_log_file env, set_log_level b env, init_network env])
     (\<lambda>st. early_trace st \<and> opened st) verdict"
proof -
  have "stage_spec False (\<lambda>st. early_trace st \<and> opened st)
          (run_stages [set_log_level b env, init_network env])
          (\<lambda>st. early_trace st \<and> opened st) verdict"
    by (rule run_stages_invariant)
       (rule stage_spec_weaken [OF network_stages_early _ _ failed_early_verdict], assumption+)
  with weaken_exit [OF open_log_file_spec failed_early_verdict] show ?thesis
    by (rule run_stages_Cons_spec)
qed

lemma plugin_load_verdict:
  "stage_spec False (\<lambda>st. early_trace st \<and> opened st)
     (run_stages [select_default_plugins b, load_plugins env, init_plugins env]) ready verdict"
  by (rule run_stages_Cons_spec
        [OF weaken_exit [OF select_default_plugins_spec failed_early_verdict]]
      run_stages_Cons_spec [OF weaken_exit [OF load_plugins_spec failed_early_verdict]]
      run_stages_Cons_spec [OF weaken_exit [OF init_plugins_spec failed_early_verdict]]
      run_stages_Nil_spec | assumption)+

lemma startup_stages_verdict:
  "stage_spec False ready (run_stages (startup_stages b env)) parsed_ready verdict"
  unfolding startup_stages_def
  by (rule run_stages_Cons_spec
        [OF weaken_exit [OF print_plugin_versions_spec version_exit_verdict]]
      run_stages_Cons_spec [OF weaken_exit [OF parse_cmdline_strict_spec failed_early_verdict]]
      run_stages_Cons_spec [OF weaken_exit [OF check_no_arguments_left_spec failed_early_verdict]]
      run_stages_Cons_spec [OF weaken_exit [OF daemonize_spec failed_early_verdict]]
      run_stages_Cons_spec [OF weaken_exit [OF keepalive_spec supervisor_exit_verdict]]
      run_stages_Nil_spec | assumption)+

lemma early_stages_split:
  "early_stages b env @ late_stages b env lenv =
     config_stages env
     @ [install_sigsegv_handler b env, resolve_directories env]
     @ [open_log_file env, set_log_level b env, init_network env]
     @ [select_default_plugins b, load_plugins env, init_plugins env]
     @ startup_stages b env @ late_stages b env lenv"
  by (simp add: early_stages_def plugin_stages_def)

lemma all_stages_verdict:
  "stage_spec False early_trace (run_stages (early_stages b env @ late_stages b env lenv))
     verdict verdict"
  unfolding early_stages_split
  by (rule run_stages_append_spec [OF config_stages_verdict]
      run_stages_append_spec [OF directory_stages_verdict]
      run_stages_append_spec [OF log_stages_verdict]
      run_stages_append_spec [OF plugin_load_verdict]
      run_stages_append_spec [OF startup_stages_verdict]
      late_stages_verdict)+

lemma initial_state_early: "early_trace (initial_state b srv0 args)"
  by (simp add: initial_state_def early_trace_def)

lemma not_started_more: "list_all early_event rest \<Longrightarrow> not_started (tr @ rest) = not_started tr"
  by (auto simp add: not_started_def list_all_iff)

lemma unchecked_more:
  "list_all early_event rest \<Longrightarrow>
   Call Check_plugin_mode_valid \<in> set (tr @ rest) \<longleftrightarrow> Call Check_plugin_mode_valid \<in> set tr"
  by (auto simp add: list_all_iff)

lemma early_events_quiet:
  "list_all early_event tr \<Longrightarrow>
   Call Check_plugin_mode_valid \<notin> set tr \<and> mutual_exclusion_line \<notin> set tr"
  by (auto simp add: list_all_iff mutual_exclusion_line_def g_critical_def)

lemma ordered_more: "ordered tr \<Longrightarrow> ordered (tr @ rest)"
proof -
  assume "ordered tr"
  then obtain pre post where "tr = pre @ Call Check_plugin_mode_valid # post"
    "Call Chassis_frontend_init_plugins \<in> set pre" "parsed pre"
    "mutual_exclusion_line \<in> set post"
    unfolding ordered_def by blast
  then have "tr @ rest = pre @ Call Check_plugin_mode_valid # (post @ rest)
             \<and> Call Chassis_frontend_init_plugins \<in> set pre \<and> parsed pre
             \<and> mutual_exclusion_line \<in> set (post @ rest)"
    by simp
  then show "ordered (tr @ rest)"
    unfolding ordered_def by blast
qed

lemma verdict_judged:
  assumes "verdict st"
  shows "judged (exit_nicely b env lenv (Some (frontend st)) (slow_query_log_fp st)
                   (exit_code st) (exit_location st) (trace st))"
proof -
  define r where
    "r = exit_nicely b env lenv (Some (frontend st)) (slow_query_log_fp st) (exit_code st)
           (exit_location st) (trace st)"
  obtain out rest where out: "funnel_of r = Some out" "final_code out = exit_code st"
    "resolved out = Some (frontend st)" "events out = trace st @ rest"
    and rest: "list_all early_event rest"
    and ret: "r = Exited out \<longleftrightarrow> slow_query_log_fp st \<noteq> Indeterminate"
    unfolding r_def using exit_nicely_result by blast
  have ns: "not_started (trace st @ rest) = not_started (trace st)"
    using rest by (rule not_started_more)
  have ck: "Call Check_plugin_mode_valid \<in> set (trace st @ rest)
              \<longleftrightarrow> Call Check_plugin_mode_valid \<in> set (trace st)"
    using rest by (rule unchecked_more)
  have version: "took_version_exit r" if v: "version_exit st"
  proof -
    from v ret have exited: "r = Exited out"
      by (simp add: version_exit_def opened_def)
    from v rest have "list_all early_event (trace st @ rest)"
      by (simp add: version_exit_def early_trace_def)
    then have "Call Check_plugin_mode_valid \<notin> set (trace st @ rest)
               \<and> mutual_exclusion_line \<notin> set (trace st @ rest)"
      by (rule early_events_quiet)
    with v exited out show ?thesis
      by (simp add: took_version_exit_def version_exit_def)
  qed
  have 1: "doomed (frontend st) \<longrightarrow>
             not_started (events out) \<and> (final_code out = EXIT_FAILURE \<or> took_version_exit r)"
    using assms version by (auto simp add: verdict_def out ns)
  have 2: "Call Check_plugin_mode_valid \<in> set (events out) \<longrightarrow> r = Exited out"
    using assms ret by (simp add: verdict_def out ck opened_def del: set_append)
  have 3: "both_modes (frontend st) \<and> Call Check_plugin_mode_valid \<in> set (events out) \<longrightarrow>
             final_code out = EXIT_FAILURE \<and> ordered (events out)"
    using assms by (auto simp add: verdict_def out ck simp del: set_append intro: ordered_more)
  from 1 2 3 out have "judged r"
    by (simp add: judged_def)
  then show ?thesis by (simp only: r_def)
qed

lemma main_cmdline_cases:
  obtains (no_glib) "chassis_frontend_init_glib_r env \<noteq> 0"
      "main_cmdline b env args =
         exit_nicely b env (late env) None Indeterminate EXIT_FAILURE 645
           [Call Chassis_frontend_init_glib]"
  | (no_chassis) "chassis_frontend_init_glib_r env = 0" "chassis_new_r env = None"
      "main_cmdline b env args =
         exit_nicely b env (late env) None Indeterminate EXIT_FAILURE 656
           [Call Chassis_frontend_init_glib, Call Chassis_log_new, Call Chassis_new]"
  | (staged) srv0 st where "chassis_frontend_init_glib_r env = 0" "chassis_new_r env = Some srv0"
      "run_stages (early_stages b env @ late_stages b env (late env)) (initial_state b srv0 args)
         = Next st \<or>
       run_stages (early_stages b env @ late_stages b env (late env)) (initial_state b srv0 args)
         = Goto_exit st"
      "main_cmdline b env args =
         exit_nicely b env (late env) (Some (frontend st)) (slow_query_log_fp st) (exit_code st)
           (exit_location st) (trace st)"
proof (cases "chassis_frontend_init_glib_r env \<noteq> 0")
  case True
  then show ?thesis by (intro no_glib) (simp_all add: main_cmdline_def)
next
  case False
  note glib = this
  show ?thesis
  proof (cases "chassis_new_r env")
    case None
    with glib show ?thesis by (intro no_chassis) (simp_all add: main_cmdline_def)
  next
    case (Some srv0)
    have run: "case run_stages (early_stages b env @ late_stages b env (late env))
                 (initial_state b srv0 args) of
            Next st' \<Rightarrow> verdict st' | Goto_exit st' \<Rightarrow> verdict st' | Abnormal st' \<Rightarrow> False"
      using all_stages_verdict initial_state_early by (rule stage_specD)
    show ?thesis
    proof (cases "run_stages (early_stages b env @ late_stages b env (late env))
                    (initial_state b srv0 args)")
      case (Next st)
      with glib Some show ?thesis
        by (intro staged [of srv0 st]) (simp_all add: main_cmdline_def finish_def)
    next
      case (Goto_exit st)
      with glib Some show ?thesis
        by (intro staged [of srv0 st]) (simp_all add: main_cmdline_def finish_def)
    next
      case (Abnormal st)
      with run show ?thesis by simp
    qed
  qed
qed

lemma main_cmdline_judged: "judged (main_cmdline b env args)"
proof (cases rule: main_cmdline_cases [where b = b and env = env and args = args])
  case no_glib
  then show ?thesis
    by (simp add: judged_def exit_nicely_def shutdown_funnel_def Let_def not_started_def
          release_resouces_when_exit_def log_defs)
next
  case no_chassis
  then show ?thesis
    by (simp add: judged_def exit_nicely_def shutdown_funnel_def Let_def not_started_def
          release_resouces_when_exit_def log_defs)
next
  case (staged srv0 st)
  have "case run_stages (early_stages b env @ late_stages b env (late env))
               (initial_state b srv0 args) of
          Next st' \<Rightarrow> verdict st' | Goto_exit st' \<Rightarrow> verdict st' | Abnormal st' \<Rightarrow> False"
    using all_stages_verdict initial_state_early by (rule stage_specD)
  with staged(3) have "verdict st" by auto
  with staged(4) show ?thesis by (simp add: verdict_judged)
qed

lemma funnel_of_fields:
  "funnel_of r = Some out \<Longrightarrow> events_of r = events out \<and> frontend_of r = resolved out"
  by (cases r) auto

text \<open>Every run gets to line 1015 of the funnel.\<close>

lemma main_cmdline_funnel:
  "\<exists>out. funnel_of (main_cmdline b env args) = Some out
     \<and> events_of (main_cmdline b env args) = events out
     \<and> frontend_of (main_cmdline b env args) = resolved out
     \<and> (main_cmdline b env args = Exited out
          \<or> main_cmdline b env args = Undefined_at_fclose out)"
  using main_cmdline_judged [of b env args]
  by (cases "main_cmdline b env args") (simp_all add: judged_def)

subsection \<open>The version exit and the slow-query log\<close>

lemma init_parameters_logs:
  "init_parameters b f chas = (chas', out) \<Longrightarrow> list_all is_log out"
proof -
  have "list_all is_log (snd (init_parameters b f chas))"
    by (simp add: init_parameters_def Let_def split_def g_message_def g_warning_def)
  then show "init_parameters b f chas = (chas', out) \<Longrightarrow> list_all is_log out"
    by simp
qed

lemma logs_not_call: "list_all is_log out \<Longrightarrow> Call c \<notin> set out"
  by (auto simp add: list_all_iff)

lemma check_plugin_mode_valid_no_call:
  "check_plugin_mode_valid names = (valid, out) \<Longrightarrow> Call c \<notin> set out"
  using check_plugin_mode_valid_result(2) logs_not_call by blast

lemma init_parameters_no_call:
  "init_parameters b f chas = (chas', out) \<Longrightarrow> Call c \<notin> set out"
  using init_parameters_logs logs_not_call by blast

lemma unversioned_simps [simp]:
  "unversioned (emit e st) = (unversioned st \<and> e \<noteq> Call Chassis_frontend_print_plugin_versions)"
  "unversioned (st \<lparr> frontend := f \<rparr>) = unversioned st"
  "unversioned (st \<lparr> srv := s \<rparr>) = unversioned st"
  "unversioned (st \<lparr> opts := p \<rparr>) = unversioned st"
  "unversioned (st \<lparr> gerr := g \<rparr>) = unversioned st"
  "unversioned (st \<lparr> the_log := l \<rparr>) = unversioned st"
  "unversioned (st \<lparr> argv := a \<rparr>) = unversioned st"
  "unversioned (st \<lparr> exit_code := c \<rparr>) = unversioned st"
  "unversioned (st \<lparr> exit_location := n \<rparr>) = unversioned st"
  "unversioned (st \<lparr> slow_query_log_fp := q \<rparr>) = unversioned st"
  "unversioned (st \<lparr> trace := tr \<rparr>) = (Call Chassis_frontend_print_plugin_versions \<notin> set tr)"
  by (auto simp add: unversioned_def emit_def)

lemma versioned_exit_simps [simp]:
  "versioned_exit (st \<lparr> exit_code := c, exit_location := n \<rparr>) =
     (Call Chassis_frontend_print_plugin_versions \<in> set (trace st) \<longrightarrow> c = EXIT_SUCCESS)"
  "versioned_exit (st \<lparr> exit_code := c \<rparr>) =
     (Call Chassis_frontend_print_plugin_versions \<in> set (trace st) \<longrightarrow> c = EXIT_SUCCESS)"
  by (simp_all add: versioned_exit_def)

lemma config_stages_unversioned:
  "stage \<in> set (config_stages env) \<Longrightarrow>
   stage_spec True unversioned stage unversioned versioned_exit"
  unfolding config_stages_def
  by (auto simp add: stage_spec_def GOTO_EXIT_def Let_def log_defs unversioned_def
        init_base_options_def open_config_file_def print_main_version_def new_options_def
        parse_cmdline_lenient_def keyfile_to_options_def remote_config_def init_basedir_def
      split: sum.splits option.splits prod.splits)

lemma plugin_stages_unversioned:
  "stage \<in> set (install_sigsegv_handler b env # plugin_stages b env) \<Longrightarrow>
   stage_spec True unversioned stage unversioned versioned_exit"
  unfolding plugin_stages_def
  by (auto simp add: stage_spec_def GOTO_EXIT_def Let_def log_defs unversioned_def
        install_sigsegv_handler_def resolve_directories_def open_log_file_def
        set_log_level_def init_network_def select_default_plugins_def load_plugins_def
        init_plugins_def
      split: sum.splits option.splits prod.splits)

lemma startup_stages_unversioned:
  "stage \<in> set (startup_stages b env) \<Longrightarrow>
   stage_spec True unversioned stage unversioned versioned_exit"
  unfolding startup_stages_def
  by (auto simp add: stage_spec_def GOTO_EXIT_def Let_def log_defs unversioned_def
        print_plugin_versions_def parse_cmdline_strict_def check_no_arguments_left_def
        daemonize_def keepalive_def
      split: sum.splits option.splits prod.splits list.splits keepalive_result.splits
        result.splits)

lemma late_stages_unversioned:
  "stage \<in> set (late_stages b env lenv) \<Longrightarrow>
   stage_spec True unversioned stage unversioned versioned_exit"
  unfolding late_stages_def
  by (auto simp add: stage_spec_def GOTO_EXIT_def Let_def log_defs unversioned_def
        write_pidfile_def log_plugin_versions_def check_plugin_mode_def
        check_default_username_def run_init_parameters_def open_xa_log_def set_fdlimit_def
        run_mainloop_def
      dest: check_plugin_mode_valid_no_call init_parameters_no_call
      split: option.splits prod.splits if_splits)

lemma all_stages_unversioned:
  "stage_spec True unversioned (run_stages (early_stages b env @ late_stages b env lenv))
     unversioned versioned_exit"
proof (rule run_stages_invariant)
  fix stage
  assume "stage \<in> set (early_stages b env @ late_stages b env lenv)"
  then consider "stage \<in> set (config_stages env)"
    | "stage \<in> set (install_sigsegv_handler b env # plugin_stages b env)"
    | "stage \<in> set (startup_stages b env)" | "stage \<in> set (late_stages b env lenv)"
    by (auto simp add: early_stages_def)
  then show "stage_spec True unversioned stage unversioned versioned_exit"
    by cases (rule config_stages_unversioned plugin_stages_unversioned
                startup_stages_unversioned late_stages_unversioned, assumption)+
qed

text \<open>A run that prints the plugin versions leaves with \<^verbatim>\<open>EXIT_SUCCESS\<close> in \<^verbatim>\<open>exit_code\<close>.\<close>

lemma main_cmdline_versioned:
  assumes "funnel_of (main_cmdline b env args) = Some out"
    and "Call Chassis_frontend_print_plugin_versions \<in> set (events out)"
  shows "final_code out = EXIT_SUCCESS"
proof (cases rule: main_cmdline_cases [where b = b and env = env and args = args])
  case no_glib
  obtain out' rest where "funnel_of (main_cmdline b env args) = Some out'"
    "events out' = [Call Chassis_frontend_init_glib] @ rest"
    "Call Chassis_frontend_print_plugin_versions \<notin> set rest"
    unfolding no_glib(2) using exit_nicely_result by blast
  with assms show ?thesis by auto
next
  case no_chassis
  obtain out' rest where "funnel_of (main_cmdline b env args) = Some out'"
    "events out' = [Call Chassis_frontend_init_glib, Call Chassis_log_new, Call Chassis_new] @ rest"
    "Call Chassis_frontend_print_plugin_versions \<notin> set rest"
    unfolding no_chassis(3) using exit_nicely_result by blast
  with assms show ?thesis by auto
next
  case (staged srv0 st)
  have start: "unversioned (initial_state b srv0 args)"
    by (simp add: initial_state_def unversioned_def)
  have run: "case run_stages (early_stages b env @ late_stages b env (late env))
               (initial_state b srv0 args) of
          Next st' \<Rightarrow> unversioned st' | Goto_exit st' \<Rightarrow> versioned_exit st'
        | Abnormal st' \<Rightarrow> True"
    using all_stages_unversioned start by (rule stage_specD)
  with staged(3) have exit: "versioned_exit st"
    by (auto simp add: versioned_exit_def unversioned_def)
  obtain out' rest where out': "funnel_of (main_cmdline b env args) = Some out'"
    "final_code out' = exit_code st" "events out' = trace st @ rest"
    "Call Chassis_frontend_print_plugin_versions \<notin> set rest"
    unfolding staged(4) using exit_nicely_result by blast
  with assms have "out' = out" by simp
  with out' assms(2) exit show ?thesis
    by (auto simp add: versioned_exit_def)
qed

lemma linked_simps [simp]:
  "linked (st \<lparr> frontend := f \<rparr>) = linked st"
  "linked (st \<lparr> srv := s \<rparr>) = linked st"
  "linked (st \<lparr> opts := p \<rparr>) = linked st"
  "linked (st \<lparr> gerr := g \<rparr>) = linked st"
  "linked (st \<lparr> the_log := l \<rparr>) = linked st"
  "linked (st \<lparr> argv := a \<rparr>) = linked st"
  "linked (st \<lparr> exit_code := c \<rparr>) = linked st"
  "linked (st \<lparr> exit_location := n \<rparr>) = linked st"
  "e \<noteq> Call Init_slow_query_log \<Longrightarrow> linked (emit e st) = linked st"
  "linked (st \<lparr> trace := tr \<rparr>) = (opened st \<longleftrightarrow> Call Init_slow_query_log \<in> set tr)"
  by (auto simp add: linked_def emit_def opened_def)

lemma config_stages_linked:
  "stage \<in> set (config_stages env) \<Longrightarrow> stage_spec True linked stage linked linked"
  unfolding config_stages_def
  by (auto simp add: stage_spec_def GOTO_EXIT_def Let_def log_defs
        init_base_options_def open_config_file_def print_main_version_def new_options_def
        parse_cmdline_lenient_def keyfile_to_options_def remote_config_def init_basedir_def
      split: sum.splits option.splits prod.splits)

lemma open_log_file_linked:
  "stage_spec True linked (open_log_file env) linked linked"
  by (auto simp add: stage_spec_def GOTO_EXIT_def Let_def log_defs open_log_file_def
        linked_def opened_def
      split: option.splits)

lemma plugin_stages_linked:
  "stage \<in> set (install_sigsegv_handler b env # plugin_stages b env) \<Longrightarrow>
   stage_spec True linked stage linked linked"
  unfolding plugin_stages_def
  using open_log_file_linked [of env]
  by (auto simp add: stage_spec_def GOTO_EXIT_def Let_def log_defs
        install_sigsegv_handler_def resolve_directories_def
        set_log_level_def init_network_def select_default_plugins_def load_plugins_def
        init_plugins_def
      split: sum.splits option.splits prod.splits)

lemma startup_stages_linked:
  "stage \<in> set (startup_stages b env) \<Longrightarrow> stage_spec True linked stage linked linked"
  unfolding startup_stages_def
  by (auto simp add: stage_spec_def GOTO_EXIT_def Let_def log_defs
        print_plugin_versions_def parse_cmdline_strict_def check_no_arguments_left_def
        daemonize_def keepalive_def
      split: sum.splits option.splits prod.splits list.splits keepalive_result.splits
        result.splits)

lemma late_stages_linked:
  "stage \<in> set (late_stages b env lenv) \<Longrightarrow> stage_spec True linked stage linked linked"
  unfolding late_stages_def
  by (auto simp add: stage_spec_def GOTO_EXIT_def Let_def log_defs
        write_pidfile_def log_plugin_versions_def check_plugin_mode_def
        check_default_username_def run_init_parameters_def open_xa_log_def set_fdlimit_def
        run_mainloop_def linked_def opened_def
      dest: check_plugin_mode_valid_no_call init_parameters_no_call
      split: option.splits prod.splits if_splits)

lemma all_stages_linked:
  "stage_spec True linked (run_stages (early_stages b env @ late_stages b env lenv))
     linked linked"
proof (rule run_stages_invariant)
  fix stage
  assume "stage \<in> set (early_stages b env @ late_stages b env lenv)"
  then consider "stage \<in> set (config_stages env)"
    | "stage \<in> set (install_sigsegv_handler b env # plugin_stages b env)"
    | "stage \<in> set (startup_stages b env)" | "stage \<in> set (late_stages b env lenv)"
    by (auto simp add: early_stages_def)
  then show "stage_spec True linked stage linked linked"
    by cases (rule config_stages_linked plugin_stages_linked
                startup_stages_linked late_stages_linked, assumption)+
qed

text \<open>
  A run returns exactly when it has passed line 787, the call of
  \<^verbatim>\<open>init_slow_query_log\<close>; a run that jumps to the funnel from an earlier line ends at
  line 1015.
\<close>

lemma main_cmdline_returns:
  assumes "funnel_of (main_cmdline b env args) = Some out"
  shows "main_cmdline b env args = Exited out
           \<longleftrightarrow> Call Init_slow_query_log \<in> set (events out)"
proof (cases rule: main_cmdline_cases [where b = b and env = env and args = args])
  case no_glib
  obtain out' rest where "funnel_of (main_cmdline b env args) = Some out'"
    "events out' = [Call Chassis_frontend_init_glib] @ rest"
    "Call Init_slow_query_log \<notin> set rest"
    "main_cmdline b env args = Exited out' \<longleftrightarrow> Indeterminate \<noteq> Indeterminate"
    unfolding no_glib(2) using exit_nicely_result by blast
  with assms show ?thesis by auto
next
  case no_chassis
  obtain out' rest where "funnel_of (main_cmdline b env args) = Some out'"
    "events out' = [Call Chassis_frontend_init_glib, Call Chassis_log_new, Call Chassis_new] @ rest"
    "Call Init_slow_query_log \<notin> set rest"
    "main_cmdline b env args = Exited out' \<longleftrightarrow> Indeterminate \<noteq> Indeterminate"
    unfolding no_chassis(3) using exit_nicely_result by blast
  with assms show ?thesis by auto
next
  case (staged srv0 st)
  have start: "linked (initial_state b srv0 args)"
    by (simp add: initial_state_def linked_def opened_def)
  have run: "case run_stages (early_stages b env @ late_stages b env (late env))
               (initial_state b srv0 args) of
          Next st' \<Rightarrow> linked st' | Goto_exit st' \<Rightarrow> linked st' | Abnormal st' \<Rightarrow> True"
    using all_stages_linked start by (rule stage_specD)
  with staged(3) have link: "linked st" by auto
  obtain out' rest where out': "funnel_of (main_cmdline b env args) = Some out'"
    "events out' = trace st @ rest" "Call Init_slow_query_log \<notin> set rest"
    "main_cmdline b env args = Exited out' \<longleftrightarrow> slow_query_log_fp st \<noteq> Indeterminate"
    unfolding staged(4) using exit_nicely_result by blast
  with assms have "out' = out" by simp
  with out' link show ?thesis
    by (auto simp add: linked_def opened_def)
qed

subsection \<open>Runs that cannot start the service\<close>

text \<open>
  A run whose resolved default username is \<^verbatim>\<open>NULL\<close> never calls \<^verbatim>\<open>init_parameters\<close> or
  \<^verbatim>\<open>chassis_mainloop\<close>; unless it leaves through the version exit, it carries
  \<^verbatim>\<open>EXIT_FAILURE\<close> into the funnel, and it returns that value when it has passed line 787.
  This holds for the keepalive supervisor as well: its child ran the same checks.
\<close>

lemma missing_default_username_checked:
  "\<exists>out. funnel_of (main_cmdline b env args) = Some out
     \<and> Call Chassis_set_shutdown_location \<in> set (events out)
     \<and> Call Release_resouces_when_exit \<in> set (events out)
     \<and> (main_cmdline b env args = Exited out
          \<longleftrightarrow> Call Init_slow_query_log \<in> set (events out))
     \<and> (\<forall>f. resolved out = Some f \<and> default_username f = None
              \<and> Call Chassis_frontend_print_plugin_versions \<notin> set (events out) \<longrightarrow>
           final_code out = EXIT_FAILURE
           \<and> final_code out \<noteq> 0
           \<and> Call Init_parameters \<notin> set (events out)
           \<and> Call Chassis_mainloop \<notin> set (events out))"
proof -
  obtain out where out: "funnel_of (main_cmdline b env args) = Some out"
    using main_cmdline_funnel by blast
  have j: "judged (main_cmdline b env args)"
    by (rule main_cmdline_judged)
  have "\<forall>f. resolved out = Some f \<and> default_username f = None
              \<and> Call Chassis_frontend_print_plugin_versions \<notin> set (events out) \<longrightarrow>
           final_code out = EXIT_FAILURE \<and> final_code out \<noteq> 0
           \<and> Call Init_parameters \<notin> set (events out)
           \<and> Call Chassis_mainloop \<notin> set (events out)"
    using j out
    by (cases "main_cmdline b env args")
       (auto simp add: judged_def doomed_def not_started_def EXIT_FAILURE_def
          took_version_exit_def)
  moreover have "Call Chassis_set_shutdown_location \<in> set (events out)
                 \<and> Call Release_resouces_when_exit \<in> set (events out)"
    using out
    by (cases rule: main_cmdline_cases [where b = b and env = env and args = args])
       (auto simp add: exit_nicely_def shutdown_funnel_def Let_def split: FILE_p.splits)
  ultimately show ?thesis
    using out main_cmdline_returns [OF out] by blast
qed

text \<open>
  Claim C10 describes what the code sets out to do, and the code does it on every run
  that has passed line 787. On the exits before that line the code misses it: with no
  default username and a configuration file that cannot be opened, the run jumps from
  line 693 to the funnel with \<^verbatim>\<open>exit_code = EXIT_FAILURE\<close>, logs the terminal line and
  releases its resources, and then reads \<^verbatim>\<open>slow_query_log_fp\<close> at line 1015, whose
  initializer at line 787 the jump has skipped: the run has no defined behaviour from
  there and no exit status can be stated for it.
\<close>

theorem missing_default_username_early_exit:
  "status_of (main_cmdline example_build missing_config_env
                [''cetus'', ''--defaults-file=/etc/cetus.conf'']) = None
   \<and> map_option final_code
        (funnel_of (main_cmdline example_build missing_config_env
                      [''cetus'', ''--defaults-file=/etc/cetus.conf''])) = Some EXIT_FAILURE
   \<and> map_option shutdown_location
        (funnel_of (main_cmdline example_build missing_config_env
                      [''cetus'', ''--defaults-file=/etc/cetus.conf''])) = Some 693
   \<and> map_option default_username
        (frontend_of (main_cmdline example_build missing_config_env
                        [''cetus'', ''--defaults-file=/etc/cetus.conf''])) = Some None
   \<and> map_option print_version
        (frontend_of (main_cmdline example_build missing_config_env
                        [''cetus'', ''--defaults-file=/etc/cetus.conf''])) = Some 0
   \<and> Call Init_slow_query_log
        \<notin> set (events_of (main_cmdline example_build missing_config_env
                             [''cetus'', ''--defaults-file=/etc/cetus.conf'']))
   \<and> Call Chassis_frontend_print_plugin_versions
        \<notin> set (events_of (main_cmdline example_build missing_config_env
                             [''cetus'', ''--defaults-file=/etc/cetus.conf'']))
   \<and> Call Release_resouces_when_exit
        \<in> set (events_of (main_cmdline example_build missing_config_env
                             [''cetus'', ''--defaults-file=/etc/cetus.conf'']))"
  by code_simp

text \<open>
  Claim C1, as the code has it. When the resolved plugin list contains both \<open>shard\<close> and
  \<open>proxy\<close>, the run never calls \<^verbatim>\<open>init_parameters\<close> or \<^verbatim>\<open>chassis_mainloop\<close>. A run that prints
  the plugin versions at line 856 returns \<^verbatim>\<open>EXIT_SUCCESS\<close> without running the mode check or
  logging a conflict; every other run carries \<^verbatim>\<open>EXIT_FAILURE\<close> into the funnel, and returns
  it when it has passed line 787. The conflict is found by \<^verbatim>\<open>check_plugin_mode_valid\<close>,
  which runs after \<^verbatim>\<open>chassis_frontend_init_plugins\<close> has returned and after the strict parse
  pass: a run that gets to the check has called the plugin initialization and then the
  parser before it, logs the critical line after it and returns \<^verbatim>\<open>EXIT_FAILURE\<close>.
\<close>

theorem mode_conflict_detected_late:
  "\<exists>out. funnel_of (main_cmdline b env args) = Some out
     \<and> (\<forall>f. resolved out = Some f \<and> both_modes f \<longrightarrow>
           Call Init_parameters \<notin> set (events out)
           \<and> Call Chassis_mainloop \<notin> set (events out)
           \<and> (if Call Chassis_frontend_print_plugin_versions \<in> set (events out)
              then took_version_exit (main_cmdline b env args)
              else final_code out = EXIT_FAILURE \<and> final_code out \<noteq> 0)
           \<and> (Call Init_slow_query_log \<in> set (events out) \<longrightarrow>
                main_cmdline b env args = Exited out)
           \<and> (Call Check_plugin_mode_valid \<in> set (events out) \<longrightarrow>
                main_cmdline b env args = Exited out
                \<and> final_code out = EXIT_FAILURE
                \<and> ordered (events out)))"
proof -
  obtain out where out: "funnel_of (main_cmdline b env args) = Some out"
    using main_cmdline_funnel by blast
  have j: "judged (main_cmdline b env args)"
    by (rule main_cmdline_judged)
  have v: "Call Chassis_frontend_print_plugin_versions \<in> set (events out) \<Longrightarrow>
           final_code out = EXIT_SUCCESS"
    using main_cmdline_versioned [OF out] .
  have "\<forall>f. resolved out = Some f \<and> both_modes f \<longrightarrow>
           Call Init_parameters \<notin> set (events out)
           \<and> Call Chassis_mainloop \<notin> set (events out)
           \<and> (if Call Chassis_frontend_print_plugin_versions \<in> set (events out)
              then took_version_exit (main_cmdline b env args)
              else final_code out = EXIT_FAILURE \<and> final_code out \<noteq> 0)
           \<and> (Call Check_plugin_mode_valid \<in> set (events out) \<longrightarrow>
                main_cmdline b env args = Exited out
                \<and> final_code out = EXIT_FAILURE
                \<and> ordered (events out))"
    using j out v
    by (cases "main_cmdline b env args")
       (auto simp add: judged_def doomed_def not_started_def EXIT_FAILURE_def
          EXIT_SUCCESS_def took_version_exit_def)
  with out main_cmdline_returns [OF out] show ?thesis by blast
qed

theorem mode_conflict_detected_late_witness:
  "status_of (main_cmdline example_build conflict_env [''cetus'']) = Some EXIT_FAILURE
   \<and> map_option both_modes (frontend_of (main_cmdline example_build conflict_env [''cetus'']))
       = Some True
   \<and> Call Chassis_mainloop \<notin> set (events_of (main_cmdline example_build conflict_env [''cetus'']))
   \<and> ordered (events_of (main_cmdline example_build conflict_env [''cetus'']))
   \<and> map_option both_modes (frontend_of (main_cmdline example_build version_env [''cetus'']))
       = Some True
   \<and> took_version_exit (main_cmdline example_build version_env [''cetus''])"
proof -
  have cfg: "map_option both_modes
               (frontend_of (main_cmdline example_build conflict_env [''cetus''])) = Some True"
            "Call Check_plugin_mode_valid
               \<in> set (events_of (main_cmdline example_build conflict_env [''cetus'']))"
    by code_simp+
  have ver: "map_option both_modes
               (frontend_of (main_cmdline example_build version_env [''cetus''])) = Some True"
            "Call Chassis_frontend_print_plugin_versions
               \<in> set (events_of (main_cmdline example_build version_env [''cetus'']))"
    by code_simp+
  obtain out where out: "funnel_of (main_cmdline example_build conflict_env [''cetus'']) = Some out"
    and concl: "\<forall>f. resolved out = Some f \<and> both_modes f \<longrightarrow>
           Call Init_parameters \<notin> set (events out)
           \<and> Call Chassis_mainloop \<notin> set (events out)
           \<and> (if Call Chassis_frontend_print_plugin_versions \<in> set (events out)
              then took_version_exit (main_cmdline example_build conflict_env [''cetus''])
              else final_code out = EXIT_FAILURE \<and> final_code out \<noteq> 0)
           \<and> (Call Init_slow_query_log \<in> set (events out) \<longrightarrow>
                main_cmdline example_build conflict_env [''cetus''] = Exited out)
           \<and> (Call Check_plugin_mode_valid \<in> set (events out) \<longrightarrow>
                main_cmdline example_build conflict_env [''cetus''] = Exited out
                \<and> final_code out = EXIT_FAILURE
                \<and> ordered (events out))"
    using mode_conflict_detected_late [of example_build conflict_env "[''cetus'']"] by blast
  from cfg out obtain f where f: "resolved out = Some f" "both_modes f"
    by (cases "main_cmdline example_build conflict_env [''cetus'']") auto
  from cfg(2) out have "Call Check_plugin_mode_valid \<in> set (events out)"
    by (cases "main_cmdline example_build conflict_env [''cetus'']") auto
  with concl f have 1: "main_cmdline example_build conflict_env [''cetus''] = Exited out"
    "final_code out = EXIT_FAILURE" "ordered (events out)"
    "Call Chassis_mainloop \<notin> set (events out)"
    by blast+
  obtain out2 where out2: "funnel_of (main_cmdline example_build version_env [''cetus'']) = Some out2"
    and concl2: "\<forall>f. resolved out2 = Some f \<and> both_modes f \<longrightarrow>
           (if Call Chassis_frontend_print_plugin_versions \<in> set (events out2)
              then took_version_exit (main_cmdline example_build version_env [''cetus''])
              else final_code out2 = EXIT_FAILURE \<and> final_code out2 \<noteq> 0)"
    using mode_conflict_detected_late [of example_build version_env "[''cetus'']"] by blast
  from ver out2 obtain f2 where f2: "resolved out2 = Some f2" "both_modes f2"
    by (cases "main_cmdline example_build version_env [''cetus'']") auto
  from ver(2) out2 have "Call Chassis_frontend_print_plugin_versions \<in> set (events out2)"
    by (cases "main_cmdline example_build version_env [''cetus'']") auto
  with concl2 f2 have 2: "took_version_exit (main_cmdline example_build version_env [''cetus''])"
    by auto
  from 1 2 cfg(1) ver(1) show ?thesis by simp
qed

text \<open>
  The claim as the specification words it fails on two runs with the plugins \<open>shard\<close> and
  \<open>proxy\<close>. With the version flag set, the run returns 0 and logs no conflict. Without it,
  the conflict is logged only after \<^verbatim>\<open>chassis_frontend_init_plugins\<close> has returned and the
  command line has been parsed a second time.
\<close>

theorem mode_conflict_not_before_plugin_init:
  "map_option plugin_names (frontend_of (main_cmdline example_build version_env [''cetus'']))
     = Some (Some [''shard'', ''proxy''])
   \<and> status_of (main_cmdline example_build version_env [''cetus'']) = Some 0
   \<and> mutual_exclusion_line \<notin> set (events_of (main_cmdline example_build version_env [''cetus'']))
   \<and> map_option plugin_names (frontend_of (main_cmdline example_build conflict_env [''cetus'']))
       = Some (Some [''shard'', ''proxy''])
   \<and> take 4 (drop 21 (events_of (main_cmdline example_build conflict_env [''cetus''])))
       = [Call Chassis_frontend_init_plugins, Call Chassis_options_parse_cmdline,
          Sigaction SIGPIPE SIG_IGN, Call Chassis_frontend_log_plugin_versions]
   \<and> take 3 (drop 25 (events_of (main_cmdline example_build conflict_env [''cetus''])))
       = [Call Check_plugin_mode_valid, g_message ''set sharding mode true'' [],
          mutual_exclusion_line]"
  by code_simp

subsection \<open>The terminal log line\<close>

lemma silent_simps [simp]:
  "silent (emit e st) = (silent st \<and> \<not> is_shutdown_line e)"
  "silent (st \<lparr> frontend := f \<rparr>) = silent st"
  "silent (st \<lparr> srv := s \<rparr>) = silent st"
  "silent (st \<lparr> opts := p \<rparr>) = silent st"
  "silent (st \<lparr> gerr := g \<rparr>) = silent st"
  "silent (st \<lparr> the_log := l \<rparr>) = silent st"
  "silent (st \<lparr> argv := a \<rparr>) = silent st"
  "silent (st \<lparr> exit_code := c \<rparr>) = silent st"
  "silent (st \<lparr> exit_location := n \<rparr>) = silent st"
  "silent (st \<lparr> slow_query_log_fp := q \<rparr>) = silent st"
  "silent (st \<lparr> trace := tr \<rparr>) = (filter is_shutdown_line tr = [])"
  by (simp_all add: silent_def emit_def)

lemma silent_logs:
  "silent st \<Longrightarrow> filter is_shutdown_line out = [] \<Longrightarrow> silent (st \<lparr> trace := trace st @ out \<rparr>)"
  by (simp add: silent_def)

lemma plugin_mode_loop_silent:
  "filter is_shutdown_line out = [] \<Longrightarrow>
   filter is_shutdown_line (snd (snd (plugin_mode_loop names p s out))) = []"
  by (induction names arbitrary: p s out) (auto simp add: g_message_def)

lemma check_plugin_mode_valid_silent:
  "check_plugin_mode_valid names = (valid, out) \<Longrightarrow> filter is_shutdown_line out = []"
  using plugin_mode_loop_silent [of "[]" names 0 0]
  by (auto simp add: check_plugin_mode_valid_def g_critical_def split: prod.splits if_splits)

lemma init_parameters_silent:
  "init_parameters b f chas = (chas', out) \<Longrightarrow> filter is_shutdown_line out = []"
proof -
  have "filter is_shutdown_line (snd (init_parameters b f chas)) = []"
    by (simp add: init_parameters_def Let_def split_def g_message_def g_warning_def)
  then show "init_parameters b f chas = (chas', out) \<Longrightarrow> filter is_shutdown_line out = []"
    by simp
qed

lemma config_stages_silent:
  "stage \<in> set (config_stages env) \<Longrightarrow> stage_spec True silent stage silent silent"
  unfolding config_stages_def
  by (auto simp add: stage_spec_def GOTO_EXIT_def Let_def log_defs
        init_base_options_def open_config_file_def print_main_version_def new_options_def
        parse_cmdline_lenient_def keyfile_to_options_def remote_config_def init_basedir_def
      split: sum.splits option.splits prod.splits)

lemma plugin_stages_silent:
  "stage \<in> set (install_sigsegv_handler b env # plugin_stages b env)
   \<Longrightarrow> stage_spec True silent stage silent silent"
  unfolding plugin_stages_def
  by (auto simp add: stage_spec_def GOTO_EXIT_def Let_def log_defs
        install_sigsegv_handler_def resolve_directories_def open_log_file_def
        set_log_level_def init_network_def select_default_plugins_def load_plugins_def
        init_plugins_def
      split: sum.splits option.splits prod.splits)

lemma startup_stages_silent:
  "stage \<in> set (startup_stages b env) \<Longrightarrow> stage_spec True silent stage silent silent"
  unfolding startup_stages_def
  by (auto simp add: stage_spec_def GOTO_EXIT_def Let_def log_defs
        print_plugin_versions_def parse_cmdline_strict_def check_no_arguments_left_def
        daemonize_def keepalive_def
      split: sum.splits option.splits prod.splits list.splits keepalive_result.splits
        result.splits)

lemma late_stages_silent:
  "stage \<in> set (late_stages b env lenv) \<Longrightarrow> stage_spec True silent stage silent silent"
  unfolding late_stages_def
  by (auto simp add: stage_spec_def GOTO_EXIT_def Let_def log_defs
        write_pidfile_def log_plugin_versions_def check_plugin_mode_def
        check_default_username_def run_init_parameters_def open_xa_log_def set_fdlimit_def
        run_mainloop_def silent_def
      dest: check_plugin_mode_valid_silent init_parameters_silent
      split: option.splits prod.splits)

lemma all_stages_silent:
  "stage_spec True silent (run_stages (early_stages b env @ late_stages b env lenv)) silent silent"
proof (rule run_stages_invariant)
  fix stage
  assume "stage \<in> set (early_stages b env @ late_stages b env lenv)"
  then consider "stage \<in> set (config_stages env)"
    | "stage \<in> set (install_sigsegv_handler b env # plugin_stages b env)"
    | "stage \<in> set (startup_stages b env)" | "stage \<in> set (late_stages b env lenv)"
    by (auto simp add: early_stages_def)
  then show "stage_spec True silent stage silent silent"
    by cases (rule config_stages_silent plugin_stages_silent startup_stages_silent
                late_stages_silent, assumption)+
qed

lemma shutdown_funnel_shutdown_line:
  "filter is_shutdown_line tr = [] \<Longrightarrow>
   filter is_shutdown_line (events (shutdown_funnel b env lenv fp code loc tr)) =
     (case fp of
        None \<Rightarrow> []
      | Some f \<Rightarrow>
          if print_version f = 0
          then [G_log (if verbose_shutdown f \<noteq> 0 then G_LOG_LEVEL_CRITICAL
                       else G_LOG_LEVEL_MESSAGE)
                  ''shutting down normally, exit code is: %d'' [I code]]
          else [])"
  by (simp add: shutdown_funnel_def Let_def release_resouces_when_exit_def log_defs
      split: option.splits)

lemma exit_nicely_shutdown_line:
  assumes "filter is_shutdown_line tr = []"
    and "funnel_of (exit_nicely b env lenv p fp code loc tr) = Some out"
  shows "filter is_shutdown_line (events out) =
     (case resolved out of
        None \<Rightarrow> []
      | Some f \<Rightarrow>
          if print_version f = 0
          then [G_log (if verbose_shutdown f \<noteq> 0 then G_LOG_LEVEL_CRITICAL
                       else G_LOG_LEVEL_MESSAGE)
                  ''shutting down normally, exit code is: %d'' [I (final_code out)]]
          else [])"
proof -
  from exit_nicely_funnel_of [OF assms(2)]
  have "resolved out = p" "final_code out = code"
    "filter is_shutdown_line (events out)
       = filter is_shutdown_line (events (shutdown_funnel b env lenv p code loc tr))"
    by simp_all
  with shutdown_funnel_shutdown_line [OF assms(1), of b env lenv p code loc] show ?thesis
    by (auto split: option.splits)
qed

text \<open>
  Claim C7, as the code has it. Every run gets to the exit funnel. When the frontend
  exists and its version flag is not set, the run logs exactly one line
  \<^verbatim>\<open>shutting down normally, exit code is: %d\<close> with the value of \<^verbatim>\<open>exit_code\<close>, which is the
  value it returns when it returns, at critical level when \<^verbatim>\<open>verbose_shutdown\<close> is set and
  at message level otherwise. It logs no such line when the version flag is set, and none
  when the frontend pointer is still \<^verbatim>\<open>NULL\<close> (the failures of
  \<^verbatim>\<open>chassis_frontend_init_glib\<close> and \<^verbatim>\<open>chassis_new\<close>).
\<close>

theorem shutdown_line_when_frontend_exists:
  "\<exists>out. funnel_of (main_cmdline b env args) = Some out
     \<and> (main_cmdline b env args = Exited out \<or> main_cmdline b env args = Undefined_at_fclose out)
     \<and> (resolved out = None \<longrightarrow> filter is_shutdown_line (events out) = [])
     \<and> (\<forall>f. resolved out = Some f \<longrightarrow>
           (print_version f = 0 \<and> verbose_shutdown f \<noteq> 0 \<longrightarrow>
              filter is_shutdown_line (events out) =
                [G_log G_LOG_LEVEL_CRITICAL ''shutting down normally, exit code is: %d''
                   [I (final_code out)]])
           \<and> (print_version f = 0 \<and> verbose_shutdown f = 0 \<longrightarrow>
              filter is_shutdown_line (events out) =
                [G_log G_LOG_LEVEL_MESSAGE ''shutting down normally, exit code is: %d''
                   [I (final_code out)]])
           \<and> (print_version f \<noteq> 0 \<longrightarrow> filter is_shutdown_line (events out) = []))"
proof -
  obtain out where out: "funnel_of (main_cmdline b env args) = Some out"
    and ends: "main_cmdline b env args = Exited out
               \<or> main_cmdline b env args = Undefined_at_fclose out"
    using main_cmdline_funnel by blast
  have "filter is_shutdown_line (events out) =
     (case resolved out of
        None \<Rightarrow> []
      | Some f \<Rightarrow>
          if print_version f = 0
          then [G_log (if verbose_shutdown f \<noteq> 0 then G_LOG_LEVEL_CRITICAL
                       else G_LOG_LEVEL_MESSAGE)
                  ''shutting down normally, exit code is: %d'' [I (final_code out)]]
          else [])"
  proof (cases rule: main_cmdline_cases [where b = b and env = env and args = args])
    case no_glib
    show ?thesis
      by (rule exit_nicely_shutdown_line [OF _ out [unfolded no_glib(2)]]) simp
  next
    case no_chassis
    show ?thesis
      by (rule exit_nicely_shutdown_line [OF _ out [unfolded no_chassis(3)]]) simp
  next
    case (staged srv0 st)
    have start: "silent (initial_state b srv0 args)"
      by (simp add: initial_state_def silent_def)
    have "case run_stages (early_stages b env @ late_stages b env (late env))
                 (initial_state b srv0 args) of
            Next st' \<Rightarrow> silent st' | Goto_exit st' \<Rightarrow> silent st' | Abnormal st' \<Rightarrow> True"
      using all_stages_silent start by (rule stage_specD)
    with staged(3) have "filter is_shutdown_line (trace st) = []"
      by (auto simp add: silent_def)
    then show ?thesis
      by (rule exit_nicely_shutdown_line [OF _ out [unfolded staged(4)]])
  qed
  with out ends show ?thesis
    by (auto split: option.splits)
qed

subsection \<open>The installation of the crash handler\<close>

lemma armed_simps [simp]:
  "armed (emit e st) = (armed st \<or> e = Sigaction SIGSEGV Sigsegv_handler)"
  "armed (st \<lparr> frontend := f \<rparr>) = armed st"
  "armed (st \<lparr> srv := s \<rparr>) = armed st"
  "armed (st \<lparr> opts := p \<rparr>) = armed st"
  "armed (st \<lparr> gerr := g \<rparr>) = armed st"
  "armed (st \<lparr> the_log := l \<rparr>) = armed st"
  "armed (st \<lparr> argv := a \<rparr>) = armed st"
  "armed (st \<lparr> exit_code := c \<rparr>) = armed st"
  "armed (st \<lparr> exit_location := n \<rparr>) = armed st"
  "armed (st \<lparr> slow_query_log_fp := q \<rparr>) = armed st"
  "armed (st \<lparr> trace := tr \<rparr>) = (Sigaction SIGSEGV Sigsegv_handler \<in> set tr)"
  by (auto simp add: armed_def emit_def)

lemma logs_not_sigaction: "list_all is_log out \<Longrightarrow> Sigaction sig h \<notin> set out"
  by (auto simp add: list_all_iff)

lemma check_plugin_mode_valid_no_sigaction:
  "check_plugin_mode_valid names = (valid, out) \<Longrightarrow> Sigaction sig h \<notin> set out"
  using check_plugin_mode_valid_result(2) logs_not_sigaction by blast

lemma init_parameters_no_sigaction:
  "init_parameters b f chas = (chas', out) \<Longrightarrow> Sigaction sig h \<notin> set out"
  using init_parameters_logs logs_not_sigaction by blast

lemma config_stages_armed:
  "stage \<in> set (config_stages env) \<Longrightarrow>
   stage_spec True (\<lambda>st. armed st = c) stage (\<lambda>st. armed st = c) (\<lambda>st. armed st = c)"
  unfolding config_stages_def
  by (auto simp add: stage_spec_def GOTO_EXIT_def Let_def log_defs
        init_base_options_def open_config_file_def print_main_version_def new_options_def
        parse_cmdline_lenient_def keyfile_to_options_def remote_config_def init_basedir_def
      split: sum.splits option.splits prod.splits)

lemma plugin_stages_armed:
  "stage \<in> set (plugin_stages b env) \<Longrightarrow>
   stage_spec True (\<lambda>st. armed st = c) stage (\<lambda>st. armed st = c) (\<lambda>st. armed st = c)"
  unfolding plugin_stages_def
  by (auto simp add: stage_spec_def GOTO_EXIT_def Let_def log_defs
        resolve_directories_def open_log_file_def
        set_log_level_def init_network_def select_default_plugins_def load_plugins_def
        init_plugins_def
      split: sum.splits option.splits prod.splits)

lemma startup_stages_armed:
  "stage \<in> set (startup_stages b env) \<Longrightarrow>
   stage_spec True (\<lambda>st. armed st = c) stage (\<lambda>st. armed st = c) (\<lambda>st. armed st = c)"
  unfolding startup_stages_def
  by (auto simp add: stage_spec_def GOTO_EXIT_def Let_def log_defs
        print_plugin_versions_def parse_cmdline_strict_def check_no_arguments_left_def
        daemonize_def keepalive_def
      split: sum.splits option.splits prod.splits list.splits keepalive_result.splits
        result.splits)

lemma late_stages_armed:
  "stage \<in> set (late_stages b env lenv) \<Longrightarrow>
   stage_spec True (\<lambda>st. armed st = c) stage (\<lambda>st. armed st = c) (\<lambda>st. armed st = c)"
  unfolding late_stages_def
  by (auto simp add: stage_spec_def GOTO_EXIT_def Let_def log_defs
        write_pidfile_def log_plugin_versions_def check_plugin_mode_def
        check_default_username_def run_init_parameters_def open_xa_log_def set_fdlimit_def
        run_mainloop_def armed_def
      dest: check_plugin_mode_valid_no_sigaction init_parameters_no_sigaction
      split: option.splits prod.splits)

lemma later_stages_armed:
  "stage_spec True (\<lambda>st. armed st = c)
     (run_stages (plugin_stages b env @ startup_stages b env @ late_stages b env lenv))
     (\<lambda>st. armed st = c) (\<lambda>st. armed st = c)"
proof (rule run_stages_invariant)
  fix stage
  assume "stage \<in> set (plugin_stages b env @ startup_stages b env @ late_stages b env lenv)"
  then consider "stage \<in> set (plugin_stages b env)"
    | "stage \<in> set (startup_stages b env)" | "stage \<in> set (late_stages b env lenv)"
    by auto
  then show "stage_spec True (\<lambda>st. armed st = c) stage (\<lambda>st. armed st = c) (\<lambda>st. armed st = c)"
    by cases (rule plugin_stages_armed startup_stages_armed late_stages_armed, assumption)+
qed

lemma install_sigsegv_handler_result:
  "HAVE_SIGACTION b \<Longrightarrow>
   \<exists>st'. install_sigsegv_handler b env st = Next st'
     \<and> invoke_dbg_on_crash (frontend st') = 1
     \<and> trace st' = (if RUNNING_ON_VALGRIND env then trace st
                     else trace st @ [Sigaction SIGSEGV Sigsegv_handler])"
  by (simp add: install_sigsegv_handler_def Let_def)

lemma shutdown_funnel_armed:
  "Sigaction SIGSEGV Sigsegv_handler \<in> set (events (shutdown_funnel b env lenv fp code loc tr))
   \<longleftrightarrow> Sigaction SIGSEGV Sigsegv_handler \<in> set tr"
  by (simp add: shutdown_funnel_def Let_def release_resouces_when_exit_def log_defs
      split: option.splits)

lemma exit_nicely_armed:
  "funnel_of (exit_nicely b env lenv p fp code loc tr) = Some out \<Longrightarrow>
   Sigaction SIGSEGV Sigsegv_handler \<in> set (events out)
   \<longleftrightarrow> Sigaction SIGSEGV Sigsegv_handler \<in> set tr"
  using exit_nicely_funnel_of [of b env lenv p fp code loc tr out]
    shutdown_funnel_armed [of b env lenv p code loc tr]
  by auto

lemma finish_armed:
  "funnel_of (finish b env lenv r) = Some out \<Longrightarrow>
   (case r of Next st \<Rightarrow> armed st = c | Goto_exit st \<Rightarrow> armed st = c | Abnormal st \<Rightarrow> True) \<Longrightarrow>
   (Sigaction SIGSEGV Sigsegv_handler \<in> set (events out)) = c"
  by (cases r) (auto simp add: finish_def armed_def dest: exit_nicely_armed)

text \<open>
  Claim C9. In a build with \<^verbatim>\<open>HAVE_SIGACTION\<close>, the crash-handler stage sets
  \<^verbatim>\<open>invoke_dbg_on_crash\<close> to 1 whatever its value was, and installs the SIGSEGV handler
  unless the process runs under valgrind. So a run installs the handler exactly when it
  reaches that stage outside valgrind, whatever the configuration sources stored for
  \<^verbatim>\<open>--log-backtrace-on-crash\<close>.
\<close>

theorem sigsegv_handler_always_installed:
  assumes "HAVE_SIGACTION b"
  shows "(\<forall>st. \<exists>st'. install_sigsegv_handler b env st = Next st'
            \<and> invoke_dbg_on_crash (frontend st') = 1
            \<and> trace st' = (if RUNNING_ON_VALGRIND env then trace st
                            else trace st @ [Sigaction SIGSEGV Sigsegv_handler]))
         \<and> (\<exists>out. funnel_of (main_cmdline b env args) = Some out
               \<and> (Sigaction SIGSEGV Sigsegv_handler \<in> set (events out)
                    \<longleftrightarrow> reaches_crash_handler b env args \<and> \<not> RUNNING_ON_VALGRIND env))"
proof
  show "\<forall>st. \<exists>st'. install_sigsegv_handler b env st = Next st'
            \<and> invoke_dbg_on_crash (frontend st') = 1
            \<and> trace st' = (if RUNNING_ON_VALGRIND env then trace st
                            else trace st @ [Sigaction SIGSEGV Sigsegv_handler])"
    using assms by (simp add: install_sigsegv_handler_result)
next
  obtain out where out: "funnel_of (main_cmdline b env args) = Some out"
    using main_cmdline_funnel by blast
  have "Sigaction SIGSEGV Sigsegv_handler \<in> set (events out)
          \<longleftrightarrow> reaches_crash_handler b env args \<and> \<not> RUNNING_ON_VALGRIND env"
  proof (cases "chassis_frontend_init_glib_r env \<noteq> 0")
    case True
    with out show ?thesis
      by (auto simp add: main_cmdline_def reaches_crash_handler_def dest: exit_nicely_armed)
  next
    case False
    note glib = this
    show ?thesis
    proof (cases "chassis_new_r env")
      case None
      with glib out show ?thesis
        by (auto simp add: main_cmdline_def reaches_crash_handler_def dest: exit_nicely_armed)
    next
      case (Some srv0)
      let ?later = "plugin_stages b env @ startup_stages b env @ late_stages b env (late env)"
      have split: "early_stages b env @ late_stages b env (late env)
                   = config_stages env @ install_sigsegv_handler b env # ?later"
        by (simp add: early_stages_def)
      have start: "armed (initial_state b srv0 args) = False"
        by (simp add: initial_state_def armed_def)
      have "stage_spec True (\<lambda>st. armed st = False) (run_stages (config_stages env))
              (\<lambda>st. armed st = False) (\<lambda>st. armed st = False)"
        by (rule run_stages_invariant) (rule config_stages_armed)
      then have config: "case run_stages (config_stages env) (initial_state b srv0 args) of
              Next st' \<Rightarrow> armed st' = False | Goto_exit st' \<Rightarrow> armed st' = False
            | Abnormal st' \<Rightarrow> True"
        using start by (rule stage_specD)
      from out glib Some
      have fin: "funnel_of (finish b env (late env)
                   (run_stages (config_stages env @ install_sigsegv_handler b env # ?later)
                      (initial_state b srv0 args))) = Some out"
        by (simp add: main_cmdline_def split)
      show ?thesis
      proof (cases "run_stages (config_stages env) (initial_state b srv0 args)")
        case (Next s1)
        with config have quiet: "\<not> armed s1" by simp
        from install_sigsegv_handler_result [OF assms, of env s1]
        obtain s2 where s2: "install_sigsegv_handler b env s1 = Next s2"
          "trace s2 = (if RUNNING_ON_VALGRIND env then trace s1
                       else trace s1 @ [Sigaction SIGSEGV Sigsegv_handler])"
          by blast
        with quiet have a2: "armed s2 = (\<not> RUNNING_ON_VALGRIND env)"
          by (simp add: armed_def)
        have later: "case run_stages ?later s2 of
              Next st' \<Rightarrow> armed st' = (\<not> RUNNING_ON_VALGRIND env)
            | Goto_exit st' \<Rightarrow> armed st' = (\<not> RUNNING_ON_VALGRIND env)
            | Abnormal st' \<Rightarrow> True"
          using later_stages_armed a2 by (rule stage_specD)
        from fin Next s2
        have "funnel_of (finish b env (late env) (run_stages ?later s2)) = Some out"
          by (simp add: run_stages_append)
        from finish_armed [OF this later]
        have "(Sigaction SIGSEGV Sigsegv_handler \<in> set (events out))
                = (\<not> RUNNING_ON_VALGRIND env)" .
        with Next glib Some show ?thesis
          by (simp add: reaches_crash_handler_def)
      next
        case (Goto_exit s1)
        with config have quiet: "armed s1 = False" by simp
        from fin Goto_exit
        have "funnel_of (finish b env (late env) (Goto_exit s1)) = Some out"
          by (simp add: run_stages_append)
        from finish_armed [OF this, of False] quiet
        have "(Sigaction SIGSEGV Sigsegv_handler \<in> set (events out)) = False" by simp
        with Goto_exit glib Some show ?thesis
          by (simp add: reaches_crash_handler_def)
      next
        case (Abnormal s1)
        with fin show ?thesis
          by (simp add: run_stages_append finish_def)
      qed
    qed
  qed
  with out show "\<exists>out. funnel_of (main_cmdline b env args) = Some out
               \<and> (Sigaction SIGSEGV Sigsegv_handler \<in> set (events out)
                    \<longleftrightarrow> reaches_crash_handler b env args \<and> \<not> RUNNING_ON_VALGRIND env)"
    by blast
qed

subsection \<open>The default plugin\<close>

lemma store_cases:
  "store (Int_member iu) v f = (case v of Int_value x \<Rightarrow> iu (\<lambda>_. x) f | _ \<Rightarrow> f)"
  "store (String_member su) v f = (case v of String_value x \<Rightarrow> su (\<lambda>_. Some x) f | _ \<Rightarrow> f)"
  "store (Strv_member lu) v f = (case v of Strv_value x \<Rightarrow> lu (\<lambda>_. Some x) f | _ \<Rightarrow> f)"
  "store (Double_member du) v f = (case v of Double_value x \<Rightarrow> du (\<lambda>_. x) f | _ \<Rightarrow> f)"
  by (cases v; simp)+

lemma registry_other_options:
  "list_all (\<lambda>(name, arg, data). name = ''plugins'' \<or>
       (\<forall>v f. plugin_names (store data v f) = plugin_names f))
     chassis_frontend_set_chassis_options"
  unfolding chassis_frontend_set_chassis_options_def
  by (simp add: store_cases split: opt_value.splits)

lemma store_other_option:
  "(name, arg, data) \<in> set chassis_frontend_set_chassis_options \<Longrightarrow> name \<noteq> ''plugins'' \<Longrightarrow>
   plugin_names (store data v f) = plugin_names f"
  using registry_other_options by (auto simp add: list_all_iff)

lemma apply_stores_other_options:
  "''plugins'' \<notin> fst ` set stores \<Longrightarrow>
   plugin_names (apply_stores chassis_frontend_set_chassis_options stores f) = plugin_names f"
proof (induction stores arbitrary: f)
  case Nil
  then show ?case by simp
next
  case (Cons s stores)
  obtain name v where s: "s = (name, v)" by (cases s)
  with Cons.prems have name: "name \<noteq> ''plugins''" and rest: "''plugins'' \<notin> fst ` set stores"
    by auto
  show ?case
  proof (cases "find_option chassis_frontend_set_chassis_options name")
    case None
    with Cons.IH [OF rest] s show ?thesis by simp
  next
    case (Some data)
    then obtain arg where "(name, arg, data) \<in> set chassis_frontend_set_chassis_options"
      using find_option_registered by blast
    then have "plugin_names (store data v f) = plugin_names f"
      using name by (rule store_other_option)
    with Cons.IH [OF rest, of "store data v f"] Some s show ?thesis by simp
  qed
qed

lemma unconfigured_cmdline:
  "no_plugins_configured env \<Longrightarrow>
   chassis_options_parse_cmdline_r env lenient args = Inr (stores, rest) \<Longrightarrow>
   plugin_names (apply_stores chassis_frontend_set_chassis_options stores f) = plugin_names f"
  by (rule apply_stores_other_options) (auto simp add: no_plugins_configured_def)

lemma unconfigured_keyfile:
  "no_plugins_configured env \<Longrightarrow>
   chassis_keyfile_to_options_with_error_r env kf = Inr stores \<Longrightarrow>
   plugin_names (apply_stores chassis_frontend_set_chassis_options stores f) = plugin_names f"
  by (rule apply_stores_other_options) (auto simp add: no_plugins_configured_def)

lemma unconfigured_remote:
  "no_plugins_configured env \<Longrightarrow>
   chassis_config_parse_options_r env manager = Some stores \<Longrightarrow>
   plugin_names (apply_stores chassis_frontend_set_chassis_options stores f) = plugin_names f"
  by (rule apply_stores_other_options) (auto simp add: no_plugins_configured_def)

lemma keeps_unselected:
  "keeps_plugin_list stage \<Longrightarrow> stage_spec True unselected stage unselected unselected"
  unfolding keeps_plugin_list_def stage_spec_def unselected_def
proof (intro allI impI)
  fix st :: state
  assume keeps: "\<forall>st. case stage st of
        Next st' \<Rightarrow> plugin_names (frontend st') = plugin_names (frontend st)
          \<and> (Call Chassis_frontend_load_plugins \<in> set (trace st')
               \<longrightarrow> Call Chassis_frontend_load_plugins \<in> set (trace st))
      | Goto_exit st' \<Rightarrow> plugin_names (frontend st') = plugin_names (frontend st)
          \<and> (Call Chassis_frontend_load_plugins \<in> set (trace st')
               \<longrightarrow> Call Chassis_frontend_load_plugins \<in> set (trace st))
      | Abnormal st' \<Rightarrow> True"
    and pre: "plugin_names (frontend st) = None
              \<and> Call Chassis_frontend_load_plugins \<notin> set (trace st)"
  from keeps have "case stage st of
        Next st' \<Rightarrow> plugin_names (frontend st') = plugin_names (frontend st)
          \<and> (Call Chassis_frontend_load_plugins \<in> set (trace st')
               \<longrightarrow> Call Chassis_frontend_load_plugins \<in> set (trace st))
      | Goto_exit st' \<Rightarrow> plugin_names (frontend st') = plugin_names (frontend st)
          \<and> (Call Chassis_frontend_load_plugins \<in> set (trace st')
               \<longrightarrow> Call Chassis_frontend_load_plugins \<in> set (trace st))
      | Abnormal st' \<Rightarrow> True" ..
  with pre show "case stage st of
        Next st' \<Rightarrow> plugin_names (frontend st') = None
          \<and> Call Chassis_frontend_load_plugins \<notin> set (trace st')
      | Goto_exit st' \<Rightarrow> plugin_names (frontend st') = None
          \<and> Call Chassis_frontend_load_plugins \<notin> set (trace st')
      | Abnormal st' \<Rightarrow> True"
    by (cases "stage st") auto
qed

lemma keeps_selected:
  "keeps_plugin_list stage \<Longrightarrow> stage_spec True (selected b) stage (selected b) (selected b)"
  unfolding keeps_plugin_list_def stage_spec_def selected_def
proof (intro allI impI)
  fix st :: state
  assume keeps: "\<forall>st. case stage st of
        Next st' \<Rightarrow> plugin_names (frontend st') = plugin_names (frontend st)
          \<and> (Call Chassis_frontend_load_plugins \<in> set (trace st')
               \<longrightarrow> Call Chassis_frontend_load_plugins \<in> set (trace st))
      | Goto_exit st' \<Rightarrow> plugin_names (frontend st') = plugin_names (frontend st)
          \<and> (Call Chassis_frontend_load_plugins \<in> set (trace st')
               \<longrightarrow> Call Chassis_frontend_load_plugins \<in> set (trace st))
      | Abnormal st' \<Rightarrow> True"
    and pre: "plugin_names (frontend st) = Some [built_in_plugin b]"
  from keeps have "case stage st of
        Next st' \<Rightarrow> plugin_names (frontend st') = plugin_names (frontend st)
          \<and> (Call Chassis_frontend_load_plugins \<in> set (trace st')
               \<longrightarrow> Call Chassis_frontend_load_plugins \<in> set (trace st))
      | Goto_exit st' \<Rightarrow> plugin_names (frontend st') = plugin_names (frontend st)
          \<and> (Call Chassis_frontend_load_plugins \<in> set (trace st')
               \<longrightarrow> Call Chassis_frontend_load_plugins \<in> set (trace st))
      | Abnormal st' \<Rightarrow> True" ..
  with pre show "case stage st of
        Next st' \<Rightarrow> plugin_names (frontend st') = Some [built_in_plugin b]
      | Goto_exit st' \<Rightarrow> plugin_names (frontend st') = Some [built_in_plugin b]
      | Abnormal st' \<Rightarrow> True"
    by (cases "stage st") auto
qed

lemma parse_cmdline_lenient_keeps:
  assumes "no_plugins_configured env"
  shows "keeps_plugin_list (parse_cmdline_lenient env)"
  unfolding keeps_plugin_list_def
proof
  fix st
  show "case parse_cmdline_lenient env st of
        Next st' \<Rightarrow> plugin_names (frontend st') = plugin_names (frontend st)
          \<and> (Call Chassis_frontend_load_plugins \<in> set (trace st')
               \<longrightarrow> Call Chassis_frontend_load_plugins \<in> set (trace st))
      | Goto_exit st' \<Rightarrow> plugin_names (frontend st') = plugin_names (frontend st)
          \<and> (Call Chassis_frontend_load_plugins \<in> set (trace st')
               \<longrightarrow> Call Chassis_frontend_load_plugins \<in> set (trace st))
      | Abnormal st' \<Rightarrow> True"
  proof (cases "chassis_options_parse_cmdline_r env True (argv st)")
    case (Inl e)
    then show ?thesis
      by (simp add: parse_cmdline_lenient_def Let_def GOTO_EXIT_def log_defs)
  next
    case (Inr r)
    obtain stores rest where r: "r = (stores, rest)" by (cases r)
    with Inr have "chassis_options_parse_cmdline_r env True (argv st) = Inr (stores, rest)"
      by simp
    from unconfigured_cmdline [OF assms this] Inr r show ?thesis
      by (simp add: parse_cmdline_lenient_def Let_def)
  qed
qed

lemma parse_cmdline_strict_keeps:
  assumes "no_plugins_configured env"
  shows "keeps_plugin_list (parse_cmdline_strict env)"
  unfolding keeps_plugin_list_def
proof
  fix st
  show "case parse_cmdline_strict env st of
        Next st' \<Rightarrow> plugin_names (frontend st') = plugin_names (frontend st)
          \<and> (Call Chassis_frontend_load_plugins \<in> set (trace st')
               \<longrightarrow> Call Chassis_frontend_load_plugins \<in> set (trace st))
      | Goto_exit st' \<Rightarrow> plugin_names (frontend st') = plugin_names (frontend st)
          \<and> (Call Chassis_frontend_load_plugins \<in> set (trace st')
               \<longrightarrow> Call Chassis_frontend_load_plugins \<in> set (trace st))
      | Abnormal st' \<Rightarrow> True"
  proof (cases "chassis_options_parse_cmdline_r env False (argv st)")
    case (Inl e)
    then show ?thesis
      by (simp add: parse_cmdline_strict_def Let_def GOTO_EXIT_def log_defs)
  next
    case (Inr r)
    obtain stores rest where r: "r = (stores, rest)" by (cases r)
    with Inr have "chassis_options_parse_cmdline_r env False (argv st) = Inr (stores, rest)"
      by simp
    from unconfigured_cmdline [OF assms this] Inr r show ?thesis
      by (simp add: parse_cmdline_strict_def Let_def)
  qed
qed

lemma keyfile_to_options_keeps:
  assumes "no_plugins_configured env"
  shows "keeps_plugin_list (keyfile_to_options env)"
  unfolding keeps_plugin_list_def
proof
  fix st
  show "case keyfile_to_options env st of
        Next st' \<Rightarrow> plugin_names (frontend st') = plugin_names (frontend st)
          \<and> (Call Chassis_frontend_load_plugins \<in> set (trace st')
               \<longrightarrow> Call Chassis_frontend_load_plugins \<in> set (trace st))
      | Goto_exit st' \<Rightarrow> plugin_names (frontend st') = plugin_names (frontend st)
          \<and> (Call Chassis_frontend_load_plugins \<in> set (trace st')
               \<longrightarrow> Call Chassis_frontend_load_plugins \<in> set (trace st))
      | Abnormal st' \<Rightarrow> True"
  proof (cases "keyfile (frontend st)")
    case None
    then show ?thesis by (simp add: keyfile_to_options_def)
  next
    case (Some kf)
    show ?thesis
    proof (cases "chassis_keyfile_to_options_with_error_r env kf")
      case (Inl e)
      with Some show ?thesis
        by (simp add: keyfile_to_options_def Let_def GOTO_EXIT_def log_defs)
    next
      case (Inr stores)
      from unconfigured_keyfile [OF assms this] Some Inr show ?thesis
        by (simp add: keyfile_to_options_def Let_def)
    qed
  qed
qed

lemma remote_config_keeps:
  assumes "no_plugins_configured env"
  shows "keeps_plugin_list (remote_config env)"
  unfolding keeps_plugin_list_def
proof
  fix st
  show "case remote_config env st of
        Next st' \<Rightarrow> plugin_names (frontend st') = plugin_names (frontend st)
          \<and> (Call Chassis_frontend_load_plugins \<in> set (trace st')
               \<longrightarrow> Call Chassis_frontend_load_plugins \<in> set (trace st))
      | Goto_exit st' \<Rightarrow> plugin_names (frontend st') = plugin_names (frontend st)
          \<and> (Call Chassis_frontend_load_plugins \<in> set (trace st')
               \<longrightarrow> Call Chassis_frontend_load_plugins \<in> set (trace st))
      | Abnormal st' \<Rightarrow> True"
  proof (cases "remote_config_url (frontend st)")
    case None
    then show ?thesis by (simp add: remote_config_def)
  next
    case (Some url)
    show ?thesis
    proof (cases "chassis_config_from_url_r env url")
      case None
      with Some show ?thesis
        by (simp add: remote_config_def Let_def GOTO_EXIT_def log_defs)
    next
      case manager: (Some manager)
      show ?thesis
      proof (cases "chassis_config_parse_options_r env manager")
        case None
        with Some manager show ?thesis
          by (simp add: remote_config_def Let_def GOTO_EXIT_def log_defs)
      next
        case stores: (Some stores)
        from unconfigured_remote [OF assms this] Some manager stores show ?thesis
          by (simp add: remote_config_def Let_def)
      qed
    qed
  qed
qed

lemma resolve_path_plugin_names [simp]:
  "plugin_names (resolve_path env chas f) = plugin_names f"
  by (simp add: resolve_path_def Let_def split: option.splits)

lemma plain_stages_keep:
  "stage \<in> set [init_base_options env, open_config_file env, print_main_version, new_options,
                 init_basedir env, install_sigsegv_handler b env, resolve_directories env,
                 open_log_file env, set_log_level b env, init_network env]
   \<Longrightarrow> keeps_plugin_list stage"
  by (auto simp add: keeps_plugin_list_def GOTO_EXIT_def Let_def log_defs
        init_base_options_def open_config_file_def print_main_version_def new_options_def
        init_basedir_def install_sigsegv_handler_def resolve_directories_def open_log_file_def
        set_log_level_def init_network_def
      split: sum.splits option.splits prod.splits)

lemma later_stages_keep:
  "stage \<in> set ([init_plugins env, print_plugin_versions, check_no_arguments_left, daemonize,
                  keepalive b env] @ late_stages b env lenv)
   \<Longrightarrow> keeps_plugin_list stage"
  unfolding late_stages_def
  by (auto simp add: keeps_plugin_list_def GOTO_EXIT_def Let_def log_defs
        init_plugins_def print_plugin_versions_def check_no_arguments_left_def
        daemonize_def keepalive_def
        write_pidfile_def log_plugin_versions_def check_plugin_mode_def
        check_default_username_def run_init_parameters_def open_xa_log_def set_fdlimit_def
        run_mainloop_def
      dest: check_plugin_mode_valid_no_call init_parameters_no_call
      split: sum.splits option.splits prod.splits list.splits keepalive_result.splits
        result.splits)

lemma load_plugins_selected:
  "stage_spec True (selected b) (load_plugins env) (selected b) (selected b)"
  by (simp add: stage_spec_def load_plugins_def selected_def GOTO_EXIT_def Let_def)

lemma unselected_stages:
  assumes "no_plugins_configured env"
  shows "stage_spec True unselected
           (run_stages (config_stages env @ [install_sigsegv_handler b env,
              resolve_directories env, open_log_file env, set_log_level b env,
              init_network env]))
           unselected (loaded_default b)"
proof -
  have "stage_spec True unselected
           (run_stages (config_stages env @ [install_sigsegv_handler b env,
              resolve_directories env, open_log_file env, set_log_level b env,
              init_network env]))
           unselected unselected"
  proof (rule run_stages_invariant)
    fix stage
    assume "stage \<in> set (config_stages env @ [install_sigsegv_handler b env,
              resolve_directories env, open_log_file env, set_log_level b env,
              init_network env])"
    then consider "stage = parse_cmdline_lenient env" | "stage = keyfile_to_options env"
      | "stage = remote_config env"
      | "stage \<in> set [init_base_options env, open_config_file env, print_main_version,
                 new_options, init_basedir env, install_sigsegv_handler b env,
                 resolve_directories env, open_log_file env, set_log_level b env,
                 init_network env]"
      by (auto simp add: config_stages_def)
    then have "keeps_plugin_list stage"
    proof cases
      case 1
      with assms show ?thesis by (simp add: parse_cmdline_lenient_keeps)
    next
      case 2
      with assms show ?thesis by (simp add: keyfile_to_options_keeps)
    next
      case 3
      with assms show ?thesis by (simp add: remote_config_keeps)
    next
      case 4
      then show ?thesis by (rule plain_stages_keep)
    qed
    then show "stage_spec True unselected stage unselected unselected"
      by (rule keeps_unselected)
  qed
  then show ?thesis
    by (rule stage_spec_weaken) (simp_all add: unselected_def loaded_default_def)
qed

lemma selected_stages:
  assumes "no_plugins_configured env"
  shows "stage_spec True (selected b)
           (run_stages ([load_plugins env, init_plugins env] @ startup_stages b env
                          @ late_stages b env lenv))
           (loaded_default b) (loaded_default b)"
proof -
  have "stage_spec True (selected b)
           (run_stages ([load_plugins env, init_plugins env] @ startup_stages b env
                          @ late_stages b env lenv))
           (selected b) (selected b)"
  proof (rule run_stages_invariant)
    fix stage
    assume "stage \<in> set ([load_plugins env, init_plugins env] @ startup_stages b env
                          @ late_stages b env lenv)"
    then consider "stage = load_plugins env" | "stage = parse_cmdline_strict env"
      | "stage \<in> set ([init_plugins env, print_plugin_versions, check_no_arguments_left,
                        daemonize, keepalive b env] @ late_stages b env lenv)"
      by (auto simp add: startup_stages_def)
    then show "stage_spec True (selected b) stage (selected b) (selected b)"
    proof cases
      case 1
      then show ?thesis by (simp add: load_plugins_selected)
    next
      case 2
      with assms show ?thesis by (simp add: parse_cmdline_strict_keeps keeps_selected)
    next
      case 3
      then have "keeps_plugin_list stage" by (rule later_stages_keep)
      then show ?thesis by (rule keeps_selected)
    qed
  qed
  then show ?thesis
    by (rule stage_spec_weaken) (simp_all add: loaded_default_def)
qed

lemma select_default_plugins_loaded:
  "stage_spec True unselected (run_stages [select_default_plugins b]) (selected b)
     (loaded_default b)"
  by (simp add: stage_spec_def unselected_def selected_def select_default_plugins_def
        default_plugin_names_def built_in_plugin_def)

lemma all_stages_loaded_default:
  assumes "no_plugins_configured env"
  shows "stage_spec True unselected
           (run_stages (early_stages b env @ late_stages b env lenv))
           (loaded_default b) (loaded_default b)"
proof -
  have split: "early_stages b env @ late_stages b env lenv =
     (config_stages env @ [install_sigsegv_handler b env, resolve_directories env,
        open_log_file env, set_log_level b env, init_network env])
     @ [select_default_plugins b]
     @ ([load_plugins env, init_plugins env] @ startup_stages b env @ late_stages b env lenv)"
    by (simp add: early_stages_def plugin_stages_def)
  show ?thesis
    unfolding split
    by (rule run_stages_append_spec [OF unselected_stages [OF assms]]
             run_stages_append_spec [OF select_default_plugins_loaded]
             selected_stages [OF assms])+
qed

lemma shutdown_funnel_loaded:
  "Call Chassis_frontend_load_plugins \<in> set (events (shutdown_funnel b env lenv fp code loc tr))
   \<longleftrightarrow> Call Chassis_frontend_load_plugins \<in> set tr"
  by (simp add: shutdown_funnel_def Let_def release_resouces_when_exit_def log_defs
      split: option.splits)

lemma exit_nicely_loaded:
  "funnel_of (exit_nicely b env lenv p fp code loc tr) = Some out \<Longrightarrow>
   resolved out = p
   \<and> (Call Chassis_frontend_load_plugins \<in> set (events out)
        \<longleftrightarrow> Call Chassis_frontend_load_plugins \<in> set tr)"
  using exit_nicely_funnel_of [of b env lenv p fp code loc tr out]
    shutdown_funnel_loaded [of b env lenv p code loc tr]
  by auto

text \<open>
  Claim C6. When the plugin list is \<^verbatim>\<open>NULL\<close>, lines 822-830 make it the one-element list
  of the built-in default plugin. If no configuration source (command line, keyfile,
  remote configuration) stores the option \<^verbatim>\<open>plugins\<close>, every run that gets to load plugins
  ends with exactly that list.
\<close>

theorem default_plugin_when_none_configured:
  "(plugin_names f = None \<longrightarrow>
      plugin_names (default_plugin_names b f) = Some [built_in_plugin b]
      \<and> map_option length (plugin_names (default_plugin_names b f)) = Some 1)
   \<and> (no_plugins_configured env \<longrightarrow>
        (\<exists>out. funnel_of (main_cmdline b env args) = Some out
           \<and> (Call Chassis_frontend_load_plugins \<in> set (events out) \<longrightarrow>
                (\<exists>f'. resolved out = Some f'
                   \<and> plugin_names f' = Some [built_in_plugin b]))))"
proof (intro conjI impI)
  assume "plugin_names f = None"
  then show "plugin_names (default_plugin_names b f) = Some [built_in_plugin b]"
    and "map_option length (plugin_names (default_plugin_names b f)) = Some 1"
    by (simp_all add: default_plugin_names_def built_in_plugin_def)
next
  assume npc: "no_plugins_configured env"
  obtain out where out: "funnel_of (main_cmdline b env args) = Some out"
    using main_cmdline_funnel by blast
  have "Call Chassis_frontend_load_plugins \<in> set (events out) \<longrightarrow>
          (\<exists>f'. resolved out = Some f' \<and> plugin_names f' = Some [built_in_plugin b])"
  proof (cases rule: main_cmdline_cases [where b = b and env = env and args = args])
    case no_glib
    from exit_nicely_loaded [OF out [unfolded no_glib(2)]] show ?thesis by simp
  next
    case no_chassis
    from exit_nicely_loaded [OF out [unfolded no_chassis(3)]] show ?thesis by simp
  next
    case (staged srv0 st)
    have start: "unselected (initial_state b srv0 args)"
      by (simp add: initial_state_def unselected_def chassis_frontend_new_def
            g_slice_new0_frontend_def)
    have "case run_stages (early_stages b env @ late_stages b env (late env))
                 (initial_state b srv0 args) of
            Next st' \<Rightarrow> loaded_default b st' | Goto_exit st' \<Rightarrow> loaded_default b st'
          | Abnormal st' \<Rightarrow> True"
      using all_stages_loaded_default [OF npc] start by (rule stage_specD)
    with staged(3) have "loaded_default b st" by auto
    with exit_nicely_loaded [OF out [unfolded staged(4)]] show ?thesis
      by (simp add: loaded_default_def selected_def)
  qed
  with out show "\<exists>out. funnel_of (main_cmdline b env args) = Some out
           \<and> (Call Chassis_frontend_load_plugins \<in> set (events out) \<longrightarrow>
                (\<exists>f'. resolved out = Some f'
                   \<and> plugin_names f' = Some [built_in_plugin b]))"
    by blast
qed

theorem shutdown_line_when_frontend_exists_witness:
  "filter is_shutdown_line (events_of (main_cmdline example_build verbose_env [''cetus'']))
     = [G_log G_LOG_LEVEL_CRITICAL ''shutting down normally, exit code is: %d'' [I 1]]
   \<and> filter is_shutdown_line (events_of (main_cmdline example_build anonymous_env [''cetus'']))
     = [G_log G_LOG_LEVEL_MESSAGE ''shutting down normally, exit code is: %d'' [I 1]]
   \<and> filter is_shutdown_line (events_of (main_cmdline example_build version_env [''cetus'']))
     = []"
proof -
  have verbose: "map_option print_version
                   (frontend_of (main_cmdline example_build verbose_env [''cetus''])) = Some 0"
                "map_option verbose_shutdown
                   (frontend_of (main_cmdline example_build verbose_env [''cetus''])) = Some 1"
                "map_option final_code
                   (funnel_of (main_cmdline example_build verbose_env [''cetus''])) = Some 1"
    by code_simp+
  have anonymous: "map_option print_version
                   (frontend_of (main_cmdline example_build anonymous_env [''cetus''])) = Some 0"
                "map_option verbose_shutdown
                   (frontend_of (main_cmdline example_build anonymous_env [''cetus''])) = Some 0"
                "map_option final_code
                   (funnel_of (main_cmdline example_build anonymous_env [''cetus''])) = Some 1"
    by code_simp+
  have version: "map_option print_version
                   (frontend_of (main_cmdline example_build version_env [''cetus''])) = Some 1"
    by code_simp
  from shutdown_line_when_frontend_exists [of example_build verbose_env "[''cetus'']"] verbose
  have 1: "filter is_shutdown_line (events_of (main_cmdline example_build verbose_env [''cetus'']))
     = [G_log G_LOG_LEVEL_CRITICAL ''shutting down normally, exit code is: %d'' [I 1]]"
    by auto
  from shutdown_line_when_frontend_exists [of example_build anonymous_env "[''cetus'']"] anonymous
  have 2: "filter is_shutdown_line (events_of (main_cmdline example_build anonymous_env [''cetus'']))
     = [G_log G_LOG_LEVEL_MESSAGE ''shutting down normally, exit code is: %d'' [I 1]]"
    by auto
  from shutdown_line_when_frontend_exists [of example_build version_env "[''cetus'']"] version
  have 3: "filter is_shutdown_line (events_of (main_cmdline example_build version_env [''cetus'']))
     = []"
    by auto
  from 1 2 3 show ?thesis by simp
qed

text \<open>
  The claim as the specification words it fails on the exit path of a failed
  \<^verbatim>\<open>chassis_frontend_init_glib\<close>: the run prints no version, goes through the funnel with
  \<^verbatim>\<open>EXIT_FAILURE\<close> in \<^verbatim>\<open>exit_code\<close>, and logs no terminal line there.
\<close>

theorem no_shutdown_line_without_frontend:
  "map_option final_code
     (funnel_of (main_cmdline example_build failing_glib_env [''cetus''])) = Some EXIT_FAILURE
   \<and> frontend_of (main_cmdline example_build failing_glib_env [''cetus'']) = None
   \<and> Call Chassis_frontend_print_version
        \<notin> set (events_of (main_cmdline example_build failing_glib_env [''cetus'']))
   \<and> Call Chassis_set_shutdown_location
        \<in> set (events_of (main_cmdline example_build failing_glib_env [''cetus'']))
   \<and> Call Release_resouces_when_exit
        \<in> set (events_of (main_cmdline example_build failing_glib_env [''cetus'']))
   \<and> filter is_shutdown_line
        (events_of (main_cmdline example_build failing_glib_env [''cetus''])) = []"
  by code_simp

theorem sigsegv_handler_always_installed_witness:
  "HAVE_SIGACTION example_build
   \<and> reaches_crash_handler example_build anonymous_env [''cetus'']
   \<and> Sigaction SIGSEGV Sigsegv_handler
        \<in> set (events_of (main_cmdline example_build anonymous_env [''cetus'']))
   \<and> reaches_crash_handler example_build valgrind_env [''cetus'']
   \<and> Sigaction SIGSEGV Sigsegv_handler
        \<notin> set (events_of (main_cmdline example_build valgrind_env [''cetus'']))"
proof -
  have b: "HAVE_SIGACTION example_build"
    by (simp add: example_build_def)
  have reach: "reaches_crash_handler example_build anonymous_env [''cetus'']"
              "reaches_crash_handler example_build valgrind_env [''cetus'']"
    by code_simp+
  have tool: "\<not> RUNNING_ON_VALGRIND anonymous_env" "RUNNING_ON_VALGRIND valgrind_env"
    by (simp_all add: anonymous_env_def valgrind_env_def plain_env_def)
  from sigsegv_handler_always_installed [OF b, of anonymous_env "[''cetus'']"] reach tool
  have 1: "Sigaction SIGSEGV Sigsegv_handler
             \<in> set (events_of (main_cmdline example_build anonymous_env [''cetus'']))"
    by (auto dest: funnel_of_fields)
  from sigsegv_handler_always_installed [OF b, of valgrind_env "[''cetus'']"] reach tool
  have 2: "Sigaction SIGSEGV Sigsegv_handler
             \<notin> set (events_of (main_cmdline example_build valgrind_env [''cetus'']))"
    by (auto dest: funnel_of_fields)
  from b reach 1 2 show ?thesis by simp
qed

theorem default_plugin_when_none_configured_witness:
  "plugin_names (default_plugin_names example_build (chassis_frontend_new example_build))
     = Some [''proxy'']
   \<and> Call Chassis_frontend_load_plugins
        \<in> set (events_of (main_cmdline example_build anonymous_env [''cetus'']))
   \<and> map_option plugin_names (frontend_of (main_cmdline example_build anonymous_env [''cetus'']))
       = Some (Some [''proxy''])"
proof -
  have npc: "no_plugins_configured anonymous_env"
    by (auto simp add: no_plugins_configured_def anonymous_env_def plain_env_def
        split: if_splits)
  have none: "plugin_names (chassis_frontend_new example_build) = None"
    by (simp add: chassis_frontend_new_def g_slice_new0_frontend_def)
  have name: "built_in_plugin example_build = ''proxy''"
    by (simp add: built_in_plugin_def example_build_def)
  have loaded: "Call Chassis_frontend_load_plugins
                  \<in> set (events_of (main_cmdline example_build anonymous_env [''cetus'']))"
    by code_simp
  note inst = default_plugin_when_none_configured
               [of "chassis_frontend_new example_build" example_build anonymous_env "[''cetus'']"]
  from inst none name
  have 1: "plugin_names (default_plugin_names example_build (chassis_frontend_new example_build))
             = Some [''proxy'']"
    by simp
  from inst npc obtain out where out:
      "funnel_of (main_cmdline example_build anonymous_env [''cetus'']) = Some out"
    and sel: "Call Chassis_frontend_load_plugins \<in> set (events out) \<longrightarrow>
                (\<exists>f'. resolved out = Some f' \<and> plugin_names f' = Some [built_in_plugin example_build])"
    by blast
  from out loaded sel name
  have 2: "map_option plugin_names (frontend_of (main_cmdline example_build anonymous_env [''cetus'']))
             = Some (Some [''proxy''])"
    by (cases "main_cmdline example_build anonymous_env [''cetus'']") auto
  from 1 loaded 2 show ?thesis by simp
qed

subsection \<open>The precedence of the configuration sources\<close>

lemma parse_cmdline_slots:
  "chassis_options_parse_cmdline lenient registry args slots = Inr (left, slots') \<Longrightarrow>
   slots' name =
     (if name \<in> set registry
      then (case cmdline_value args name of
              Some v \<Rightarrow> Some (v, From_cmdline)
            | None \<Rightarrow> slots name)
      else slots name)"
proof (induction lenient registry args slots arbitrary: left slots'
         rule: chassis_options_parse_cmdline.induct)
  case (1 lenient registry slots)
  then show ?case by simp
next
  case (2 lenient registry n v args slots)
  show ?case
  proof (cases "n \<in> set registry")
    case True
    with "2.prems"
    have "chassis_options_parse_cmdline lenient registry args (slots (n \<mapsto> (v, From_cmdline)))
            = Inr (left, slots')"
      by simp
    from "2.IH"(1) [OF True this] True show ?thesis
      by (auto split: option.splits)
  next
    case False
    with "2.prems" have lenient: lenient
      by (simp split: if_splits)
    with False "2.prems" obtain left0 where
      "chassis_options_parse_cmdline lenient registry args slots = Inr (left0, slots')"
      by (auto split: sum.splits)
    from "2.IH"(2) [OF False lenient this] False show ?thesis
      by (auto split: option.splits)
  qed
next
  case (3 lenient registry p args slots)
  from "3.prems" obtain left0 where
    "chassis_options_parse_cmdline lenient registry args slots = Inr (left0, slots')"
    by (auto split: sum.splits)
  from "3.IH" [OF this] show ?case by simp
qed

lemma parse_cmdline_left:
  "chassis_options_parse_cmdline lenient registry args slots = Inr (left, slots') \<Longrightarrow>
   cmdline_value left name = (if name \<in> set registry then None else cmdline_value args name)"
proof (induction lenient registry args slots arbitrary: left slots'
         rule: chassis_options_parse_cmdline.induct)
  case (1 lenient registry slots)
  then show ?case by simp
next
  case (2 lenient registry n v args slots)
  show ?case
  proof (cases "n \<in> set registry")
    case True
    with "2.prems"
    have "chassis_options_parse_cmdline lenient registry args (slots (n \<mapsto> (v, From_cmdline)))
            = Inr (left, slots')"
      by simp
    from "2.IH"(1) [OF True this] True show ?thesis
      by (auto split: option.splits)
  next
    case False
    with "2.prems" have lenient: lenient
      by (simp split: if_splits)
    with False "2.prems" obtain left0 where rec:
      "chassis_options_parse_cmdline lenient registry args slots = Inr (left0, slots')"
      and left: "left = Flag n v # left0"
      by (auto split: sum.splits)
    from "2.IH"(2) [OF False lenient rec] False left show ?thesis
      by (auto split: option.splits)
  qed
next
  case (3 lenient registry p args slots)
  from "3.prems" obtain left0 where rec:
    "chassis_options_parse_cmdline lenient registry args slots = Inr (left0, slots')"
    and left: "left = Positional p # left0"
    by (auto split: sum.splits)
  from "3.IH" [OF rec] left show ?case by simp
qed

lemma keyfile_to_options_slots:
  "chassis_keyfile_to_options section registry slots name =
     (if name \<in> set registry
      then (case map_of section name of
              None \<Rightarrow> slots name
            | Some v \<Rightarrow>
                (case slots name of
                   Some (w, From_cmdline) \<Rightarrow> slots name
                 | _ \<Rightarrow> Some (v, From_keyfile)))
      else slots name)"
proof (induction registry arbitrary: slots)
  case Nil
  then show ?case by simp
next
  case (Cons n registry)
  show ?case
    by (simp add: Cons.IH split: option.splits prod.splits option_source.splits)
qed

lemma resolve_options_slots:
  assumes "resolve_options core plugins args kf remote = Inr slots"
  obtains args1 slots1 slots4 where
    "chassis_options_parse_cmdline True core args Map.empty = Inr (args1, slots1)"
    "slots4 =
       (case kf of None \<Rightarrow> (\<lambda>s. s) | Some section \<Rightarrow> chassis_keyfile_to_options section plugins)
         ((case remote of None \<Rightarrow> (\<lambda>s. s) | Some section \<Rightarrow> chassis_keyfile_to_options section core)
           ((case kf of None \<Rightarrow> (\<lambda>s. s) | Some section \<Rightarrow> chassis_keyfile_to_options section core)
              slots1))"
    "chassis_options_parse_cmdline False (core @ plugins) args1 slots4 = Inr ([], slots)"
  using assms
  by (auto simp add: resolve_options_def Let_def
      split: sum.splits prod.splits list.splits cmd_arg.splits option.splits)

text \<open>
  Claim C2. When the configuration calls of \<^verbatim>\<open>main_cmdline\<close> succeed, up to the strict parse
  pass and the test for leftover arguments, every registered option that is set on the
  command line holds the command-line value, whatever the keyfile and the remote source
  say about it; an option that is not on the command line holds the keyfile value when
  the keyfile sets it and the remote source does not; and an option that no source sets
  keeps its compiled-in default (its slot stays empty).
\<close>

theorem command_line_overrides_keyfile:
  assumes "resolve_options core plugins args kf remote = Inr slots"
    and "name \<in> set (core @ plugins)"
  shows "(cmdline_value args name = Some cv \<longrightarrow> slots name = Some (cv, From_cmdline))
         \<and> (cmdline_value args name = None \<and> keyfile_value kf name = Some kv
              \<and> keyfile_value remote name = None \<longrightarrow>
              slots name = Some (kv, From_keyfile))
         \<and> (cmdline_value args name = None \<and> keyfile_value kf name = None
              \<and> keyfile_value remote name = None \<longrightarrow>
              slots name = None)"
proof -
  from assms(1) obtain args1 slots1 slots4 where
    pass1: "chassis_options_parse_cmdline True core args Map.empty = Inr (args1, slots1)"
    and files: "slots4 =
       (case kf of None \<Rightarrow> (\<lambda>s. s) | Some section \<Rightarrow> chassis_keyfile_to_options section plugins)
         ((case remote of None \<Rightarrow> (\<lambda>s. s) | Some section \<Rightarrow> chassis_keyfile_to_options section core)
           ((case kf of None \<Rightarrow> (\<lambda>s. s) | Some section \<Rightarrow> chassis_keyfile_to_options section core)
              slots1))"
    and pass2: "chassis_options_parse_cmdline False (core @ plugins) args1 slots4 = Inr ([], slots)"
    by (rule resolve_options_slots)
  note s1 = parse_cmdline_slots [OF pass1, of name]
  note a1 = parse_cmdline_left [OF pass1, of name]
  note s5 = parse_cmdline_slots [OF pass2, of name]
  show ?thesis
  proof (cases "name \<in> set core")
    case True
    with s1 a1 s5 assms(2) files show ?thesis
      by (auto simp add: keyfile_to_options_slots keyfile_value_def split: option.splits)
  next
    case False
    with s1 a1 s5 assms(2) files show ?thesis
      by (auto simp add: keyfile_to_options_slots keyfile_value_def split: option.splits)
  qed
qed

text \<open>
  The example of the specification: the keyfile sets the pool size to 50 and the command
  line says \<^verbatim>\<open>--default-pool-size=200\<close>; \<^verbatim>\<open>proxy-address\<close> is an option declared by a plugin.
\<close>

theorem command_line_overrides_keyfile_witness:
  "map_option (\<lambda>slots. (slots ''default-pool-size'', slots ''max-pool-size'',
                          slots ''proxy-address'', slots ''worker_id''))
     (case resolve_options core_option_names [''proxy-address''] pool_size_args
             (Some pool_size_keyfile) None of Inl e \<Rightarrow> None | Inr slots \<Rightarrow> Some slots)
   = Some (Some (''200'', From_cmdline), Some (''300'', From_keyfile),
           Some ('':6001'', From_cmdline), None)"
proof -
  obtain slots where slots:
    "resolve_options core_option_names [''proxy-address''] pool_size_args
       (Some pool_size_keyfile) None = Inr slots"
    by (simp add: resolve_options_def core_option_names_def pool_size_args_def
          pool_size_keyfile_def chassis_frontend_set_chassis_options_def Let_def)
  have reg: "''default-pool-size'' \<in> set (core_option_names @ [''proxy-address''])"
            "''max-pool-size'' \<in> set (core_option_names @ [''proxy-address''])"
            "''proxy-address'' \<in> set (core_option_names @ [''proxy-address''])"
            "''worker_id'' \<in> set (core_option_names @ [''proxy-address''])"
    by (simp_all add: core_option_names_def chassis_frontend_set_chassis_options_def)
  have cmd: "cmdline_value pool_size_args ''default-pool-size'' = Some ''200''"
            "cmdline_value pool_size_args ''max-pool-size'' = None"
            "cmdline_value pool_size_args ''proxy-address'' = Some '':6001''"
    by (simp_all add: pool_size_args_def)
  have key: "keyfile_value (Some pool_size_keyfile) ''max-pool-size'' = Some ''300''"
            "keyfile_value (Some pool_size_keyfile) ''worker_id'' = None"
            "keyfile_value None ''max-pool-size'' = None"
            "keyfile_value None ''worker_id'' = None"
            "cmdline_value pool_size_args ''worker_id'' = None"
    by (simp_all add: pool_size_keyfile_def keyfile_value_def pool_size_args_def)
  from command_line_overrides_keyfile [OF slots reg(1), of "''200''"] cmd
  have 1: "slots ''default-pool-size'' = Some (''200'', From_cmdline)" by simp
  from command_line_overrides_keyfile [OF slots reg(2), of _ "''300''"] cmd key
  have 2: "slots ''max-pool-size'' = Some (''300'', From_keyfile)" by simp
  from command_line_overrides_keyfile [OF slots reg(3), of "'':6001''"] cmd
  have 3: "slots ''proxy-address'' = Some ('':6001'', From_cmdline)" by simp
  from command_line_overrides_keyfile [OF slots reg(4)] cmd key
  have 4: "slots ''worker_id'' = None" by simp
  from slots 1 2 3 4 show ?thesis by simp
qed

end
